theory Spec2Isabelle
  imports Main "HOL-Library.Sublist"
begin

section \<open>JavaScript values and the built-ins the script uses\<close>

text \<open>
  The script is \<^verbatim>\<open>setup-healthcare-relocation-workflow.mjs\<close>. A JavaScript value that
  comes out of \<^verbatim>\<open>JSON.parse\<close> is a \<open>json\<close>; \<^verbatim>\<open>undefined\<close> is \<open>None\<close> of
  \<open>json option\<close>. A string is a list of bytes (UTF-8). A number is given by the text
  JavaScript prints for it (\<^verbatim>\<open>String(n)\<close>, which is also what \<^verbatim>\<open>JSON.stringify\<close>
  writes): \<^verbatim>\<open>2\<close>, \<^verbatim>\<open>0.5\<close>, \<^verbatim>\<open>1e+21\<close>. That text determines the number up to the
  sign of zero, which no operation of the script can observe.
\<close>

datatype json =
    JNull
  | JBool bool
  | JNum string
  | JStr string
  | JArr "json list"
  | JObj "(string \<times> json) list"

text \<open>Truthiness (\<^verbatim>\<open>if (v)\<close>, \<^verbatim>\<open>!v\<close>, \<^verbatim>\<open>filter(Boolean)\<close>).\<close>

fun truthy :: "json \<Rightarrow> bool" where
  "truthy JNull = False"
| "truthy (JBool b) = b"
| "truthy (JNum n) = (n \<noteq> ''0'' \<and> n \<noteq> ''NaN'')"
| "truthy (JStr s) = (s \<noteq> [])"
| "truthy (JArr xs) = True"
| "truthy (JObj kvs) = True"

definition truthy_opt :: "json option \<Rightarrow> bool" where
  "truthy_opt v = (case v of None \<Rightarrow> False | Some x \<Rightarrow> truthy x)"

text \<open>
  \<^verbatim>\<open>v?.k\<close> for the keys the script reads (\<^verbatim>\<open>name\<close>, \<^verbatim>\<open>id\<close>, \<^verbatim>\<open>token\<close>): an own
  property of an object, \<^verbatim>\<open>undefined\<close> on every other value, also on \<^verbatim>\<open>null\<close>.
\<close>

definition field :: "string \<Rightarrow> json \<Rightarrow> json option" where
  "field k v = (case v of JObj kvs \<Rightarrow> map_of kvs k | _ \<Rightarrow> None)"

text \<open>\<^verbatim>\<open>a ?? b\<close>: \<open>b\<close> when \<open>a\<close> is \<^verbatim>\<open>undefined\<close> or \<^verbatim>\<open>null\<close>.\<close>

definition nullish_or :: "json option \<Rightarrow> json \<Rightarrow> json" where
  "nullish_or a b = (case a of None \<Rightarrow> b | Some JNull \<Rightarrow> b | Some v \<Rightarrow> v)"

fun first_defined :: "string option list \<Rightarrow> string option" where
  "first_defined [] = None"
| "first_defined (None # vs) = first_defined vs"
| "first_defined (Some s # vs) = Some s"

fun join :: "string \<Rightarrow> string list \<Rightarrow> string" where
  "join sep [] = []"
| "join sep [x] = x"
| "join sep (x # y # ys) = x @ sep @ join sep (y # ys)"

text \<open>\<^verbatim>\<open>String(v)\<close>, as a template literal and \<^verbatim>\<open>encodeURIComponent\<close> apply it.\<close>

fun js_string :: "json \<Rightarrow> string" where
  "js_string JNull = ''null''"
| "js_string (JBool b) = (if b then ''true'' else ''false'')"
| "js_string (JNum n) = n"
| "js_string (JStr s) = s"
| "js_string (JArr xs) = join '','' (map (\<lambda>x. if x = JNull then [] else js_string x) xs)"
| "js_string (JObj kvs) = ''[object Object]''"

text \<open>
  \<^verbatim>\<open>Set.prototype.has\<close> compares with SameValueZero: primitives by value (two numbers
  are equal exactly when they print the same), and an object or array is only equal to
  itself, never to one parsed from another text.
\<close>

fun same_value :: "json \<Rightarrow> json \<Rightarrow> bool" where
  "same_value (JArr xs) v = False"
| "same_value (JObj kvs) v = False"
| "same_value u v = (u = v)"

text \<open>\<^verbatim>\<open>Array.prototype.indexOf\<close>, with \<open>None\<close> for \<open>-1\<close>.\<close>

fun indexOf :: "'a list \<Rightarrow> 'a \<Rightarrow> nat option" where
  "indexOf [] x = None"
| "indexOf (y # ys) x = (if y = x then Some 0 else map_option Suc (indexOf ys x))"

text \<open>\<^verbatim>\<open>s.split(",")\<close> on a non-empty string.\<close>

fun split_comma :: "string \<Rightarrow> string list" where
  "split_comma [] = [[]]"
| "split_comma (ch # cs) =
     (if ch = CHR '','' then [] # split_comma cs
      else (case split_comma cs of [] \<Rightarrow> [[ch]] | p # ps \<Rightarrow> (ch # p) # ps))"

text \<open>
  \<^verbatim>\<open>encodeURIComponent\<close>: every byte of the UTF-8 string that is not a letter, a digit
  or one of \<^verbatim>\<open>- _ . ! ~ * ' ( )\<close> becomes \<^verbatim>\<open>%XX\<close>.
\<close>

definition unreserved :: "char \<Rightarrow> bool" where
  "unreserved ch =
     (ch = CHR 0x27 \<or>
      ch \<in> set ''ABCDEFGHIJKLMNOPQRSTUVWXYZabcdefghijklmnopqrstuvwxyz0123456789-_.!~*()'')"

definition hex_digit :: "nat \<Rightarrow> char" where
  "hex_digit d = ''0123456789ABCDEF'' ! d"

definition percent_encode :: "char \<Rightarrow> string" where
  "percent_encode ch =
     [CHR ''%'', hex_digit (of_char ch div 16), hex_digit (of_char ch mod 16)]"

definition encodeURIComponent :: "string \<Rightarrow> string" where
  "encodeURIComponent s = concat (map (\<lambda>ch. if unreserved ch then [ch] else percent_encode ch) s)"

section \<open>Command line\<close>

definition argHas :: "string list \<Rightarrow> string \<Rightarrow> bool" where
  "argHas argv flag = (flag \<in> set argv)"

definition argValue :: "string list \<Rightarrow> string \<Rightarrow> string \<Rightarrow> string" where
  "argValue argv flag fallback =
     (case indexOf argv flag of
        None \<Rightarrow> fallback
      | Some idx \<Rightarrow> (if idx + 1 < length argv then argv ! (idx + 1) else fallback))"

record cfg =
  PLAN :: bool
  NO_OPENAI :: bool
  WORKFLOWS_DIR :: string
  PROMPTS_DIR :: string
  FORMS_DIR :: string

definition flags :: "string list \<Rightarrow> cfg" where
  "flags argv =
     \<lparr> PLAN = (argHas argv ''--plan'' \<or> argHas argv ''--dry-run''),
       NO_OPENAI = argHas argv ''--no-openai'',
       WORKFLOWS_DIR = argValue argv ''--workflows-dir'' ''./workflows'',
       PROMPTS_DIR = argValue argv ''--prompts-dir'' ''./workflows/prompts'',
       FORMS_DIR = argValue argv ''--forms-dir'' ''./forms'' \<rparr>"

definition WORKER_TASKS :: "string list" where
  "WORKER_TASKS =
     [''healthcare_provider_finder'', ''communication_drafter'',
      ''medical_system_navigator'', ''prescription_transition_manager'']"

text \<open>A required prompt: its name and its file.\<close>

definition REQUIRED_PROMPTS :: "(string \<times> string) list" where
  "REQUIRED_PROMPTS =
     [(''MedicalUserIntakeAnalyzer'', ''medical-user-intake.json''),
      (''CombineAnswers'', ''combine-answers.json''),
      (''AssembleHealthPlan'', ''assemble-health-plan.json'')]"

definition DEFAULT_OPENAI_MODELS :: "string list" where
  "DEFAULT_OPENAI_MODELS = [''gpt-4.1'', ''gpt-4.1-mini'', ''gpt-4o'', ''gpt-4o-mini'']"

section \<open>The API base\<close>

text \<open>
  \<^verbatim>\<open>s.replace(/\/api\/?$/, "")\<close>: the pattern is anchored at the end of the string, so
  it matches the suffix \<^verbatim>\<open>/api/\<close> or the suffix \<^verbatim>\<open>/api\<close> (never both), and that suffix is
  removed.
\<close>

definition strip_api :: "string \<Rightarrow> string" where
  "strip_api s =
     (if suffix ''/api/'' s then take (length s - 5) s
      else if suffix ''/api'' s then take (length s - 4) s
      else s)"

text \<open>A string that is set and not empty (a truthy string), or nothing.\<close>

definition nonempty :: "string option \<Rightarrow> string option" where
  "nonempty v = (case v of None \<Rightarrow> None | Some s \<Rightarrow> (if s = [] then None else Some s))"

definition normalizeBaseApiUrl :: "(string \<Rightarrow> string option) \<Rightarrow> string" where
  "normalizeBaseApiUrl penv =
     (case nonempty (penv ''CONDUCTOR_SERVER_API_URL'') of
        Some api \<Rightarrow> strip_api api @ ''/api''
      | None \<Rightarrow>
          (case nonempty (penv ''CONDUCTOR_SERVER_URL'') of
             Some base \<Rightarrow> strip_api base @ ''/api''
           | None \<Rightarrow> ''https://developer.orkescloud.com/api''))"

definition uiBaseFromApi :: "string \<Rightarrow> string" where
  "uiBaseFromApi apiUrl = strip_api apiUrl"

section \<open>The world: network, file system, console\<close>

datatype payload = JsonBody json | TextBody string

text \<open>
  One call of \<^verbatim>\<open>fetch\<close>: the method, the URL, the \<^verbatim>\<open>X-Authorization\<close> header when
  it is sent, and the body. The \<^verbatim>\<open>accept\<close> and \<^verbatim>\<open>Content-Type\<close> headers are constants
  of each call site and are not recorded.
\<close>

record request =
  meth :: string
  url :: string
  auth :: "string option"
  body :: "payload option"

text \<open>What \<^verbatim>\<open>fetch\<close> gives back: it rejects, or a status and the response text.\<close>

datatype response = NetErr | Resp nat string

datatype error =
    NeedCredentials
  | TokenFailed
  | MissingEnv "string list"
  | NetworkError request
  | HttpError nat string string
  | WorkflowsDirNotFound string
  | FsError string
  | SyntaxError string
  | TypeError

text \<open>
  Everything the script reads from outside. \<open>penv\<close> is \<^verbatim>\<open>process.env\<close> as \<^verbatim>\<open>main\<close>
  sees it once \<^verbatim>\<open>loadDotEnvIfPresent\<close> has run. The remote server is a fixed table of
  answers. \<^verbatim>\<open>JSON.parse\<close>, \<^verbatim>\<open>path.join\<close>, \<^verbatim>\<open>path.resolve\<close> and
  \<^verbatim>\<open>String.prototype.trim\<close> are parameters: nothing below depends on what they
  compute. A file-system read that throws is \<open>None\<close>.
\<close>

record env =
  argv :: "string list"
  penv :: "string \<Rightarrow> string option"
  net :: "request \<Rightarrow> response"
  exists_sync :: "string \<Rightarrow> bool"
  readdir_sync :: "string \<Rightarrow> string list option"
  read_file_sync :: "string \<Rightarrow> string option"
  json_parse :: "string \<Rightarrow> json option"
  path_join :: "string \<Rightarrow> string \<Rightarrow> string"
  path_resolve :: "string \<Rightarrow> string"
  trim :: "string \<Rightarrow> string"

datatype level = LHeader | LSection | LBullet | LOk | LInfo | LWarn | LPlan | LLog | LError

text \<open>
  The console lines. A line whose content the properties below talk about has a
  constructor of its own, with the values the script interpolates; every other line is
  \<open>Text\<close>.
\<close>

datatype msg =
    Text string
  | Suppressed string string
  | Would_create_integration string
  | Created_integration string
  | Integration_exists string
  | Would_enable_model string
  | Models_added nat
  | Models_present nat
  | Plan_no_changes
  | TaskDef_exists string
  | TaskDef_missing string
  | TaskDefs_all_exist
  | Registered_taskdefs nat
  | Would_register_taskdefs nat
  | No_forms_dir string
  | No_form_files
  | Skipping_form string
  | Form_exists string
  | Created_form string
  | Would_create_form string
  | Forms_created nat
  | Forms_skipped nat
  | Forms_plan nat nat
  | Prompt_file_not_found string
  | Prompt_exists string
  | Created_prompt string
  | Would_create_prompt string
  | Prompts_created nat
  | Prompts_skipped nat
  | Prompts_plan nat nat
  | Skipping_workflow string
  | Workflow_exists string
  | Created_workflow string
  | Would_create_workflow string
  | Workflows_created nat
  | Workflows_skipped nat
  | Workflows_plan nat nat
  | Failure error

text \<open>The calls of \<^verbatim>\<open>fetch\<close> so far, in order, and the console so far.\<close>

record world =
  trace :: "request list"
  out :: "(level \<times> msg) list"

type_synonym 'a io = "world \<Rightarrow> (error + 'a) \<times> world"

definition ret :: "'a \<Rightarrow> 'a io" where
  "ret x w = (Inr x, w)"

definition throw :: "error \<Rightarrow> 'a io" where
  "throw err w = (Inl err, w)"

definition of_result :: "error + 'a \<Rightarrow> 'a io" where
  "of_result r w = (r, w)"

text \<open>Sequencing of two awaited steps: an exception of the first skips the second.\<close>

definition andThen :: "'a io \<Rightarrow> ('a \<Rightarrow> 'b io) \<Rightarrow> 'b io" where
  "andThen m k w = (case m w of (Inl err, w') \<Rightarrow> (Inl err, w') | (Inr x, w') \<Rightarrow> k x w')"

definition say :: "level \<Rightarrow> msg \<Rightarrow> unit io" where
  "say lv m w = (Inr (), w\<lparr>out := out w @ [(lv, m)]\<rparr>)"

definition header :: "msg \<Rightarrow> unit io" where "header = say LHeader"
definition section_line :: "msg \<Rightarrow> unit io" where "section_line = say LSection"
definition bullet :: "msg \<Rightarrow> unit io" where "bullet = say LBullet"
definition ok :: "msg \<Rightarrow> unit io" where "ok = say LOk"
definition info :: "msg \<Rightarrow> unit io" where "info = say LInfo"
definition warn :: "msg \<Rightarrow> unit io" where "warn = say LWarn"
definition plan :: "msg \<Rightarrow> unit io" where "plan = say LPlan"

definition fetch :: "env \<Rightarrow> request \<Rightarrow> world \<Rightarrow> response \<times> world" where
  "fetch e rq w = (net e rq, w\<lparr>trace := trace w @ [rq]\<rparr>)"

section \<open>File helpers\<close>

definition readText :: "env \<Rightarrow> string \<Rightarrow> error + string" where
  "readText e filePath =
     (case read_file_sync e filePath of None \<Rightarrow> Inl (FsError filePath) | Some text \<Rightarrow> Inr text)"

definition readJson :: "env \<Rightarrow> string \<Rightarrow> error + json" where
  "readJson e filePath =
     (case read_file_sync e filePath of
        None \<Rightarrow> Inl (FsError filePath)
      | Some text \<Rightarrow>
          (case json_parse e text of None \<Rightarrow> Inl (SyntaxError text) | Some v \<Rightarrow> Inr v))"

definition mustEnv :: "env \<Rightarrow> string list \<Rightarrow> error + string" where
  "mustEnv e names =
     (case find (\<lambda>v. v \<noteq> [] \<and> trim e v \<noteq> []) (List.map_filter (penv e) names) of
        Some v \<Rightarrow> Inr v
      | None \<Rightarrow> Inl (MissingEnv names))"

text \<open>
  \<^verbatim>\<open>doc.name\<close> followed by the test \<^verbatim>\<open>if (!doc.name)\<close>: reading a property of
  \<^verbatim>\<open>null\<close> throws; otherwise the name when it is truthy, and nothing when it is not.
\<close>

definition named :: "json \<Rightarrow> error + json option" where
  "named doc =
     (if doc = JNull then Inl TypeError
      else Inr (case field ''name'' doc of
                  None \<Rightarrow> None
                | Some n \<Rightarrow> (if truthy n then Some n else None)))"

section \<open>HTTP helpers\<close>

datatype expect = ExpectJson | ExpectText

definition allowInPlan :: "string \<Rightarrow> string \<Rightarrow> bool" where
  "allowInPlan m u =
     (m = ''GET'' \<or> (m = ''POST'' \<and> (suffix ''/token'' u \<or> suffix ''/token/'' u)))"

definition auth_of :: "json option \<Rightarrow> string option" where
  "auth_of token =
     (case token of None \<Rightarrow> None | Some t \<Rightarrow> (if truthy t then Some (js_string t) else None))"

text \<open>\<^verbatim>\<open>res.ok\<close>\<close>

definition res_ok :: "nat \<Rightarrow> bool" where
  "res_ok status = (200 \<le> status \<and> status \<le> 299)"

text \<open>The text result of \<^verbatim>\<open>http\<close> (\<^verbatim>\<open>expect: "text"\<close>) is the value \<open>JStr text\<close>.\<close>

definition http ::
  "env \<Rightarrow> cfg \<Rightarrow> string \<Rightarrow> string \<Rightarrow> json option \<Rightarrow> payload option \<Rightarrow> expect \<Rightarrow> nat list \<Rightarrow> json io"
where
  "http e c m u token b expect okStatuses w =
     (if PLAN c \<and> \<not> allowInPlan m u then
        (case plan (Suppressed m u) w of
           (_, w') \<Rightarrow> (Inr (if expect = ExpectText then JStr [] else JObj []), w'))
      else
        (let rq = \<lparr>meth = m, url = u, auth = auth_of token, body = b\<rparr> in
         case fetch e rq w of
           (NetErr, w') \<Rightarrow> (Inl (NetworkError rq), w')
         | (Resp status text, w') \<Rightarrow>
             (if status \<notin> set okStatuses then (Inl (HttpError status u text), w')
              else if expect = ExpectText then (Inr (JStr text), w')
              else if text = [] then (Inr (JObj []), w')
              else (case json_parse e text of
                      Some v \<Rightarrow> (Inr v, w')
                    | None \<Rightarrow> (Inr (JObj [(''_raw'', JStr text)]), w')))))"

definition exists :: "env \<Rightarrow> string \<Rightarrow> json option \<Rightarrow> bool io" where
  "exists e u token w =
     (case fetch e \<lparr>meth = ''GET'', url = u, auth = auth_of token, body = None\<rparr> w of
        (NetErr, w') \<Rightarrow> (Inr False, w')
      | (Resp status text, w') \<Rightarrow> (Inr (res_ok status), w'))"

definition listHumanTemplates :: "env \<Rightarrow> string \<Rightarrow> json option \<Rightarrow> json list io" where
  "listHumanTemplates e API token w =
     (let rq = \<lparr>meth = ''GET'', url = API @ ''/human/template'', auth = auth_of token,
                body = None\<rparr> in
      case fetch e rq w of
        (NetErr, w') \<Rightarrow> (Inl (NetworkError rq), w')
      | (Resp status text, w') \<Rightarrow>
          (if \<not> res_ok status then (Inr [], w')
           else if text = [] then (Inr [], w')
           else (case json_parse e text of
                   Some (JArr data) \<Rightarrow> (Inr data, w')
                 | _ \<Rightarrow> (Inr [], w'))))"

definition existsGet :: "env \<Rightarrow> cfg \<Rightarrow> string \<Rightarrow> json option \<Rightarrow> bool io" where
  "existsGet e c u token w =
     (if PLAN c then (Inr False, w)
      else
        (let rq = \<lparr>meth = ''GET'', url = u, auth = auth_of token, body = None\<rparr> in
         case fetch e rq w of
           (NetErr, w') \<Rightarrow> (Inl (NetworkError rq), w')
         | (Resp status text, w') \<Rightarrow> (Inr (res_ok status), w')))"

section \<open>Authentication\<close>

text \<open>
  The part of \<^verbatim>\<open>main\<close> under \<^verbatim>\<open>/** ---- Auth ---- */\<close>: it yields the token and the
  user info.
\<close>

definition auth_section :: "env \<Rightarrow> cfg \<Rightarrow> string \<Rightarrow> (json option \<times> json) io" where
  "auth_section e c API =
     andThen (section_line (Text ''Authentication'')) (\<lambda>_.
     andThen
       (case nonempty (penv e ''CONDUCTOR_ACCESS_TOKEN'') of
          Some accessToken \<Rightarrow>
            andThen (ok (Text ''Using CONDUCTOR_ACCESS_TOKEN'')) (\<lambda>_. ret (Some (JStr accessToken)))
        | None \<Rightarrow>
            (case (nonempty (first_defined [penv e ''CONDUCTOR_KEY_ID'', penv e ''CONDUCTOR_AUTH_KEY'',
                                            penv e ''CONDUCTOR_KEY'']),
                   nonempty (first_defined [penv e ''CONDUCTOR_KEY_SECRET'',
                                            penv e ''CONDUCTOR_AUTH_SECRET'', penv e ''CONDUCTOR_SECRET''])) of
               (Some keyId, Some keySecret) \<Rightarrow>
                 andThen (info (Text ''Using key/secret to obtain token'')) (\<lambda>_.
                 andThen (http e c ''POST'' (API @ ''/token'') None
                            (Some (JsonBody (JObj [(''keyId'', JStr keyId), (''keySecret'', JStr keySecret)])))
                            ExpectJson [200]) (\<lambda>tokenResp.
                 if tokenResp = JNull then throw TypeError
                 else if \<not> truthy_opt (field ''token'' tokenResp) \<and> \<not> PLAN c then throw TokenFailed
                 else ret (field ''token'' tokenResp)))
             | _ \<Rightarrow> throw NeedCredentials)) (\<lambda>token.
     andThen (info (Text ''Checking server connectivity'')) (\<lambda>_.
     andThen (http e c ''GET'' (API @ ''/version'') None None ExpectText [200]) (\<lambda>_.
     andThen (ok (Text ''Server reachable'')) (\<lambda>_.
     andThen (\<lambda>w. case http e c ''GET'' (API @ ''/token/userInfo'') token None ExpectJson [200] w of
                     (Inl err, w') \<Rightarrow> (Inr (JObj []), w')
                   | (Inr v, w') \<Rightarrow> (Inr v, w')) (\<lambda>userInfo.
     andThen (ok (Text (''Authenticated as: '' @
                (case field ''name'' userInfo of
                   None \<Rightarrow> ''unknown user''
                 | Some n \<Rightarrow>
                     (if truthy n
                      then js_string n @ '' ('' @
                           js_string (nullish_or (field ''id'' userInfo) (JStr ''unknown'')) @ '')''
                      else ''unknown user''))))) (\<lambda>_.
     ret (token, userInfo))))))))"

section \<open>OpenAI integration and models\<close>

fun models_loop ::
  "env \<Rightarrow> cfg \<Rightarrow> string \<Rightarrow> string \<Rightarrow> json option \<Rightarrow> string list \<Rightarrow> nat \<times> nat \<Rightarrow> (nat \<times> nat) io"
where
  "models_loop e c API integ token [] (modelsAdded, modelsSkipped) = ret (modelsAdded, modelsSkipped)"
| "models_loop e c API integ token (modelName # rest) (modelsAdded, modelsSkipped) =
     (let modelUrl = API @ ''/integrations/provider/'' @ integ @ ''/integration/'' @
                     encodeURIComponent modelName in
      andThen (existsGet e c modelUrl token) (\<lambda>modelExists.
      if \<not> modelExists then
        (if PLAN c then
           andThen (plan (Would_enable_model modelName)) (\<lambda>_.
           models_loop e c API integ token rest (modelsAdded, modelsSkipped))
         else
           andThen (http e c ''POST'' modelUrl token
                      (Some (JsonBody (JObj [(''configuration'', JObj []),
                                             (''description'', JStr (modelName @ '' from OpenAI'')),
                                             (''enabled'', JBool True)])))
                      ExpectText [200, 201, 204]) (\<lambda>_.
           models_loop e c API integ token rest (modelsAdded + 1, modelsSkipped)))
      else models_loop e c API integ token rest (modelsAdded, modelsSkipped + 1)))"

definition openai_section :: "env \<Rightarrow> cfg \<Rightarrow> string \<Rightarrow> string \<Rightarrow> json option \<Rightarrow> unit io" where
  "openai_section e c API UI token =
     andThen (section_line (Text ''OpenAI Integration (idempotent)'')) (\<lambda>_.
     if NO_OPENAI c then warn (Text ''Skipping OpenAI integration step (--no-openai).'')
     else
       (let openaiIntegrationName =
              (case penv e ''OPENAI_INTEGRATION_NAME'' of None \<Rightarrow> ''openai'' | Some n \<Rightarrow> n) in
        andThen (of_result (mustEnv e [''OPENAI_API_KEY''])) (\<lambda>openaiApiKey.
        let models =
              (case nonempty (penv e ''OPENAI_MODELS'') of
                 Some s \<Rightarrow> filter (\<lambda>m. m \<noteq> []) (map (trim e) (split_comma s))
               | None \<Rightarrow> DEFAULT_OPENAI_MODELS);
            integUrl = API @ ''/integrations/provider/'' @ openaiIntegrationName
        in
        andThen (bullet (Text (''Integration name: '' @ openaiIntegrationName))) (\<lambda>_.
        andThen (bullet (Text (''Models: '' @ join '', '' models))) (\<lambda>_.
        andThen (existsGet e c integUrl token) (\<lambda>integExists.
        andThen
          (if \<not> integExists then
             (if PLAN c then plan (Would_create_integration openaiIntegrationName)
              else
                andThen (http e c ''POST'' integUrl token
                           (Some (JsonBody (JObj
                              [(''category'', JStr ''AI_MODEL''),
                               (''configuration'',
                                  JObj [(''api_key'', JStr openaiApiKey),
                                        (''base_url'', JStr ''https://api.openai.com'')]),
                               (''description'', JStr ''OpenAI integration for built-in LLM tasks''),
                               (''enabled'', JBool True),
                               (''type'', JStr ''openai'')])))
                           ExpectText [200, 201, 204]) (\<lambda>_.
                ok (Created_integration openaiIntegrationName)))
           else ok (Integration_exists openaiIntegrationName)) (\<lambda>_.
        andThen (models_loop e c API openaiIntegrationName token models (0, 0))
          (\<lambda>(modelsAdded, modelsSkipped).
        andThen
          (if \<not> PLAN c then
             andThen (ok (Models_added modelsAdded)) (\<lambda>_. ok (Models_present modelsSkipped))
           else info Plan_no_changes) (\<lambda>_.
        bullet (Text (''UI: '' @ UI @ ''/integrations/'' @ openaiIntegrationName @ ''/integration'')))))))))))"

section \<open>Worker task definitions\<close>

fun taskdefs_loop ::
  "env \<Rightarrow> string \<Rightarrow> json option \<Rightarrow> json \<Rightarrow> string list \<Rightarrow> json list \<Rightarrow> json list io"
where
  "taskdefs_loop e API token userInfo [] missingTaskDefs = ret missingTaskDefs"
| "taskdefs_loop e API token userInfo (name # rest) missingTaskDefs =
     andThen (exists e (API @ ''/metadata/taskdefs/'' @ encodeURIComponent name) token)
       (\<lambda>taskExists.
     if taskExists then
       andThen (ok (TaskDef_exists name)) (\<lambda>_.
       taskdefs_loop e API token userInfo rest missingTaskDefs)
     else
       andThen (warn (TaskDef_missing name)) (\<lambda>_.
       taskdefs_loop e API token userInfo rest
         (missingTaskDefs @
          [JObj [(''name'', JStr name),
                 (''description'', JStr (''Worker task for '' @ name)),
                 (''retryCount'', JNum ''2''),
                 (''timeoutSeconds'', JNum ''300''),
                 (''responseTimeoutSeconds'', JNum ''300''),
                 (''ownerEmail'', nullish_or (field ''id'' userInfo) (JStr ''unknown''))]])))"

fun bullets :: "string list \<Rightarrow> unit io" where
  "bullets [] = ret ()"
| "bullets (t # ts) = andThen (bullet (Text t)) (\<lambda>_. bullets ts)"

definition taskdefs_section ::
  "env \<Rightarrow> cfg \<Rightarrow> string \<Rightarrow> string \<Rightarrow> json option \<Rightarrow> json \<Rightarrow> unit io"
where
  "taskdefs_section e c API UI token userInfo =
     andThen (section_line (Text ''Worker Task Definitions'')) (\<lambda>_.
     andThen (bullets WORKER_TASKS) (\<lambda>_.
     andThen (taskdefs_loop e API token userInfo WORKER_TASKS []) (\<lambda>missingTaskDefs.
     andThen
       (if missingTaskDefs = [] then ok TaskDefs_all_exist
        else
          andThen (http e c ''POST'' (API @ ''/metadata/taskdefs'') token
                     (Some (JsonBody (JArr missingTaskDefs))) ExpectText [200, 204]) (\<lambda>_.
          if \<not> PLAN c then ok (Registered_taskdefs (length missingTaskDefs))
          else plan (Would_register_taskdefs (length missingTaskDefs)))) (\<lambda>_.
     bullet (Text (''UI: '' @ UI @ ''/taskDef''))))))"

section \<open>Human task forms\<close>

fun forms_loop ::
  "env \<Rightarrow> cfg \<Rightarrow> string \<Rightarrow> json option \<Rightarrow> json list \<Rightarrow> string list \<Rightarrow> nat \<times> nat \<Rightarrow> (nat \<times> nat) io"
where
  "forms_loop e c API token existingNames [] (formsCreated, formsSkipped) =
     ret (formsCreated, formsSkipped)"
| "forms_loop e c API token existingNames (f # rest) (formsCreated, formsSkipped) =
     andThen (of_result (readJson e (path_join e (FORMS_DIR c) f))) (\<lambda>form.
     andThen (of_result (named form)) (\<lambda>form_name.
     case form_name of
       None \<Rightarrow>
         andThen (warn (Skipping_form f)) (\<lambda>_.
         forms_loop e c API token existingNames rest (formsCreated, formsSkipped))
     | Some n \<Rightarrow>
         andThen (bullet (Text (''Form: '' @ js_string n))) (\<lambda>_.
         if list_ex (same_value n) existingNames then
           andThen (ok (Form_exists (js_string n))) (\<lambda>_.
           forms_loop e c API token existingNames rest (formsCreated, formsSkipped + 1))
         else
           andThen (http e c ''POST'' (API @ ''/human/template?newVersion=false'') token
                      (Some (JsonBody form)) ExpectText [200, 204]) (\<lambda>_.
           andThen (if \<not> PLAN c then ok (Created_form (js_string n))
                    else plan (Would_create_form (js_string n))) (\<lambda>_.
           forms_loop e c API token existingNames rest (formsCreated + 1, formsSkipped))))))"

text \<open>\<^verbatim>\<open>existingTemplates.map((t) => t?.name).filter(Boolean)\<close>\<close>

definition template_names :: "json list \<Rightarrow> json list" where
  "template_names existingTemplates =
     filter truthy (List.map_filter (field ''name'') existingTemplates)"

definition forms_section :: "env \<Rightarrow> cfg \<Rightarrow> string \<Rightarrow> string \<Rightarrow> json option \<Rightarrow> unit io" where
  "forms_section e c API UI token =
     andThen (section_line (Text ''Human Task Forms'')) (\<lambda>_.
     andThen
       (if \<not> exists_sync e (FORMS_DIR c) then info (No_forms_dir (FORMS_DIR c))
        else
          andThen (of_result (case readdir_sync e (FORMS_DIR c) of
                                None \<Rightarrow> Inl (FsError (FORMS_DIR c))
                              | Some names \<Rightarrow> Inr (filter (suffix ''.json'') names))) (\<lambda>files.
          if files = [] then info No_form_files
          else
            andThen (listHumanTemplates e API token) (\<lambda>existingTemplates.
            andThen (forms_loop e c API token (template_names existingTemplates) files (0, 0))
              (\<lambda>(formsCreated, formsSkipped).
            if \<not> PLAN c then
              andThen (ok (Forms_created formsCreated)) (\<lambda>_. ok (Forms_skipped formsSkipped))
            else plan (Forms_plan formsCreated formsSkipped))))) (\<lambda>_.
     bullet (Text (''UI hint: '' @ UI @ ''/humanTask''))))"

section \<open>AI prompts\<close>

fun prompts_loop ::
  "env \<Rightarrow> cfg \<Rightarrow> string \<Rightarrow> string \<Rightarrow> json option \<Rightarrow> string \<Rightarrow> (string \<times> string) list \<Rightarrow>
   nat \<times> nat \<Rightarrow> (nat \<times> nat) io"
where
  "prompts_loop e c API UI token encodedModels [] (promptsCreated, promptsSkipped) =
     ret (promptsCreated, promptsSkipped)"
| "prompts_loop e c API UI token encodedModels ((name, file) # rest) (promptsCreated, promptsSkipped) =
     (let fp = path_join e (PROMPTS_DIR c) file in
      if \<not> exists_sync e fp then
        andThen (warn (Prompt_file_not_found fp)) (\<lambda>_.
        prompts_loop e c API UI token encodedModels rest (promptsCreated, promptsSkipped))
      else
        andThen (bullet (Text (''Prompt: '' @ name))) (\<lambda>_.
        andThen (exists e (API @ ''/prompts/'' @ encodeURIComponent name) token) (\<lambda>promptExists.
        if promptExists then
          andThen (ok (Prompt_exists name)) (\<lambda>_.
          prompts_loop e c API UI token encodedModels rest (promptsCreated, promptsSkipped + 1))
        else
          andThen (of_result (readText e fp)) (\<lambda>promptBodyText.
          andThen (http e c ''POST''
                     (API @ ''/prompts/'' @ encodeURIComponent name @ ''?description='' @
                      encodeURIComponent (''Auto-registered from '' @ file) @ ''&models='' @
                      encodedModels)
                     token (Some (TextBody promptBodyText)) ExpectText [200, 204]) (\<lambda>_.
          andThen (if \<not> PLAN c then ok (Created_prompt name)
                   else plan (Would_create_prompt name)) (\<lambda>_.
          andThen (bullet (Text (''UI: '' @ UI @ ''/ai_prompts/'' @ encodeURIComponent name))) (\<lambda>_.
          prompts_loop e c API UI token encodedModels rest (promptsCreated + 1, promptsSkipped))))))))"

definition prompts_section :: "env \<Rightarrow> cfg \<Rightarrow> string \<Rightarrow> string \<Rightarrow> json option \<Rightarrow> unit io" where
  "prompts_section e c API UI token =
     andThen (section_line (Text ''AI Prompts'')) (\<lambda>_.
     let promptModelAssociation =
           (case penv e ''PROMPT_MODEL_ASSOCIATION'' of None \<Rightarrow> ''openai:gpt-4o-mini'' | Some a \<Rightarrow> a)
     in
     andThen (bullet (Text (''Model association: '' @ promptModelAssociation))) (\<lambda>_.
     andThen (prompts_loop e c API UI token (encodeURIComponent promptModelAssociation)
                REQUIRED_PROMPTS (0, 0)) (\<lambda>(promptsCreated, promptsSkipped).
     if \<not> PLAN c then
       andThen (ok (Prompts_created promptsCreated)) (\<lambda>_. ok (Prompts_skipped promptsSkipped))
     else plan (Prompts_plan promptsCreated promptsSkipped))))"

section \<open>Workflows\<close>

fun workflows_loop ::
  "env \<Rightarrow> cfg \<Rightarrow> string \<Rightarrow> string \<Rightarrow> json option \<Rightarrow> bool \<Rightarrow> string list \<Rightarrow> nat \<times> nat \<Rightarrow>
   (nat \<times> nat) io"
where
  "workflows_loop e c API UI token positional [] (workflowsCreated, workflowsSkipped) =
     ret (workflowsCreated, workflowsSkipped)"
| "workflows_loop e c API UI token positional (wfFile # rest) (workflowsCreated, workflowsSkipped) =
     (let full = (if positional then path_resolve e wfFile
                  else path_join e (WORKFLOWS_DIR c) wfFile) in
      andThen (of_result (readJson e full)) (\<lambda>wf.
      andThen (of_result (named wf)) (\<lambda>wf_name.
      case wf_name of
        None \<Rightarrow>
          andThen (warn (Skipping_workflow wfFile)) (\<lambda>_.
          workflows_loop e c API UI token positional rest (workflowsCreated, workflowsSkipped))
      | Some n \<Rightarrow>
          andThen (bullet (Text (''Workflow: '' @ js_string n @ '' ('' @ wfFile @ '')''))) (\<lambda>_.
          andThen (exists e (API @ ''/metadata/workflow/'' @ encodeURIComponent (js_string n)) token)
            (\<lambda>wfExists.
          if wfExists then
            andThen (ok (Workflow_exists (js_string n))) (\<lambda>_.
            andThen (bullet (Text (''UI: '' @ UI @ ''/workflowDef/'' @
                                   encodeURIComponent (js_string n)))) (\<lambda>_.
            workflows_loop e c API UI token positional rest (workflowsCreated, workflowsSkipped + 1)))
          else
            andThen (http e c ''POST'' (API @ ''/metadata/workflow?overwrite=false&newVersion=false'')
                       token (Some (JsonBody wf)) ExpectText [200, 204]) (\<lambda>_.
            andThen (if \<not> PLAN c then ok (Created_workflow (js_string n))
                     else plan (Would_create_workflow (js_string n))) (\<lambda>_.
            andThen (bullet (Text (''UI: '' @ UI @ ''/workflowDef/'' @
                                   encodeURIComponent (js_string n)))) (\<lambda>_.
            workflows_loop e c API UI token positional rest
              (workflowsCreated + 1, workflowsSkipped)))))))))"

text \<open>\<^verbatim>\<open>process.argv.find((a) => a.endsWith(".json") && !a.startsWith("-"))\<close>\<close>

definition positionalJson :: "string list \<Rightarrow> string option" where
  "positionalJson args = find (\<lambda>a. suffix ''.json'' a \<and> \<not> prefix ''-'' a) args"

definition workflows_section :: "env \<Rightarrow> cfg \<Rightarrow> string \<Rightarrow> string \<Rightarrow> json option \<Rightarrow> unit io" where
  "workflows_section e c API UI token =
     andThen (section_line (Text ''Workflows'')) (\<lambda>_.
     if \<not> exists_sync e (WORKFLOWS_DIR c) then throw (WorkflowsDirNotFound (WORKFLOWS_DIR c))
     else
       andThen
         (case positionalJson (argv e) of
            Some p \<Rightarrow> ret [p]
          | None \<Rightarrow>
              of_result (case readdir_sync e (WORKFLOWS_DIR c) of
                           None \<Rightarrow> Inl (FsError (WORKFLOWS_DIR c))
                         | Some names \<Rightarrow> Inr (filter (suffix ''.json'') names))) (\<lambda>workflowFiles.
       andThen (workflows_loop e c API UI token (positionalJson (argv e) \<noteq> None) workflowFiles (0, 0))
         (\<lambda>(workflowsCreated, workflowsSkipped).
       if \<not> PLAN c then
         andThen (ok (Workflows_created workflowsCreated)) (\<lambda>_.
         ok (Workflows_skipped workflowsSkipped))
       else plan (Workflows_plan workflowsCreated workflowsSkipped))))"

section \<open>The whole run\<close>

definition main :: "env \<Rightarrow> unit io" where
  "main e =
     (let c = flags (argv e);
          API = normalizeBaseApiUrl (penv e);
          UI = uiBaseFromApi API
      in
      andThen (header (Text ''Orkes Healthcare Relocation Setup'')) (\<lambda>_.
      andThen (bullet (Text (''Mode: '' @ (if PLAN c then ''PLAN (no changes)'' else ''APPLY'')))) (\<lambda>_.
      andThen (bullet (Text (''Orkes API: '' @ API))) (\<lambda>_.
      andThen (bullet (Text (''Orkes UI : '' @ UI))) (\<lambda>_.
      andThen (auth_section e c API) (\<lambda>(token, userInfo).
      andThen (openai_section e c API UI token) (\<lambda>_.
      andThen (taskdefs_section e c API UI token userInfo) (\<lambda>_.
      andThen (forms_section e c API UI token) (\<lambda>_.
      andThen (prompts_section e c API UI token) (\<lambda>_.
      andThen (workflows_section e c API UI token) (\<lambda>_.
      andThen (header (Text (''Setup complete ('' @ (if PLAN c then ''PLAN'' else ''APPLY'') @ '' mode)''))) (\<lambda>_.
      say LLog (Text ''Next steps'')))))))))))))"

text \<open>
  \<^verbatim>\<open>main().catch((e) => { console.error("\nERROR:", e.message); process.exit(1); })\<close>:
  the exit status and the final world.
\<close>

definition run :: "env \<Rightarrow> nat \<times> world" where
  "run e =
     (case main e \<lparr>trace = [], out = []\<rparr> of
        (Inl err, w) \<Rightarrow> (1, w\<lparr>out := out w @ [(LError, Failure err)]\<rparr>)
      | (Inr _, w) \<Rightarrow> (0, w))"

section \<open>Vocabulary for the properties\<close>

text \<open>
  Nothing in this section is part of the script. These definitions name what the
  properties below observe: the request of an existence check, the fixed answer of the
  server to it, the requests that create something, and the lines of the console that
  say which resources were found, which were missing and which were skipped.
\<close>

definition get_request :: "string \<Rightarrow> json option \<Rightarrow> request" where
  "get_request u token = \<lparr>meth = ''GET'', url = u, auth = auth_of token, body = None\<rparr>"

definition http_request :: "string \<Rightarrow> string \<Rightarrow> json option \<Rightarrow> payload option \<Rightarrow> request" where
  "http_request m u token b = \<lparr>meth = m, url = u, auth = auth_of token, body = b\<rparr>"

text \<open>The server's answer to the existence check of \<open>u\<close>, read as \<^verbatim>\<open>res.ok\<close>.\<close>

definition remote_has :: "env \<Rightarrow> string \<Rightarrow> json option \<Rightarrow> bool" where
  "remote_has e u token =
     (case net e (get_request u token) of NetErr \<Rightarrow> False | Resp status text \<Rightarrow> res_ok status)"

definition sent :: "request list \<Rightarrow> world \<Rightarrow> world" where
  "sent rqs w = w\<lparr>trace := trace w @ rqs\<rparr>"

definition printed :: "(level \<times> msg) list \<Rightarrow> world \<Rightarrow> world" where
  "printed ls w = w\<lparr>out := out w @ ls\<rparr>"

text \<open>What a request that reaches the network gives back to the caller of \<^verbatim>\<open>http\<close>.\<close>

definition reply_of :: "env \<Rightarrow> expect \<Rightarrow> string \<Rightarrow> json" where
  "reply_of e ex text =
     (if ex = ExpectText then JStr text
      else if text = [] then JObj []
      else (case json_parse e text of Some v \<Rightarrow> v | None \<Rightarrow> JObj [(''_raw'', JStr text)]))"

definition http_outcome :: "env \<Rightarrow> request \<Rightarrow> expect \<Rightarrow> nat list \<Rightarrow> error + json" where
  "http_outcome e rq ex oks =
     (case net e rq of
        NetErr \<Rightarrow> Inl (NetworkError rq)
      | Resp status text \<Rightarrow>
          (if status \<notin> set oks then Inl (HttpError status (url rq) text)
           else Inr (reply_of e ex text)))"

text \<open>A request that changes nothing remotely: a GET, or the POST of the token exchange.\<close>

definition read_only :: "string \<Rightarrow> request \<Rightarrow> bool" where
  "read_only API rq = (meth rq = ''GET'' \<or> (meth rq = ''POST'' \<and> url rq = API @ ''/token''))"

text \<open>A creation call: a POST other than the token exchange, which goes to \<open>API/token\<close>.\<close>

definition creates :: "string \<Rightarrow> request \<Rightarrow> bool" where
  "creates API rq = (meth rq = ''POST'' \<and> url rq \<noteq> API @ ''/token'')"

definition created :: "string \<Rightarrow> world \<Rightarrow> request list" where
  "created API w = filter (creates API) (trace w)"

text \<open>A step that adds to the trace only requests satisfying \<open>Q\<close>.\<close>

definition only_sends :: "(request \<Rightarrow> bool) \<Rightarrow> 'a io \<Rightarrow> bool" where
  "only_sends Q f = (\<forall>w. \<exists>rs. trace (snd (f w)) = trace w @ rs \<and> list_all Q rs)"

datatype kind = Integration | Model | Taskdef | Form | Prompt | Workflow

text \<open>The name a console line reports as already existing, as missing, as skipped.\<close>

definition existing_line :: "kind \<Rightarrow> level \<times> msg \<Rightarrow> string option" where
  "existing_line k l =
     (case snd l of
        Integration_exists n \<Rightarrow> (if k = Integration then Some n else None)
      | TaskDef_exists n \<Rightarrow> (if k = Taskdef then Some n else None)
      | Form_exists n \<Rightarrow> (if k = Form then Some n else None)
      | Prompt_exists n \<Rightarrow> (if k = Prompt then Some n else None)
      | Workflow_exists n \<Rightarrow> (if k = Workflow then Some n else None)
      | _ \<Rightarrow> None)"

definition missing_line :: "kind \<Rightarrow> level \<times> msg \<Rightarrow> string option" where
  "missing_line k l =
     (case snd l of
        Would_create_integration n \<Rightarrow> (if k = Integration then Some n else None)
      | Created_integration n \<Rightarrow> (if k = Integration then Some n else None)
      | Would_enable_model n \<Rightarrow> (if k = Model then Some n else None)
      | TaskDef_missing n \<Rightarrow> (if k = Taskdef then Some n else None)
      | Created_form n \<Rightarrow> (if k = Form then Some n else None)
      | Would_create_form n \<Rightarrow> (if k = Form then Some n else None)
      | Created_prompt n \<Rightarrow> (if k = Prompt then Some n else None)
      | Would_create_prompt n \<Rightarrow> (if k = Prompt then Some n else None)
      | Created_workflow n \<Rightarrow> (if k = Workflow then Some n else None)
      | Would_create_workflow n \<Rightarrow> (if k = Workflow then Some n else None)
      | _ \<Rightarrow> None)"

definition invalid_line :: "kind \<Rightarrow> level \<times> msg \<Rightarrow> string option" where
  "invalid_line k l =
     (case l of
        (LWarn, Skipping_form f) \<Rightarrow> (if k = Form then Some f else None)
      | (LWarn, Skipping_workflow f) \<Rightarrow> (if k = Workflow then Some f else None)
      | _ \<Rightarrow> None)"

definition existing_of :: "kind \<Rightarrow> world \<Rightarrow> string list" where
  "existing_of k w = List.map_filter (existing_line k) (out w)"

definition missing_of :: "kind \<Rightarrow> world \<Rightarrow> string list" where
  "missing_of k w = List.map_filter (missing_line k) (out w)"

definition invalid_of :: "kind \<Rightarrow> world \<Rightarrow> string list" where
  "invalid_of k w = List.map_filter (invalid_line k) (out w)"

text \<open>The tally a summary line reports: would-be creations in plan mode, creations in apply mode.\<close>

definition would_create_line :: "kind \<Rightarrow> level \<times> msg \<Rightarrow> nat option" where
  "would_create_line k l =
     (case snd l of
        Would_register_taskdefs n \<Rightarrow> (if k = Taskdef then Some n else None)
      | Forms_plan n s \<Rightarrow> (if k = Form then Some n else None)
      | Prompts_plan n s \<Rightarrow> (if k = Prompt then Some n else None)
      | Workflows_plan n s \<Rightarrow> (if k = Workflow then Some n else None)
      | _ \<Rightarrow> None)"

definition created_line :: "kind \<Rightarrow> level \<times> msg \<Rightarrow> nat option" where
  "created_line k l =
     (case snd l of
        Models_added n \<Rightarrow> (if k = Model then Some n else None)
      | Registered_taskdefs n \<Rightarrow> (if k = Taskdef then Some n else None)
      | Forms_created n \<Rightarrow> (if k = Form then Some n else None)
      | Prompts_created n \<Rightarrow> (if k = Prompt then Some n else None)
      | Workflows_created n \<Rightarrow> (if k = Workflow then Some n else None)
      | _ \<Rightarrow> None)"

definition would_create_count :: "kind \<Rightarrow> world \<Rightarrow> nat list" where
  "would_create_count k w = List.map_filter (would_create_line k) (out w)"

definition created_count :: "kind \<Rightarrow> world \<Rightarrow> nat list" where
  "created_count k w = List.map_filter (created_line k) (out w)"

definition is_count :: "level \<times> msg \<Rightarrow> bool" where
  "is_count l = (\<exists>k. would_create_line k l \<noteq> None \<or> created_line k l \<noteq> None)"

definition only_prints :: "(level \<times> msg \<Rightarrow> bool) \<Rightarrow> 'a io \<Rightarrow> bool" where
  "only_prints P f = (\<forall>w. \<exists>ls. out (snd (f w)) = out w @ ls \<and> list_all P ls)"

text \<open>
  The descriptor a file holds: its name as the script prints it, and the document. A file
  that cannot be read or parsed, or whose document has no name, holds none.
\<close>

definition descriptor :: "env \<Rightarrow> string \<Rightarrow> (string \<times> json) option" where
  "descriptor e filePath =
     (case readJson e filePath of
        Inl err \<Rightarrow> None
      | Inr doc \<Rightarrow>
          (case named doc of
             Inr (Some n) \<Rightarrow> Some (js_string n, doc)
           | _ \<Rightarrow> None))"

text \<open>A readable document that lacks a name.\<close>

definition nameless :: "env \<Rightarrow> string \<Rightarrow> bool" where
  "nameless e filePath =
     (case readJson e filePath of Inl err \<Rightarrow> False | Inr doc \<Rightarrow> named doc = Inr None)"

subsection \<open>Task definitions\<close>

definition taskdef_url :: "string \<Rightarrow> string \<Rightarrow> string" where
  "taskdef_url API name = API @ ''/metadata/taskdefs/'' @ encodeURIComponent name"

definition taskdef_has :: "env \<Rightarrow> string \<Rightarrow> json option \<Rightarrow> string \<Rightarrow> bool" where
  "taskdef_has e API token name = remote_has e (taskdef_url API name) token"

text \<open>The record the claims describe for a missing task definition.\<close>

definition task_record :: "json \<Rightarrow> string \<Rightarrow> json" where
  "task_record userInfo name =
     JObj [(''name'', JStr name),
           (''description'', JStr (''Worker task for '' @ name)),
           (''retryCount'', JNum ''2''),
           (''timeoutSeconds'', JNum ''300''),
           (''responseTimeoutSeconds'', JNum ''300''),
           (''ownerEmail'', (case field ''id'' userInfo of
                               None \<Rightarrow> JStr ''unknown''
                             | Some JNull \<Rightarrow> JStr ''unknown''
                             | Some v \<Rightarrow> v))]"

definition taskdefs_post :: "string \<Rightarrow> json option \<Rightarrow> json list \<Rightarrow> request" where
  "taskdefs_post API token records =
     http_request ''POST'' (API @ ''/metadata/taskdefs'') token (Some (JsonBody (JArr records)))"

definition taskdefs_checked :: "env \<Rightarrow> string \<Rightarrow> json option \<Rightarrow> world \<Rightarrow> world" where
  "taskdefs_checked e API token w =
     printed (map (\<lambda>n. if taskdef_has e API token n
                         then (LOk, TaskDef_exists n) else (LWarn, TaskDef_missing n)) WORKER_TASKS)
       (sent (map (\<lambda>n. get_request (taskdef_url API n) token) WORKER_TASKS)
         (printed (map (\<lambda>t. (LBullet, Text t)) WORKER_TASKS)
           (printed [(LSection, Text ''Worker Task Definitions'')] w)))"

subsection \<open>Forms\<close>

definition form_path :: "env \<Rightarrow> cfg \<Rightarrow> string \<Rightarrow> string" where
  "form_path e c f = path_join e (FORMS_DIR c) f"

definition form_has :: "json list \<Rightarrow> string \<times> json \<Rightarrow> bool" where
  "form_has existingNames d =
     (case field ''name'' (snd d) of
        None \<Rightarrow> False
      | Some n \<Rightarrow> list_ex (same_value n) existingNames)"

definition form_post :: "string \<Rightarrow> json option \<Rightarrow> string \<times> json \<Rightarrow> request" where
  "form_post API token d =
     http_request ''POST'' (API @ ''/human/template?newVersion=false'') token
       (Some (JsonBody (snd d)))"

definition form_files :: "env \<Rightarrow> cfg \<Rightarrow> string list" where
  "form_files e c =
     (case readdir_sync e (FORMS_DIR c) of
        None \<Rightarrow> []
      | Some names \<Rightarrow> filter (suffix ''.json'') names)"

definition remote_form_names :: "env \<Rightarrow> string \<Rightarrow> json option \<Rightarrow> json list" where
  "remote_form_names e API token =
     (case net e (get_request (API @ ''/human/template'') token) of
        NetErr \<Rightarrow> []
      | Resp status text \<Rightarrow>
          (if \<not> res_ok status then []
           else if text = [] then []
           else (case json_parse e text of
                   Some (JArr data) \<Rightarrow> template_names data
                 | _ \<Rightarrow> [])))"

subsection \<open>Prompts\<close>

definition prompt_file :: "env \<Rightarrow> cfg \<Rightarrow> string \<times> string \<Rightarrow> string" where
  "prompt_file e c p = path_join e (PROMPTS_DIR c) (snd p)"

definition prompt_url :: "string \<Rightarrow> string \<Rightarrow> string" where
  "prompt_url API name = API @ ''/prompts/'' @ encodeURIComponent name"

definition prompt_has :: "env \<Rightarrow> string \<Rightarrow> json option \<Rightarrow> string \<times> string \<Rightarrow> bool" where
  "prompt_has e API token p = remote_has e (prompt_url API (fst p)) token"

definition prompt_post_url :: "string \<Rightarrow> string \<Rightarrow> string \<times> string \<Rightarrow> string" where
  "prompt_post_url API encodedModels p =
     prompt_url API (fst p) @ ''?description='' @
     encodeURIComponent (''Auto-registered from '' @ snd p) @ ''&models='' @ encodedModels"

definition prompt_post ::
  "env \<Rightarrow> cfg \<Rightarrow> string \<Rightarrow> json option \<Rightarrow> string \<Rightarrow> string \<times> string \<Rightarrow> request" where
  "prompt_post e c API token encodedModels p =
     http_request ''POST'' (prompt_post_url API encodedModels p) token
       (Some (TextBody (case read_file_sync e (prompt_file e c p) of None \<Rightarrow> [] | Some t \<Rightarrow> t)))"

definition prompt_models :: "env \<Rightarrow> string" where
  "prompt_models e =
     encodeURIComponent
       (case penv e ''PROMPT_MODEL_ASSOCIATION'' of None \<Rightarrow> ''openai:gpt-4o-mini'' | Some a \<Rightarrow> a)"

subsection \<open>Models\<close>

definition model_url :: "string \<Rightarrow> string \<Rightarrow> string \<Rightarrow> string" where
  "model_url API integ modelName =
     API @ ''/integrations/provider/'' @ integ @ ''/integration/'' @ encodeURIComponent modelName"

definition model_has :: "env \<Rightarrow> string \<Rightarrow> string \<Rightarrow> json option \<Rightarrow> string \<Rightarrow> bool" where
  "model_has e API integ token modelName = remote_has e (model_url API integ modelName) token"

definition model_post :: "string \<Rightarrow> string \<Rightarrow> json option \<Rightarrow> string \<Rightarrow> request" where
  "model_post API integ token modelName =
     http_request ''POST'' (model_url API integ modelName) token
       (Some (JsonBody (JObj [(''configuration'', JObj []),
                              (''description'', JStr (modelName @ '' from OpenAI'')),
                              (''enabled'', JBool True)])))"

subsection \<open>Workflows\<close>

definition wf_path :: "env \<Rightarrow> cfg \<Rightarrow> bool \<Rightarrow> string \<Rightarrow> string" where
  "wf_path e c positional f =
     (if positional then path_resolve e f else path_join e (WORKFLOWS_DIR c) f)"

definition wf_url :: "string \<Rightarrow> string \<Rightarrow> string" where
  "wf_url API n = API @ ''/metadata/workflow/'' @ encodeURIComponent n"

definition wf_has :: "env \<Rightarrow> string \<Rightarrow> json option \<Rightarrow> string \<times> json \<Rightarrow> bool" where
  "wf_has e API token d = remote_has e (wf_url API (fst d)) token"

definition wf_post :: "string \<Rightarrow> json option \<Rightarrow> string \<times> json \<Rightarrow> request" where
  "wf_post API token d =
     http_request ''POST'' (API @ ''/metadata/workflow?overwrite=false&newVersion=false'') token
       (Some (JsonBody (snd d)))"

definition wf_files :: "env \<Rightarrow> cfg \<Rightarrow> string list" where
  "wf_files e c =
     (case positionalJson (argv e) of
        Some p \<Rightarrow> [p]
      | None \<Rightarrow>
          (case readdir_sync e (WORKFLOWS_DIR c) of
             None \<Rightarrow> []
           | Some names \<Rightarrow> filter (suffix ''.json'') names))"

subsection \<open>Authentication and the OpenAI integration\<close>

definition user_info :: "env \<Rightarrow> string \<Rightarrow> json option \<Rightarrow> json" where
  "user_info e API token =
     (case http_outcome e (http_request ''GET'' (API @ ''/token/userInfo'') token None) ExpectJson [200] of
        Inl err \<Rightarrow> JObj []
      | Inr v \<Rightarrow> v)"

definition who :: "json \<Rightarrow> string" where
  "who userInfo =
     (case field ''name'' userInfo of
        None \<Rightarrow> ''unknown user''
      | Some n \<Rightarrow>
          (if truthy n
           then js_string n @ '' ('' @
                js_string (nullish_or (field ''id'' userInfo) (JStr ''unknown'')) @ '')''
           else ''unknown user''))"

definition openai_name :: "env \<Rightarrow> string" where
  "openai_name e = (case penv e ''OPENAI_INTEGRATION_NAME'' of None \<Rightarrow> ''openai'' | Some n \<Rightarrow> n)"

definition openai_models :: "env \<Rightarrow> string list" where
  "openai_models e =
     (case nonempty (penv e ''OPENAI_MODELS'') of
        Some s \<Rightarrow> filter (\<lambda>m. m \<noteq> []) (map (trim e) (split_comma s))
      | None \<Rightarrow> DEFAULT_OPENAI_MODELS)"

definition integ_url :: "string \<Rightarrow> string \<Rightarrow> string" where
  "integ_url API name = API @ ''/integrations/provider/'' @ name"

definition integ_post :: "string \<Rightarrow> json option \<Rightarrow> string \<Rightarrow> string \<Rightarrow> request" where
  "integ_post API token name key =
     http_request ''POST'' (integ_url API name) token
       (Some (JsonBody (JObj
          [(''category'', JStr ''AI_MODEL''),
           (''configuration'',
              JObj [(''api_key'', JStr key), (''base_url'', JStr ''https://api.openai.com'')]),
           (''description'', JStr ''OpenAI integration for built-in LLM tasks''),
           (''enabled'', JBool True),
           (''type'', JStr ''openai'')])))"

subsection \<open>When a pass runs to its end\<close>

text \<open>
  A request the server answers with one of the accepted statuses; a file that holds a
  JSON document other than \<^verbatim>\<open>null\<close>; and, for each pass, the files it reads can be read
  and the creation calls it needs are accepted.
\<close>

definition accepts :: "env \<Rightarrow> nat list \<Rightarrow> request \<Rightarrow> bool" where
  "accepts e oks rq = (case net e rq of NetErr \<Rightarrow> False | Resp status text \<Rightarrow> status \<in> set oks)"

definition readable :: "env \<Rightarrow> string \<Rightarrow> bool" where
  "readable e filePath = (case readJson e filePath of Inl err \<Rightarrow> False | Inr doc \<Rightarrow> doc \<noteq> JNull)"

definition forms_ready :: "env \<Rightarrow> cfg \<Rightarrow> string \<Rightarrow> json option \<Rightarrow> bool" where
  "forms_ready e c API token =
     (exists_sync e (FORMS_DIR c) \<and> form_files e c \<noteq> [] \<and>
      net e (get_request (API @ ''/human/template'') token) \<noteq> NetErr \<and>
      list_all (\<lambda>f. readable e (form_path e c f)) (form_files e c) \<and>
      (PLAN c \<or>
       list_all (\<lambda>d. form_has (remote_form_names e API token) d \<or>
                      accepts e [200, 204] (form_post API token d))
         (List.map_filter (\<lambda>f. descriptor e (form_path e c f)) (form_files e c))))"

definition prompts_ready :: "env \<Rightarrow> cfg \<Rightarrow> string \<Rightarrow> json option \<Rightarrow> bool" where
  "prompts_ready e c API token =
     list_all (\<lambda>p. \<not> exists_sync e (prompt_file e c p) \<or> prompt_has e API token p \<or>
                    (read_file_sync e (prompt_file e c p) \<noteq> None \<and>
                     (PLAN c \<or> accepts e [200, 204] (prompt_post e c API token (prompt_models e) p))))
       REQUIRED_PROMPTS"

definition workflows_ready :: "env \<Rightarrow> cfg \<Rightarrow> string \<Rightarrow> json option \<Rightarrow> bool" where
  "workflows_ready e c API token =
     (exists_sync e (WORKFLOWS_DIR c) \<and>
      (positionalJson (argv e) \<noteq> None \<or> readdir_sync e (WORKFLOWS_DIR c) \<noteq> None) \<and>
      list_all (\<lambda>f. readable e (wf_path e c (positionalJson (argv e) \<noteq> None) f)) (wf_files e c) \<and>
      (PLAN c \<or>
       list_all (\<lambda>d. wf_has e API token d \<or> accepts e [200, 204] (wf_post API token d))
         (List.map_filter (\<lambda>f. descriptor e (wf_path e c (positionalJson (argv e) \<noteq> None) f))
            (wf_files e c))))"

definition openai_ready :: "env \<Rightarrow> cfg \<Rightarrow> string \<Rightarrow> json option \<Rightarrow> string \<Rightarrow> bool" where
  "openai_ready e c API token key =
     (\<not> NO_OPENAI c \<and> mustEnv e [''OPENAI_API_KEY''] = Inr key \<and>
      net e (get_request (integ_url API (openai_name e)) token) \<noteq> NetErr \<and>
      (remote_has e (integ_url API (openai_name e)) token \<or>
       accepts e [200, 201, 204] (integ_post API token (openai_name e) key)) \<and>
      list_all (\<lambda>m. net e (get_request (model_url API (openai_name e) m) token) \<noteq> NetErr \<and>
                     (model_has e API (openai_name e) token m \<or>
                      accepts e [200, 201, 204] (model_post API (openai_name e) token m)))
        (openai_models e))"

subsection \<open>Transport failures\<close>

text \<open>
  A request that fails in transport: the network rejects it or the status is not 2xx. The
  error \<^verbatim>\<open>http\<close> throws for it. A step stops at a failure when every POST it sends is
  answered well, except possibly the last request, whose error it then throws.
\<close>

definition failed :: "env \<Rightarrow> request \<Rightarrow> bool" where
  "failed e rq = (case net e rq of NetErr \<Rightarrow> True | Resp status text \<Rightarrow> \<not> res_ok status)"

definition failed_post :: "env \<Rightarrow> request \<Rightarrow> bool" where
  "failed_post e rq = (meth rq = ''POST'' \<and> failed e rq)"

definition error_of :: "env \<Rightarrow> request \<Rightarrow> error" where
  "error_of e rq =
     (case net e rq of NetErr \<Rightarrow> NetworkError rq | Resp status text \<Rightarrow> HttpError status (url rq) text)"

definition ends_well :: "env \<Rightarrow> request list \<Rightarrow> error + 'a \<Rightarrow> bool" where
  "ends_well e rs r =
     (case r of
        Inr x \<Rightarrow> list_all (\<lambda>rq. \<not> failed_post e rq) rs
      | Inl err \<Rightarrow>
          list_all (\<lambda>rq. \<not> failed_post e rq) rs \<or>
          (\<exists>rs' rq. rs = rs' @ [rq] \<and> list_all (\<lambda>rq. \<not> failed_post e rq) rs' \<and>
                    err = error_of e rq))"

definition stops_at_failure :: "env \<Rightarrow> 'a io \<Rightarrow> bool" where
  "stops_at_failure e f =
     (\<forall>w r w'. f w = (r, w') \<longrightarrow> (\<exists>rs. trace w' = trace w @ rs \<and> ends_well e rs r))"

section \<open>Test environments\<close>

text \<open>A \<^verbatim>\<open>process.env\<close> in which only \<^verbatim>\<open>CONDUCTOR_SERVER_URL\<close> is set, to \<open>u\<close>.\<close>

definition only_server_url :: "string \<Rightarrow> string \<Rightarrow> string option" where
  "only_server_url u = (\<lambda>k. if k = ''CONDUCTOR_SERVER_URL'' then Some u else None)"

text \<open>
  An apply-mode run with an access token and an OpenAI key in the environment. Remotely
  nothing exists (every existence check is answered 404) and every creation call is
  accepted. Each directory lists \<^verbatim>\<open>a.json\<close>, a document without a name, and
  \<^verbatim>\<open>b.json\<close>, a document named \<^verbatim>\<open>n\<close>.
\<close>

definition demo :: env where
  "demo =
     \<lparr>argv = [''node'', ''setup.mjs''],
      penv = (\<lambda>k. if k = ''CONDUCTOR_ACCESS_TOKEN'' then Some ''t''
                 else if k = ''OPENAI_API_KEY'' then Some ''k''
                 else if k = ''OPENAI_MODELS'' then Some ''m'' else None),
      net = (\<lambda>rq. if meth rq = ''GET'' \<and> \<not> suffix ''/version'' (url rq) \<and>
                      \<not> suffix ''/userInfo'' (url rq)
                   then Resp 404 [] else Resp 200 []),
      exists_sync = (\<lambda>p. True),
      readdir_sync = (\<lambda>d. Some [''a.json'', ''b.json'']),
      read_file_sync = (\<lambda>p. Some p),
      json_parse = (\<lambda>t. if t = ''a.json'' then Some (JObj []) else Some (JObj [(''name'', JStr ''n'')])),
      path_join = (\<lambda>d f. f),
      path_resolve = (\<lambda>f. f),
      trim = (\<lambda>s. s)\<rparr>"

text \<open>The same, with a network that answers only \<^verbatim>\<open>/version\<close> and \<^verbatim>\<open>/token/userInfo\<close>.\<close>

definition demo_down :: env where
  "demo_down =
     demo\<lparr>net := (\<lambda>rq. if suffix ''/version'' (url rq) \<or> suffix ''/userInfo'' (url rq)
                         then Resp 200 [] else NetErr)\<rparr>"

text \<open>The same as \<open>demo\<close>, on a file system where nothing exists.\<close>

definition demo_nodir :: env where
  "demo_nodir = demo\<lparr>exists_sync := (\<lambda>p. False)\<rparr>"

definition demo_api :: string where
  "demo_api = ''https://developer.orkescloud.com/api''"

definition demo_token :: "json option" where
  "demo_token = Some (JStr ''t'')"

definition apply_cfg :: cfg where
  "apply_cfg = \<lparr>PLAN = False, NO_OPENAI = False, WORKFLOWS_DIR = ''./workflows'',
                 PROMPTS_DIR = ''./workflows/prompts'', FORMS_DIR = ''./forms''\<rparr>"

definition init :: world where
  "init = \<lparr>trace = [], out = []\<rparr>"



text \<open>
  A run with \<^verbatim>\<open>--no-openai\<close> against a server that answers every POST with 500; nothing
  exists remotely.
\<close>

definition demo_reject :: env where
  "demo_reject =
     demo\<lparr>argv := [''node'', ''setup.mjs'', ''--no-openai''],
          net := (\<lambda>rq. if meth rq = ''POST'' then Resp 500 []
                        else if url rq = demo_api @ ''/version'' \<or>
                                url rq = demo_api @ ''/token/userInfo''
                        then Resp 200 [] else Resp 404 [])\<rparr>"

text \<open>
  A run with \<^verbatim>\<open>--no-openai\<close> against a server that answers every request with 200 and an
  empty body. The file \<^verbatim>\<open>a.json\<close> holds the JSON document \<^verbatim>\<open>null\<close>, the file
  \<^verbatim>\<open>b.json\<close> a document named \<^verbatim>\<open>n\<close>.
\<close>

definition demo_null :: env where
  "demo_null =
     demo\<lparr>argv := [''node'', ''setup.mjs'', ''--no-openai''],
          net := (\<lambda>rq. Resp 200 []),
          json_parse := (\<lambda>t. if t = ''a.json'' then Some JNull
                               else Some (JObj [(''name'', JStr ''n'')]))\<rparr>"

section \<open>Basic facts about steps\<close>

lemma andThen_ret [simp]: "andThen (ret x) k = k x"
  by (rule ext) (simp add: andThen_def ret_def)

lemma andThen_throw [simp]: "andThen (throw err) k = throw err"
  by (rule ext) (simp add: andThen_def throw_def)

lemma andThen_of_result [simp]:
  "andThen (of_result (Inr x)) k = k x"
  "andThen (of_result (Inl err)) k = throw err"
  by (rule ext, simp add: andThen_def of_result_def throw_def)+

lemma andThen_say [simp]: "andThen (say lv m) k w = k () (printed [(lv, m)] w)"
  by (simp add: andThen_def say_def printed_def)

lemma say_eq: "say lv m w = (Inr (), printed [(lv, m)] w)"
  by (simp add: say_def printed_def)

lemmas console_defs = header_def section_line_def bullet_def ok_def info_def warn_def plan_def

lemma exists_eq: "exists e u token w = (Inr (remote_has e u token), sent [get_request u token] w)"
  by (simp add: exists_def fetch_def remote_has_def get_request_def sent_def split: response.splits)

lemma andThen_exists [simp]:
  "andThen (exists e u token) k w = k (remote_has e u token) (sent [get_request u token] w)"
  by (simp add: andThen_def exists_eq)

lemma trace_printed [simp]: "trace (printed ls w) = trace w"
  by (simp add: printed_def)

lemma out_printed [simp]: "out (printed ls w) = out w @ ls"
  by (simp add: printed_def)

lemma trace_sent [simp]: "trace (sent rs w) = trace w @ rs"
  by (simp add: sent_def)

lemma out_sent [simp]: "out (sent rs w) = out w"
  by (simp add: sent_def)

lemma http_eq:
  "http e c m u token b ex oks w =
     (if PLAN c \<and> \<not> allowInPlan m u
      then (Inr (if ex = ExpectText then JStr [] else JObj []), printed [(LPlan, Suppressed m u)] w)
      else (http_outcome e (http_request m u token b) ex oks, sent [http_request m u token b] w))"
  by (simp add: http_def fetch_def http_outcome_def http_request_def reply_of_def plan_def say_eq
      sent_def Let_def split: response.splits option.splits)

lemma andThen_of_result_case:
  "andThen (of_result r) k w = (case r of Inl err \<Rightarrow> (Inl err, w) | Inr x \<Rightarrow> k x w)"
  by (simp add: andThen_def of_result_def split: sum.splits)

lemma andThen_http:
  "andThen (http e c m u token b ex oks) k w =
     (if PLAN c \<and> \<not> allowInPlan m u
      then k (if ex = ExpectText then JStr [] else JObj []) (printed [(LPlan, Suppressed m u)] w)
      else (case http_outcome e (http_request m u token b) ex oks of
              Inl err \<Rightarrow> (Inl err, sent [http_request m u token b] w)
            | Inr v \<Rightarrow> k v (sent [http_request m u token b] w)))"
  by (simp add: andThen_def http_eq split: sum.splits)

lemma map_filter_append:
  "List.map_filter f (xs @ ys) = List.map_filter f xs @ List.map_filter f ys"
  by (simp add: List.map_filter_def)

lemma obs_sent [simp]:
  "existing_of k (sent rs w) = existing_of k w"
  "missing_of k (sent rs w) = missing_of k w"
  "invalid_of k (sent rs w) = invalid_of k w"
  by (simp_all add: existing_of_def missing_of_def invalid_of_def)

lemma obs_printed [simp]:
  "existing_of k (printed ls w) = existing_of k w @ List.map_filter (existing_line k) ls"
  "missing_of k (printed ls w) = missing_of k w @ List.map_filter (missing_line k) ls"
  "invalid_of k (printed ls w) = invalid_of k w @ List.map_filter (invalid_line k) ls"
  by (simp_all add: existing_of_def missing_of_def invalid_of_def map_filter_append)

lemma created_printed [simp]: "created API (printed ls w) = created API w"
  by (simp add: created_def)

lemma created_sent [simp]: "created API (sent rs w) = created API w @ filter (creates API) rs"
  by (simp add: created_def)

lemma creates_get [simp]: "\<not> creates API (get_request u token)"
  by (simp add: creates_def get_request_def)

lemma creates_http_post [simp]:
  "creates API (http_request ''POST'' u token b) = (u \<noteq> API @ ''/token'')"
  by (simp add: creates_def http_request_def)

lemma file_cases:
  obtains (unreadable) err where "readJson e p = Inl err"
  | (null) doc err where "readJson e p = Inr doc" "named doc = Inl err"
  | (noname) doc where "readJson e p = Inr doc" "named doc = Inr None"
  | (valid) doc n where "readJson e p = Inr doc" "named doc = Inr (Some n)"
proof (cases "readJson e p")
  case (Inl err)
  then show ?thesis by (rule unreadable)
next
  case (Inr doc)
  show ?thesis
  proof (cases "named doc")
    case (Inl err)
    with Inr show ?thesis by (rule null)
  next
    case r: (Inr v)
    show ?thesis
    proof (cases v)
      case None
      with Inr r show ?thesis by (auto intro: noname)
    next
      case (Some n)
      with Inr r show ?thesis by (auto intro: valid)
    qed
  qed
qed

section \<open>The shape of the URLs\<close>

lemma hex_digit_no_slash: "d < 16 \<Longrightarrow> hex_digit d \<noteq> CHR ''/''"
proof -
  assume "d < 16"
  then have "hex_digit d \<in> set ''0123456789ABCDEF''"
    unfolding hex_digit_def by (intro nth_mem) simp
  then show ?thesis by auto
qed

lemma percent_encode_no_slash: "CHR ''/'' \<notin> set (percent_encode ch)"
proof -
  have "(of_char ch :: nat) < 256" by simp
  then have "(of_char ch :: nat) div 16 < 16" "(of_char ch :: nat) mod 16 < 16"
    by (simp_all add: less_mult_imp_div_less)
  then show ?thesis
    using hex_digit_no_slash [of "of_char ch div 16"] hex_digit_no_slash [of "of_char ch mod 16"]
    by (auto simp: percent_encode_def)
qed

lemma encodeURIComponent_no_slash: "CHR ''/'' \<notin> set (encodeURIComponent s)"
  using percent_encode_no_slash by (auto simp: encodeURIComponent_def unreserved_def)

lemma suffix_of_long_tail:
  assumes "suffix a (xs @ ys)" and "length a \<le> length ys"
  shows "suffix a ys"
proof -
  from assms(1) obtain zs where zs: "xs @ ys = zs @ a" by (auto simp: suffix_def)
  with assms(2) obtain us where "ys = us @ a"
    by (auto simp: append_eq_append_conv2)
  then show ?thesis by (simp add: suffix_def)
qed

lemma no_slash_not_token:
  assumes "CHR ''/'' \<notin> set ys" and "7 \<le> length ys"
  shows "\<not> allowInPlan ''POST'' (xs @ ys)"
proof
  assume "allowInPlan ''POST'' (xs @ ys)"
  then have "suffix ''/token'' (xs @ ys) \<or> suffix ''/token/'' (xs @ ys)"
    by (simp add: allowInPlan_def)
  then have "suffix ''/token'' ys \<or> suffix ''/token/'' ys"
    using assms(2) by (auto dest!: suffix_of_long_tail)
  then have "CHR ''/'' \<in> set ys"
    by (auto simp: suffix_def)
  with assms(1) show False by simp
qed

lemma not_allow_taskdefs [simp]: "\<not> allowInPlan ''POST'' (API @ ''/metadata/taskdefs'')"
  by (simp add: allowInPlan_def suffix_def)

lemma not_allow_form [simp]:
  "\<not> allowInPlan ''POST'' (API @ ''/human/template?newVersion=false'')"
  by (simp add: allowInPlan_def suffix_def)

lemma not_allow_wf [simp]:
  "\<not> allowInPlan ''POST'' (API @ ''/metadata/workflow?overwrite=false&newVersion=false'')"
  by (simp add: allowInPlan_def suffix_def)

lemma not_allow_prompt:
  "CHR ''/'' \<notin> set em \<Longrightarrow> \<not> allowInPlan ''POST'' (u @ ''&models='' @ em)"
  by (rule no_slash_not_token) simp_all

lemma not_allow_prompt_url:
  "CHR ''/'' \<notin> set em \<Longrightarrow>
   \<not> allowInPlan ''POST''
       (API @ ''/prompts/'' @ encodeURIComponent name @ ''?description='' @
        encodeURIComponent d @ ''&models='' @ em)"
  using not_allow_prompt [of em "API @ ''/prompts/'' @ encodeURIComponent name @ ''?description='' @
        encodeURIComponent d"]
  by (simp only: append_assoc) blast

lemmas not_allow_prompt_url_nf = not_allow_prompt_url [simplified]

lemma allow_get [simp]: "allowInPlan ''GET'' u"
  by (simp add: allowInPlan_def)

lemma allow_token [simp]: "allowInPlan ''POST'' (API @ ''/token'')"
  by (simp add: allowInPlan_def suffix_def)

section \<open>Plan mode sends nothing but reads\<close>

lemma only_sends_ret [intro!, simp]: "only_sends Q (ret x)"
  by (simp add: only_sends_def ret_def)

lemma only_sends_throw [intro!, simp]: "only_sends Q (throw err)"
  by (simp add: only_sends_def throw_def)

lemma only_sends_of_result [intro!, simp]: "only_sends Q (of_result r)"
  by (simp add: only_sends_def of_result_def)

lemma only_sends_say [intro!, simp]: "only_sends Q (say lv m)"
  by (simp add: only_sends_def say_def)

lemma only_sends_console [intro!, simp]:
  "only_sends Q (header m)" "only_sends Q (section_line m)" "only_sends Q (bullet m)"
  "only_sends Q (ok m)" "only_sends Q (info m)" "only_sends Q (warn m)" "only_sends Q (plan m)"
  by (simp_all add: console_defs)

lemma only_sends_andThen [intro!]:
  assumes "only_sends Q m" and "\<And>x. only_sends Q (k x)"
  shows "only_sends Q (andThen m k)"
  unfolding only_sends_def
proof
  fix w
  obtain rs where rs: "trace (snd (m w)) = trace w @ rs" "list_all Q rs"
    using assms(1) unfolding only_sends_def by blast
  show "\<exists>rs. trace (snd (andThen m k w)) = trace w @ rs \<and> list_all Q rs"
  proof (cases "m w")
    case (Pair r w')
    show ?thesis
    proof (cases r)
      case (Inl err)
      with Pair rs show ?thesis by (auto simp: andThen_def)
    next
      case (Inr x)
      obtain rs' where rs': "trace (snd (k x w')) = trace w' @ rs'" "list_all Q rs'"
        using assms(2) unfolding only_sends_def by blast
      with Pair Inr rs show ?thesis by (auto simp: andThen_def)
    qed
  qed
qed

lemma only_sends_exists [intro!, simp]: "only_sends (read_only API) (exists e u token)"
  by (auto simp: only_sends_def exists_eq read_only_def get_request_def)

lemma only_sends_http_plan [intro!]:
  "PLAN c \<Longrightarrow> m = ''GET'' \<or> u = API @ ''/token'' \<or> \<not> allowInPlan m u \<Longrightarrow>
   only_sends (read_only API) (http e c m u token b ex oks)"
  by (auto simp: only_sends_def http_eq read_only_def http_request_def allowInPlan_def)

lemma only_sends_existsGet [intro!]: "only_sends (read_only API) (existsGet e c u token)"
  by (auto simp: only_sends_def existsGet_def fetch_def read_only_def Let_def
      split: response.splits)

lemma only_sends_listHumanTemplates [intro!]: "only_sends (read_only API) (listHumanTemplates e API token)"
  by (auto simp: only_sends_def listHumanTemplates_def fetch_def read_only_def Let_def
      split: response.splits option.splits json.splits)

lemma only_sends_if [intro!]:
  "(b \<Longrightarrow> only_sends Q f) \<Longrightarrow> (\<not> b \<Longrightarrow> only_sends Q g) \<Longrightarrow> only_sends Q (if b then f else g)"
  by simp

lemma only_sends_case_option [intro!]:
  "(x = None \<Longrightarrow> only_sends Q f) \<Longrightarrow> (\<And>y. x = Some y \<Longrightarrow> only_sends Q (g y)) \<Longrightarrow>
   only_sends Q (case x of None \<Rightarrow> f | Some y \<Rightarrow> g y)"
  by (cases x) simp_all

lemma only_sends_case_prod [intro!]:
  "(\<And>a b. p = (a, b) \<Longrightarrow> only_sends Q (f a b)) \<Longrightarrow> only_sends Q (case p of (a, b) \<Rightarrow> f a b)"
  by (cases p) simp

lemma only_sends_bullets [intro!]: "only_sends Q (bullets ts)"
  by (induction ts) auto

lemma only_sends_taskdefs_loop [intro!]:
  "only_sends (read_only API) (taskdefs_loop e API token userInfo names acc)"
  by (induction names arbitrary: acc) auto

lemma only_sends_models_loop [intro!]:
  "PLAN c \<Longrightarrow> only_sends (read_only API) (models_loop e c API integ token ms acc)"
  by (induction ms arbitrary: acc; cases acc) (auto simp: Let_def)

lemma only_sends_forms_loop [intro!]:
  "PLAN c \<Longrightarrow> only_sends (read_only API) (forms_loop e c API token ex fs acc)"
  by (induction fs arbitrary: acc; cases acc) auto

lemma only_sends_prompts_loop [intro!]:
  "PLAN c \<Longrightarrow> CHR ''/'' \<notin> set em \<Longrightarrow>
   only_sends (read_only API) (prompts_loop e c API UI token em ps acc)"
proof (induction ps arbitrary: acc)
  case Nil
  then show ?case by (cases acc) auto
next
  case (Cons p ps)
  then show ?case by (cases acc; cases p) (auto simp: Let_def not_allow_prompt_url_nf)
qed

lemma only_sends_workflows_loop [intro!]:
  "PLAN c \<Longrightarrow> only_sends (read_only API) (workflows_loop e c API UI token pos fs acc)"
  by (induction fs arbitrary: acc; cases acc) (auto simp: Let_def)

lemma only_sends_catch [intro!]:
  "only_sends Q f \<Longrightarrow>
   only_sends Q (\<lambda>w. case f w of (Inl err, w') \<Rightarrow> (Inr d, w') | (Inr v, w') \<Rightarrow> (Inr v, w'))"
  unfolding only_sends_def
proof
  fix w assume a: "\<forall>w. \<exists>rs. trace (snd (f w)) = trace w @ rs \<and> list_all Q rs"
  then obtain rs where "trace (snd (f w)) = trace w @ rs \<and> list_all Q rs" by blast
  then show "\<exists>rs. trace (snd (case f w of (Inl err, w') \<Rightarrow> (Inr d, w') | (Inr v, w') \<Rightarrow> (Inr v, w'))) =
               trace w @ rs \<and> list_all Q rs"
    by (cases "f w") (auto split: sum.splits)
qed

lemma only_sends_auth [intro!]: "PLAN c \<Longrightarrow> only_sends (read_only API) (auth_section e c API)"
  unfolding auth_section_def
  by (auto split: option.splits)

lemma only_sends_openai [intro!]: "PLAN c \<Longrightarrow> only_sends (read_only API) (openai_section e c API UI token)"
  unfolding openai_section_def by (auto simp: Let_def)

lemma only_sends_taskdefs [intro!]: "PLAN c \<Longrightarrow> only_sends (read_only API) (taskdefs_section e c API UI token ui)"
  unfolding taskdefs_section_def by auto

lemma only_sends_forms [intro!]: "PLAN c \<Longrightarrow> only_sends (read_only API) (forms_section e c API UI token)"
  unfolding forms_section_def by auto

lemma only_sends_prompts [intro!]: "PLAN c \<Longrightarrow> only_sends (read_only API) (prompts_section e c API UI token)"
  unfolding prompts_section_def by (auto simp: Let_def encodeURIComponent_no_slash)

lemma only_sends_workflows [intro!]: "PLAN c \<Longrightarrow> only_sends (read_only API) (workflows_section e c API UI token)"
  unfolding workflows_section_def by (auto simp: Let_def)

lemma only_sends_main:
  "PLAN (flags (argv e)) \<Longrightarrow> only_sends (read_only (normalizeBaseApiUrl (penv e))) (main e)"
  unfolding main_def by (auto simp: Let_def)

section \<open>The task definition loop\<close>

lemma taskdefs_loop_eq:
  "taskdefs_loop e API token userInfo names acc w =
     (Inr (acc @ map (task_record userInfo)
                  (filter (\<lambda>n. \<not> taskdef_has e API token n) names)),
      printed (map (\<lambda>n. if taskdef_has e API token n
                         then (LOk, TaskDef_exists n) else (LWarn, TaskDef_missing n)) names)
        (sent (map (\<lambda>n. get_request (taskdef_url API n) token) names) w))"
proof (induction names arbitrary: acc w)
  case Nil
  then show ?case by (simp add: ret_def sent_def printed_def)
next
  case (Cons n names)
  show ?case
    by (simp add: Cons.IH console_defs taskdef_url_def taskdef_has_def task_record_def
        nullish_or_def sent_def printed_def)
qed

section \<open>The workflow loop\<close>

lemma workflows_loop_Cons:
  "workflows_loop e c API UI token positional (wfFile # rest) (workflowsCreated, workflowsSkipped) =
      andThen (of_result (readJson e (wf_path e c positional wfFile))) (\<lambda>wf.
      andThen (of_result (named wf)) (\<lambda>wf_name.
      case wf_name of
        None \<Rightarrow>
          andThen (warn (Skipping_workflow wfFile)) (\<lambda>_.
          workflows_loop e c API UI token positional rest (workflowsCreated, workflowsSkipped))
      | Some n \<Rightarrow>
          andThen (bullet (Text (''Workflow: '' @ js_string n @ '' ('' @ wfFile @ '')''))) (\<lambda>_.
          andThen (exists e (wf_url API (js_string n)) token)
            (\<lambda>wfExists.
          if wfExists then
            andThen (ok (Workflow_exists (js_string n))) (\<lambda>_.
            andThen (bullet (Text (''UI: '' @ UI @ ''/workflowDef/'' @
                                   encodeURIComponent (js_string n)))) (\<lambda>_.
            workflows_loop e c API UI token positional rest (workflowsCreated, workflowsSkipped + 1)))
          else
            andThen (http e c ''POST'' (API @ ''/metadata/workflow?overwrite=false&newVersion=false'')
                       token (Some (JsonBody wf)) ExpectText [200, 204]) (\<lambda>_.
            andThen (if \<not> PLAN c then ok (Created_workflow (js_string n))
                     else plan (Would_create_workflow (js_string n))) (\<lambda>_.
            andThen (bullet (Text (''UI: '' @ UI @ ''/workflowDef/'' @
                                   encodeURIComponent (js_string n)))) (\<lambda>_.
            workflows_loop e c API UI token positional rest
              (workflowsCreated + 1, workflowsSkipped))))))))"
  by (simp only: workflows_loop.simps Let_def wf_path_def wf_url_def)

lemma workflows_loop_ok:
  assumes "workflows_loop e c API UI token pos files (cr, sk) w = (Inr (cr', sk'), w')"
  defines "ds \<equiv> List.map_filter (\<lambda>f. descriptor e (wf_path e c pos f)) files"
  shows "cr' = cr + length (filter (\<lambda>d. \<not> wf_has e API token d) ds) \<and>
         sk' = sk + length (filter (wf_has e API token) ds) \<and>
         existing_of Workflow w' = existing_of Workflow w @ map fst (filter (wf_has e API token) ds) \<and>
         missing_of Workflow w' = missing_of Workflow w @ map fst (filter (\<lambda>d. \<not> wf_has e API token d) ds) \<and>
         invalid_of Workflow w' = invalid_of Workflow w @ filter (\<lambda>f. nameless e (wf_path e c pos f)) files \<and>
         created API w' = created API w @ (if PLAN c then [] else map (wf_post API token) (filter (\<lambda>d. \<not> wf_has e API token d) ds))"
  using assms(1) unfolding ds_def
proof (induction files arbitrary: cr sk w)
  case Nil
  then show ?case by (simp add: ret_def List.map_filter_simps)
next
  case (Cons f files)
  note eq = Cons.prems [unfolded workflows_loop_Cons]
  show ?case
  proof (cases rule: file_cases [of e "wf_path e c pos f"])
    case (unreadable err)
    with eq show ?thesis by (simp add: throw_def)
  next
    case (null doc err)
    with eq show ?thesis by (simp add: throw_def)
  next
    case (noname doc)
    then have d: "descriptor e (wf_path e c pos f) = None" "nameless e (wf_path e c pos f)"
      by (simp_all add: descriptor_def nameless_def)
    from eq noname have "workflows_loop e c API UI token pos files (cr, sk)
        (printed [(LWarn, Skipping_workflow f)] w) = (Inr (cr', sk'), w')"
      by (simp add: warn_def)
    from Cons.IH [OF this] d show ?thesis
      by (simp add: List.map_filter_simps existing_line_def missing_line_def invalid_line_def)
  next
    case (valid doc n)
    then have d: "descriptor e (wf_path e c pos f) = Some (js_string n, doc)"
      "\<not> nameless e (wf_path e c pos f)"
      by (simp_all add: descriptor_def nameless_def)
    show ?thesis
    proof (cases "remote_has e (wf_url API (js_string n)) token")
      case True
      with eq valid have "\<exists>w1. workflows_loop e c API UI token pos files (cr, sk + 1) w1 = (Inr (cr', sk'), w')
          \<and> existing_of Workflow w1 = existing_of Workflow w @ [js_string n]
          \<and> missing_of Workflow w1 = missing_of Workflow w
          \<and> invalid_of Workflow w1 = invalid_of Workflow w
          \<and> created API w1 = created API w"
        apply (simp add: console_defs)
        apply (rule exI, rule conjI, assumption)
        apply (simp add: List.map_filter_simps existing_line_def missing_line_def invalid_line_def)
        done
      then obtain w1 where w1: "workflows_loop e c API UI token pos files (cr, sk + 1) w1 = (Inr (cr', sk'), w')"
          "existing_of Workflow w1 = existing_of Workflow w @ [js_string n]"
          "missing_of Workflow w1 = missing_of Workflow w"
          "invalid_of Workflow w1 = invalid_of Workflow w"
          "created API w1 = created API w" by blast
      from Cons.IH [OF w1(1)] w1(2-) d True show ?thesis
        by (simp add: List.map_filter_simps wf_has_def)
    next
      case False
      have "\<exists>w1. workflows_loop e c API UI token pos files (cr + 1, sk) w1 = (Inr (cr', sk'), w')
          \<and> existing_of Workflow w1 = existing_of Workflow w
          \<and> missing_of Workflow w1 = missing_of Workflow w @ [js_string n]
          \<and> invalid_of Workflow w1 = invalid_of Workflow w
          \<and> created API w1 = created API w @ (if PLAN c then [] else [wf_post API token (js_string n, doc)])"
      proof (cases "PLAN c")
        case True
        with eq valid False show ?thesis
          apply (simp add: console_defs andThen_http)
          apply (rule exI, rule conjI, assumption)
          apply (simp add: List.map_filter_simps existing_line_def missing_line_def invalid_line_def)
          done
      next
        case noplan: False
        with eq valid False show ?thesis
          apply (cases "http_outcome e (http_request ''POST''
                (API @ ''/metadata/workflow?overwrite=false&newVersion=false'') token
                (Some (JsonBody doc))) ExpectText [200, 204]")
           apply (simp_all add: console_defs andThen_http)
          apply (rule exI, rule conjI, assumption)
          apply (simp add: List.map_filter_simps existing_line_def missing_line_def invalid_line_def
              wf_post_def)
          done
      qed
      then obtain w1 where w1: "workflows_loop e c API UI token pos files (cr + 1, sk) w1 = (Inr (cr', sk'), w')"
          "existing_of Workflow w1 = existing_of Workflow w"
          "missing_of Workflow w1 = missing_of Workflow w @ [js_string n]"
          "invalid_of Workflow w1 = invalid_of Workflow w"
          "created API w1 = created API w @ (if PLAN c then [] else [wf_post API token (js_string n, doc)])" by blast
      from Cons.IH [OF w1(1)] w1(2-) d False show ?thesis
        by (simp add: List.map_filter_simps wf_has_def)
    qed
  qed
qed


section \<open>The form loop\<close>

lemma named_Some: "named doc = Inr (Some n) \<Longrightarrow> field ''name'' doc = Some n"
  by (auto simp: named_def split: if_splits option.splits)

lemma forms_loop_Cons:
  "forms_loop e c API token existingNames (f # rest) (formsCreated, formsSkipped) =
     andThen (of_result (readJson e (form_path e c f))) (\<lambda>form.
     andThen (of_result (named form)) (\<lambda>form_name.
     case form_name of
       None \<Rightarrow>
         andThen (warn (Skipping_form f)) (\<lambda>_.
         forms_loop e c API token existingNames rest (formsCreated, formsSkipped))
     | Some n \<Rightarrow>
         andThen (bullet (Text (''Form: '' @ js_string n))) (\<lambda>_.
         if list_ex (same_value n) existingNames then
           andThen (ok (Form_exists (js_string n))) (\<lambda>_.
           forms_loop e c API token existingNames rest (formsCreated, formsSkipped + 1))
         else
           andThen (http e c ''POST'' (API @ ''/human/template?newVersion=false'') token
                      (Some (JsonBody form)) ExpectText [200, 204]) (\<lambda>_.
           andThen (if \<not> PLAN c then ok (Created_form (js_string n))
                    else plan (Would_create_form (js_string n))) (\<lambda>_.
           forms_loop e c API token existingNames rest (formsCreated + 1, formsSkipped))))))"
  by (simp only: forms_loop.simps form_path_def)

lemma forms_loop_ok:
  assumes "forms_loop e c API token ex files (cr, sk) w = (Inr (cr', sk'), w')"
  defines "ds \<equiv> List.map_filter (\<lambda>f. descriptor e (form_path e c f)) files"
  shows "cr' = cr + length (filter (\<lambda>d. \<not> form_has ex d) ds) \<and>
         sk' = sk + length (filter (form_has ex) ds) \<and>
         existing_of Form w' = existing_of Form w @ map fst (filter (form_has ex) ds) \<and>
         missing_of Form w' = missing_of Form w @ map fst (filter (\<lambda>d. \<not> form_has ex d) ds) \<and>
         invalid_of Form w' = invalid_of Form w @ filter (\<lambda>f. nameless e (form_path e c f)) files \<and>
         created API w' = created API w @ (if PLAN c then [] else map (form_post API token) (filter (\<lambda>d. \<not> form_has ex d) ds))"
  using assms(1) unfolding ds_def
proof (induction files arbitrary: cr sk w)
  case Nil
  then show ?case by (simp add: ret_def List.map_filter_simps)
next
  case (Cons f files)
  note eq = Cons.prems [unfolded forms_loop_Cons]
  show ?case
  proof (cases rule: file_cases [of e "form_path e c f"])
    case (unreadable err)
    with eq show ?thesis by (simp add: throw_def)
  next
    case (null doc err)
    with eq show ?thesis by (simp add: throw_def)
  next
    case (noname doc)
    then have d: "descriptor e (form_path e c f) = None" "nameless e (form_path e c f)"
      by (simp_all add: descriptor_def nameless_def)
    from eq noname have "forms_loop e c API token ex files (cr, sk)
        (printed [(LWarn, Skipping_form f)] w) = (Inr (cr', sk'), w')"
      by (simp add: warn_def)
    from Cons.IH [OF this] d show ?thesis
      by (simp add: List.map_filter_simps existing_line_def missing_line_def invalid_line_def)
  next
    case (valid doc n)
    then have d: "descriptor e (form_path e c f) = Some (js_string n, doc)"
      "\<not> nameless e (form_path e c f)"
      by (simp_all add: descriptor_def nameless_def)
    have h: "form_has ex (js_string n, doc) = list_ex (same_value n) ex"
      using named_Some [OF valid(2)] by (simp add: form_has_def)
    show ?thesis
    proof (cases "list_ex (same_value n) ex")
      case True
      with eq valid have "\<exists>w1. forms_loop e c API token ex files (cr, sk + 1) w1 = (Inr (cr', sk'), w')
          \<and> existing_of Form w1 = existing_of Form w @ [js_string n]
          \<and> missing_of Form w1 = missing_of Form w
          \<and> invalid_of Form w1 = invalid_of Form w
          \<and> created API w1 = created API w"
        apply (simp add: console_defs)
        apply (rule exI, rule conjI, assumption)
        apply (simp add: List.map_filter_simps existing_line_def missing_line_def invalid_line_def)
        done
      then obtain w1 where w1: "forms_loop e c API token ex files (cr, sk + 1) w1 = (Inr (cr', sk'), w')"
          "existing_of Form w1 = existing_of Form w @ [js_string n]"
          "missing_of Form w1 = missing_of Form w"
          "invalid_of Form w1 = invalid_of Form w"
          "created API w1 = created API w" by blast
      from Cons.IH [OF w1(1)] w1(2-) d True h show ?thesis
        by (simp add: List.map_filter_simps)
    next
      case False
      have "\<exists>w1. forms_loop e c API token ex files (cr + 1, sk) w1 = (Inr (cr', sk'), w')
          \<and> existing_of Form w1 = existing_of Form w
          \<and> missing_of Form w1 = missing_of Form w @ [js_string n]
          \<and> invalid_of Form w1 = invalid_of Form w
          \<and> created API w1 = created API w @ (if PLAN c then [] else [form_post API token (js_string n, doc)])"
      proof (cases "PLAN c")
        case True
        with eq valid False show ?thesis
          apply (simp add: console_defs andThen_http)
          apply (rule exI, rule conjI, assumption)
          apply (simp add: List.map_filter_simps existing_line_def missing_line_def invalid_line_def)
          done
      next
        case noplan: False
        with eq valid False show ?thesis
          apply (cases "http_outcome e (http_request ''POST''
                (API @ ''/human/template?newVersion=false'') token
                (Some (JsonBody doc))) ExpectText [200, 204]")
           apply (simp_all add: console_defs andThen_http)
          apply (rule exI, rule conjI, assumption)
          apply (simp add: List.map_filter_simps existing_line_def missing_line_def invalid_line_def
              form_post_def)
          done
      qed
      then obtain w1 where w1: "forms_loop e c API token ex files (cr + 1, sk) w1 = (Inr (cr', sk'), w')"
          "existing_of Form w1 = existing_of Form w"
          "missing_of Form w1 = missing_of Form w @ [js_string n]"
          "invalid_of Form w1 = invalid_of Form w"
          "created API w1 = created API w @ (if PLAN c then [] else [form_post API token (js_string n, doc)])" by blast
      from Cons.IH [OF w1(1)] w1(2-) d False h show ?thesis
        by (simp add: List.map_filter_simps)
    qed
  qed
qed

section \<open>The prompt loop\<close>

lemma prompts_loop_Cons:
  "prompts_loop e c API UI token encodedModels (p # rest) (promptsCreated, promptsSkipped) =
      (if \<not> exists_sync e (prompt_file e c p) then
        andThen (warn (Prompt_file_not_found (prompt_file e c p))) (\<lambda>_.
        prompts_loop e c API UI token encodedModels rest (promptsCreated, promptsSkipped))
      else
        andThen (bullet (Text (''Prompt: '' @ fst p))) (\<lambda>_.
        andThen (exists e (prompt_url API (fst p)) token) (\<lambda>promptExists.
        if promptExists then
          andThen (ok (Prompt_exists (fst p))) (\<lambda>_.
          prompts_loop e c API UI token encodedModels rest (promptsCreated, promptsSkipped + 1))
        else
          andThen (of_result (readText e (prompt_file e c p))) (\<lambda>promptBodyText.
          andThen (http e c ''POST'' (prompt_post_url API encodedModels p)
                     token (Some (TextBody promptBodyText)) ExpectText [200, 204]) (\<lambda>_.
          andThen (if \<not> PLAN c then ok (Created_prompt (fst p))
                   else plan (Would_create_prompt (fst p))) (\<lambda>_.
          andThen (bullet (Text (''UI: '' @ UI @ ''/ai_prompts/'' @ encodeURIComponent (fst p)))) (\<lambda>_.
          prompts_loop e c API UI token encodedModels rest (promptsCreated + 1, promptsSkipped))))))))"
  by (cases p) (simp only: prompts_loop.simps prompt_file_def prompt_url_def prompt_post_url_def Let_def
      fst_conv snd_conv append_assoc)

lemma not_allow_prompt_post [simp]:
  "CHR ''/'' \<notin> set em \<Longrightarrow> \<not> allowInPlan ''POST'' (prompt_post_url API em p)"
  unfolding prompt_post_url_def prompt_url_def
  using not_allow_prompt [of em "API @ ''/prompts/'' @ encodeURIComponent (fst p) @ ''?description='' @
        encodeURIComponent (''Auto-registered from '' @ snd p)"]
  by (simp only: append_assoc) blast

lemma prompt_post_url_ne_token [simp]: "prompt_post_url API em p \<noteq> API @ ''/token''"
  by (simp add: prompt_post_url_def prompt_url_def)

lemma prompts_loop_ok:
  assumes "prompts_loop e c API UI token em ps (cr, sk) w = (Inr (cr', sk'), w')"
    and em: "CHR ''/'' \<notin> set em"
  defines "ds \<equiv> filter (\<lambda>p. exists_sync e (prompt_file e c p)) ps"
  shows "cr' = cr + length (filter (\<lambda>p. \<not> prompt_has e API token p) ds) \<and>
         sk' = sk + length (filter (prompt_has e API token) ds) \<and>
         existing_of Prompt w' = existing_of Prompt w @ map fst (filter (prompt_has e API token) ds) \<and>
         missing_of Prompt w' = missing_of Prompt w @ map fst (filter (\<lambda>p. \<not> prompt_has e API token p) ds) \<and>
         created API w' = created API w @
           (if PLAN c then []
            else map (prompt_post e c API token em) (filter (\<lambda>p. \<not> prompt_has e API token p) ds))"
  using assms(1) unfolding ds_def
proof (induction ps arbitrary: cr sk w)
  case Nil
  then show ?case by (simp add: ret_def)
next
  case (Cons p ps)
  note eq = Cons.prems [unfolded prompts_loop_Cons]
  show ?case
  proof (cases "exists_sync e (prompt_file e c p)")
    case False
    with eq have "prompts_loop e c API UI token em ps (cr, sk)
        (printed [(LWarn, Prompt_file_not_found (prompt_file e c p))] w) = (Inr (cr', sk'), w')"
      by (simp add: warn_def)
    from Cons.IH [OF this] False show ?thesis
      by (simp add: List.map_filter_simps existing_line_def missing_line_def)
  next
    case hasfile: True
    show ?thesis
    proof (cases "prompt_has e API token p")
      case True
      with eq hasfile have "\<exists>w1. prompts_loop e c API UI token em ps (cr, sk + 1) w1 = (Inr (cr', sk'), w')
          \<and> existing_of Prompt w1 = existing_of Prompt w @ [fst p]
          \<and> missing_of Prompt w1 = missing_of Prompt w
          \<and> created API w1 = created API w"
        apply (simp add: console_defs prompt_has_def)
        apply (rule exI, rule conjI, assumption)
        apply (simp add: List.map_filter_simps existing_line_def missing_line_def)
        done
      then obtain w1 where w1: "prompts_loop e c API UI token em ps (cr, sk + 1) w1 = (Inr (cr', sk'), w')"
          "existing_of Prompt w1 = existing_of Prompt w @ [fst p]"
          "missing_of Prompt w1 = missing_of Prompt w"
          "created API w1 = created API w" by blast
      from Cons.IH [OF w1(1)] w1(2-) hasfile True show ?thesis
        by simp
    next
      case False
      have "\<exists>w1. prompts_loop e c API UI token em ps (cr + 1, sk) w1 = (Inr (cr', sk'), w')
          \<and> existing_of Prompt w1 = existing_of Prompt w
          \<and> missing_of Prompt w1 = missing_of Prompt w @ [fst p]
          \<and> created API w1 = created API w @ (if PLAN c then [] else [prompt_post e c API token em p])"
      proof (cases "read_file_sync e (prompt_file e c p)")
        case None
        with eq hasfile False show ?thesis
          by (simp add: console_defs prompt_has_def readText_def throw_def)
      next
        case (Some content)
        show ?thesis
        proof (cases "PLAN c")
          case True
          with eq hasfile False Some em show ?thesis
            apply (simp add: console_defs prompt_has_def readText_def andThen_http)
            apply (rule exI, rule conjI, assumption)
            apply (simp add: List.map_filter_simps existing_line_def missing_line_def)
            done
        next
          case noplan: False
          with eq hasfile False Some show ?thesis
            apply (cases "http_outcome e (prompt_post e c API token em p) ExpectText [200, 204]")
             apply (simp_all add: console_defs prompt_has_def readText_def andThen_http prompt_post_def)
            apply (rule exI, rule conjI, assumption)
            apply (simp add: List.map_filter_simps existing_line_def missing_line_def)
            done
        qed
      qed
      then obtain w1 where w1: "prompts_loop e c API UI token em ps (cr + 1, sk) w1 = (Inr (cr', sk'), w')"
          "existing_of Prompt w1 = existing_of Prompt w"
          "missing_of Prompt w1 = missing_of Prompt w @ [fst p]"
          "created API w1 = created API w @ (if PLAN c then [] else [prompt_post e c API token em p])" by blast
      from Cons.IH [OF w1(1)] w1(2-) hasfile False show ?thesis
        by simp
    qed
  qed
qed

section \<open>The model loop\<close>

lemma existsGet_eq:
  "existsGet e c u token w =
     (if PLAN c then (Inr False, w)
      else (case net e (get_request u token) of
              NetErr \<Rightarrow> (Inl (NetworkError (get_request u token)), sent [get_request u token] w)
            | Resp status text \<Rightarrow> (Inr (remote_has e u token), sent [get_request u token] w)))"
  by (simp add: existsGet_def fetch_def get_request_def remote_has_def sent_def Let_def
      split: response.splits)

lemma models_loop_Cons:
  "models_loop e c API integ token (modelName # rest) (modelsAdded, modelsSkipped) =
      andThen (existsGet e c (model_url API integ modelName) token) (\<lambda>modelExists.
      if \<not> modelExists then
        (if PLAN c then
           andThen (plan (Would_enable_model modelName)) (\<lambda>_.
           models_loop e c API integ token rest (modelsAdded, modelsSkipped))
         else
           andThen (http e c ''POST'' (model_url API integ modelName) token
                      (Some (JsonBody (JObj [(''configuration'', JObj []),
                                             (''description'', JStr (modelName @ '' from OpenAI'')),
                                             (''enabled'', JBool True)])))
                      ExpectText [200, 201, 204]) (\<lambda>_.
           models_loop e c API integ token rest (modelsAdded + 1, modelsSkipped)))
      else models_loop e c API integ token rest (modelsAdded, modelsSkipped + 1))"
  by (simp only: models_loop.simps model_url_def Let_def)

lemma models_loop_plan:
  assumes "PLAN c"
  shows "models_loop e c API integ token ms (a, s) w =
         (Inr (a, s), printed (map (\<lambda>m. (LPlan, Would_enable_model m)) ms) w)"
proof (induction ms arbitrary: w)
  case Nil
  then show ?case by (simp add: ret_def printed_def)
next
  case (Cons m ms)
  show ?case
    unfolding models_loop_Cons using assms
    by (simp add: andThen_def existsGet_eq plan_def say_eq Cons.IH printed_def)
qed

lemma models_loop_ok:
  assumes "models_loop e c API integ token ms (a, s) w = (Inr (a', s'), w')" and "\<not> PLAN c"
  shows "a' = a + length (filter (\<lambda>m. \<not> model_has e API integ token m) ms) \<and>
         s' = s + length (filter (model_has e API integ token) ms) \<and>
         out w' = out w \<and>
         created API w' = created API w @
           map (model_post API integ token) (filter (\<lambda>m. \<not> model_has e API integ token m) ms)"
  using assms(1)
proof (induction ms arbitrary: a s w)
  case Nil
  then show ?case by (simp add: ret_def)
next
  case (Cons m ms)
  note eq = Cons.prems [unfolded models_loop_Cons]
  show ?case
  proof (cases "net e (get_request (model_url API integ m) token)")
    case NetErr
    with eq assms(2) show ?thesis by (simp add: andThen_def existsGet_eq)
  next
    case (Resp st content)
    show ?thesis
    proof (cases "model_has e API integ token m")
      case True
      with eq assms(2) Resp
      have "models_loop e c API integ token ms (a, s + 1)
              (sent [get_request (model_url API integ m) token] w) = (Inr (a', s'), w')"
        by (simp add: andThen_def existsGet_eq model_has_def)
      from Cons.IH [OF this] True show ?thesis by simp
    next
      case False
      from eq assms(2) Resp False
      have "models_loop e c API integ token ms (a + 1, s)
              (sent [model_post API integ token m]
                (sent [get_request (model_url API integ m) token] w)) = (Inr (a', s'), w')"
        by (cases "http_outcome e (model_post API integ token m) ExpectText [200, 201, 204]")
          (simp_all add: andThen_def existsGet_eq model_has_def http_eq model_post_def)
      from Cons.IH [OF this] False show ?thesis
        by (simp add: model_post_def model_url_def allowInPlan_def)
    qed
  qed
qed

section \<open>What each pass reports\<close>

lemma count_sent [simp]:
  "would_create_count k (sent rs w) = would_create_count k w"
  "created_count k (sent rs w) = created_count k w"
  by (simp_all add: would_create_count_def created_count_def)

lemma count_printed [simp]:
  "would_create_count k (printed ls w) = would_create_count k w @ List.map_filter (would_create_line k) ls"
  "created_count k (printed ls w) = created_count k w @ List.map_filter (created_line k) ls"
  by (simp_all add: would_create_count_def created_count_def map_filter_append)

lemma andThen_assoc: "andThen (andThen m k) h = andThen m (\<lambda>x. andThen (k x) h)"
  by (rule ext) (simp add: andThen_def split: prod.splits sum.splits)

lemma printed_printed: "printed b (printed a w) = printed (a @ b) w"
  by (simp add: printed_def)

lemma bullets_eq: "bullets ts w = (Inr (), printed (map (\<lambda>t. (LBullet, Text t)) ts) w)"
proof (induction ts arbitrary: w)
  case Nil
  then show ?case by (simp add: ret_def printed_def)
next
  case (Cons t ts)
  then show ?case by (simp add: bullet_def printed_printed)
qed

lemma andThen_bullets [simp]:
  "andThen (bullets ts) k w = k () (printed (map (\<lambda>t. (LBullet, Text t)) ts) w)"
  by (simp add: andThen_def bullets_eq)

lemma andThen_taskdefs_loop [simp]:
  "andThen (taskdefs_loop e API token userInfo names acc) k w =
     k (acc @ map (task_record userInfo) (filter (\<lambda>n. \<not> taskdef_has e API token n) names))
       (printed (map (\<lambda>n. if taskdef_has e API token n
                         then (LOk, TaskDef_exists n) else (LWarn, TaskDef_missing n)) names)
        (sent (map (\<lambda>n. get_request (taskdef_url API n) token) names) w))"
  by (simp add: andThen_def taskdefs_loop_eq)

lemma taskdefs_section_eq:
  "taskdefs_section e c API UI token userInfo w =
     (let missing = filter (\<lambda>n. \<not> taskdef_has e API token n) WORKER_TASKS;
          records = map (task_record userInfo) missing;
          w1 = taskdefs_checked e API token w
      in if missing = [] then
           (Inr (), printed [(LOk, TaskDefs_all_exist), (LBullet, Text (''UI: '' @ UI @ ''/taskDef''))] w1)
         else if PLAN c then
           (Inr (), printed [(LPlan, Suppressed ''POST'' (API @ ''/metadata/taskdefs'')),
                             (LPlan, Would_register_taskdefs (length missing)),
                             (LBullet, Text (''UI: '' @ UI @ ''/taskDef''))] w1)
         else
           (case http_outcome e (taskdefs_post API token records) ExpectText [200, 204] of
              Inl err \<Rightarrow> (Inl err, sent [taskdefs_post API token records] w1)
            | Inr v \<Rightarrow>
                (Inr (), printed [(LOk, Registered_taskdefs (length missing)),
                                  (LBullet, Text (''UI: '' @ UI @ ''/taskDef''))]
                           (sent [taskdefs_post API token records] w1))))"
  by (simp add: taskdefs_section_def taskdefs_checked_def Let_def console_defs andThen_http say_eq
      taskdefs_post_def andThen_assoc split: sum.splits)

lemma missing_taskdef_lines:
  "List.map_filter (missing_line Taskdef)
     (map (\<lambda>n. if P n then (LOk, TaskDef_exists n) else (LWarn, TaskDef_missing n)) names) =
   filter (\<lambda>n. \<not> P n) names"
  by (induction names) (simp_all add: List.map_filter_simps missing_line_def)

lemma existing_taskdef_lines:
  "List.map_filter (existing_line Taskdef)
     (map (\<lambda>n. if P n then (LOk, TaskDef_exists n) else (LWarn, TaskDef_missing n)) names) =
   filter P names"
  by (induction names) (simp_all add: List.map_filter_simps existing_line_def)

lemma other_lines_bullets [simp]:
  "List.map_filter (missing_line k) (map (\<lambda>t. (LBullet, Text t)) ts) = []"
  "List.map_filter (existing_line k) (map (\<lambda>t. (LBullet, Text t)) ts) = []"
  "List.map_filter (would_create_line k) (map (\<lambda>t. (LBullet, Text t)) ts) = []"
  "List.map_filter (created_line k) (map (\<lambda>t. (LBullet, Text t)) ts) = []"
  by (induction ts) (simp_all add: List.map_filter_simps missing_line_def existing_line_def
      would_create_line_def created_line_def)

lemma taskdefs_checked_obs:
  "missing_of Taskdef (taskdefs_checked e API token w) =
     missing_of Taskdef w @ filter (\<lambda>n. \<not> taskdef_has e API token n) WORKER_TASKS"
  "existing_of Taskdef (taskdefs_checked e API token w) =
     existing_of Taskdef w @ filter (taskdef_has e API token) WORKER_TASKS"
  "created API (taskdefs_checked e API token w) = created API w"
  by (simp_all add: taskdefs_checked_def missing_taskdef_lines existing_taskdef_lines
      List.map_filter_simps missing_line_def existing_line_def filter_map comp_def)

lemma not_count_simps [simp]:
  "\<not> is_count (lv, Text t)" "\<not> is_count (lv, Suppressed m u)"
  "\<not> is_count (lv, Would_enable_model n)"
  "\<not> is_count (lv, TaskDef_exists n)" "\<not> is_count (lv, TaskDef_missing n)"
  "\<not> is_count (lv, Skipping_form n)" "\<not> is_count (lv, Form_exists n)"
  "\<not> is_count (lv, Created_form n)" "\<not> is_count (lv, Would_create_form n)"
  "\<not> is_count (lv, Prompt_file_not_found n)" "\<not> is_count (lv, Prompt_exists n)"
  "\<not> is_count (lv, Created_prompt n)" "\<not> is_count (lv, Would_create_prompt n)"
  "\<not> is_count (lv, Skipping_workflow n)" "\<not> is_count (lv, Workflow_exists n)"
  "\<not> is_count (lv, Created_workflow n)" "\<not> is_count (lv, Would_create_workflow n)"
  by (simp_all add: is_count_def would_create_line_def created_line_def)

lemma only_prints_ret [intro!, simp]: "only_prints P (ret x)"
  by (simp add: only_prints_def ret_def)

lemma only_prints_throw [intro!, simp]: "only_prints P (throw err)"
  by (simp add: only_prints_def throw_def)

lemma only_prints_of_result [intro!, simp]: "only_prints P (of_result r)"
  by (simp add: only_prints_def of_result_def)

lemma only_prints_say [intro!]: "P (lv, m) \<Longrightarrow> only_prints P (say lv m)"
  by (simp add: only_prints_def say_def)

lemma only_prints_andThen [intro!]:
  assumes "only_prints P m" and "\<And>x. only_prints P (k x)"
  shows "only_prints P (andThen m k)"
  unfolding only_prints_def
proof
  fix w
  obtain ls where ls: "out (snd (m w)) = out w @ ls" "list_all P ls"
    using assms(1) unfolding only_prints_def by blast
  show "\<exists>ls. out (snd (andThen m k w)) = out w @ ls \<and> list_all P ls"
  proof (cases "m w")
    case (Pair r w')
    show ?thesis
    proof (cases r)
      case (Inl err)
      with Pair ls show ?thesis by (auto simp: andThen_def)
    next
      case (Inr x)
      obtain ls' where ls': "out (snd (k x w')) = out w' @ ls'" "list_all P ls'"
        using assms(2) unfolding only_prints_def by blast
      with Pair Inr ls show ?thesis by (auto simp: andThen_def)
    qed
  qed
qed

lemma only_prints_exists [intro!, simp]: "only_prints P (exists e u token)"
  by (simp add: only_prints_def exists_eq)

lemma only_prints_http [intro!]:
  "P (LPlan, Suppressed m u) \<Longrightarrow> only_prints P (http e c m u token b ex oks)"
  by (auto simp: only_prints_def http_eq)

lemma only_prints_existsGet [intro!, simp]: "only_prints P (existsGet e c u token)"
  by (auto simp: only_prints_def existsGet_eq split: response.splits)

lemma only_prints_if [intro!]:
  "(b \<Longrightarrow> only_prints P f) \<Longrightarrow> (\<not> b \<Longrightarrow> only_prints P g) \<Longrightarrow> only_prints P (if b then f else g)"
  by simp

lemma only_prints_case_option [intro!]:
  "(x = None \<Longrightarrow> only_prints P f) \<Longrightarrow> (\<And>y. x = Some y \<Longrightarrow> only_prints P (g y)) \<Longrightarrow>
   only_prints P (case x of None \<Rightarrow> f | Some y \<Rightarrow> g y)"
  by (cases x) simp_all

lemma no_count_models_loop:
  "only_prints (\<lambda>l. \<not> is_count l) (models_loop e c API integ token ms acc)"
  by (induction ms arbitrary: acc; cases acc) (auto simp: Let_def console_defs)

lemma no_count_forms_loop:
  "only_prints (\<lambda>l. \<not> is_count l) (forms_loop e c API token ex fs acc)"
  by (induction fs arbitrary: acc; cases acc) (auto simp: console_defs)

lemma no_count_prompts_loop:
  "only_prints (\<lambda>l. \<not> is_count l) (prompts_loop e c API UI token em ps acc)"
proof (induction ps arbitrary: acc)
  case Nil
  then show ?case by (cases acc) auto
next
  case (Cons p ps)
  then show ?case by (cases acc; cases p) (auto simp: Let_def console_defs)
qed

lemma no_count_workflows_loop:
  "only_prints (\<lambda>l. \<not> is_count l) (workflows_loop e c API UI token pos fs acc)"
  by (induction fs arbitrary: acc; cases acc) (auto simp: Let_def console_defs)

lemma no_count_frame:
  assumes "only_prints (\<lambda>l. \<not> is_count l) f" and "f w = (r, w')"
  shows "would_create_count k w' = would_create_count k w \<and> created_count k w' = created_count k w"
proof -
  from assms obtain ls where ls: "out w' = out w @ ls" "list_all (\<lambda>l. \<not> is_count l) ls"
    unfolding only_prints_def by (metis snd_conv)
  have "List.map_filter (would_create_line k) ls = [] \<and> List.map_filter (created_line k) ls = []"
    using ls(2) by (induction ls) (auto simp: List.map_filter_simps is_count_def)
  with ls(1) show ?thesis
    by (simp add: would_create_count_def created_count_def map_filter_append)
qed

lemma andThen_Inr:
  assumes "andThen m k w = (Inr y, w')"
  obtains x w1 where "m w = (Inr x, w1)" "k x w1 = (Inr y, w')"
  using assms by (auto simp: andThen_def split: prod.splits sum.splits)

lemma listHumanTemplates_Inr:
  assumes "listHumanTemplates e API token w = (Inr data, w')"
  shows "template_names data = remote_form_names e API token \<and>
         w' = sent [get_request (API @ ''/human/template'') token] w"
  using assms
  by (auto simp: listHumanTemplates_def fetch_def remote_form_names_def get_request_def sent_def
      Let_def template_names_def List.map_filter_simps
      split: response.splits if_splits option.splits json.splits)

lemma forms_section_ok:
  assumes run: "forms_section e c API UI token w = (Inr (), w')"
    and dir: "exists_sync e (FORMS_DIR c)" and files: "form_files e c \<noteq> []"
  defines "ds \<equiv> List.map_filter (\<lambda>f. descriptor e (form_path e c f)) (form_files e c)"
  defines "has \<equiv> form_has (remote_form_names e API token)"
  shows "existing_of Form w' = existing_of Form w @ map fst (filter has ds) \<and>
         missing_of Form w' = missing_of Form w @ map fst (filter (\<lambda>d. \<not> has d) ds) \<and>
         invalid_of Form w' =
           invalid_of Form w @ filter (\<lambda>f. nameless e (form_path e c f)) (form_files e c) \<and>
         created API w' =
           created API w @
           (if PLAN c then [] else map (form_post API token) (filter (\<lambda>d. \<not> has d) ds)) \<and>
         would_create_count Form w' =
           would_create_count Form w @
           (if PLAN c then [length (filter (\<lambda>d. \<not> has d) ds)] else []) \<and>
         created_count Form w' =
           created_count Form w @
           (if PLAN c then [] else [length (filter (\<lambda>d. \<not> has d) ds)])"
proof -
  from files obtain names where names: "readdir_sync e (FORMS_DIR c) = Some names"
    and fs: "form_files e c = filter (suffix ''.json'') names"
    by (auto simp: form_files_def split: option.splits)
  let ?w0 = "printed [(LSection, Text ''Human Task Forms'')] w"
  let ?tail = "\<lambda>(formsCreated, formsSkipped).
            if \<not> PLAN c then
              andThen (ok (Forms_created formsCreated)) (\<lambda>_. ok (Forms_skipped formsSkipped))
            else plan (Forms_plan formsCreated formsSkipped)"
  from run dir names fs files
  have "andThen (andThen (listHumanTemplates e API token) (\<lambda>existingTemplates.
            andThen (forms_loop e c API token (template_names existingTemplates) (form_files e c) (0, 0))
              ?tail))
          (\<lambda>_. bullet (Text (''UI hint: '' @ UI @ ''/humanTask''))) ?w0 = (Inr (), w')"
    by (simp add: forms_section_def section_line_def)
  then obtain w4 where
    a: "andThen (listHumanTemplates e API token) (\<lambda>existingTemplates.
            andThen (forms_loop e c API token (template_names existingTemplates) (form_files e c) (0, 0))
              ?tail) ?w0 = (Inr (), w4)"
    and b: "bullet (Text (''UI hint: '' @ UI @ ''/humanTask'')) w4 = (Inr (), w')"
    by (rule andThen_Inr) auto
  from a obtain data w1 where
    l: "listHumanTemplates e API token ?w0 = (Inr data, w1)"
    and c: "andThen (forms_loop e c API token (template_names data) (form_files e c) (0, 0)) ?tail w1
            = (Inr (), w4)"
    by (rule andThen_Inr) auto
  from c obtain r w3 where
    lp: "forms_loop e c API token (template_names data) (form_files e c) (0, 0) w1 = (Inr r, w3)"
    and t: "?tail r w3 = (Inr (), w4)"
    by (rule andThen_Inr) auto
  obtain cr sk where r: "r = (cr, sk)" by (cases r)
  note tn = listHumanTemplates_Inr [OF l]
  note loop = forms_loop_ok [OF lp [unfolded r], unfolded tn [THEN conjunct1]]
  note frame = no_count_frame [OF no_count_forms_loop lp, of Form]
  from t r have w4: "w4 = (if PLAN c then printed [(LPlan, Forms_plan cr sk)] w3
                          else printed [(LOk, Forms_skipped sk)] (printed [(LOk, Forms_created cr)] w3))"
    by (auto simp: console_defs say_eq split: if_splits)
  from b have w': "w' = printed [(LBullet, Text (''UI hint: '' @ UI @ ''/humanTask''))] w4"
    by (simp add: bullet_def say_eq)
  show ?thesis
    unfolding w' w4 ds_def has_def using loop tn frame
    by (simp add: List.map_filter_simps existing_line_def missing_line_def invalid_line_def
        would_create_line_def created_line_def)
qed

lemma prompts_section_ok:
  assumes run: "prompts_section e c API UI token w = (Inr (), w')"
  defines "ds \<equiv> filter (\<lambda>p. exists_sync e (prompt_file e c p)) REQUIRED_PROMPTS"
  defines "has \<equiv> prompt_has e API token"
  shows "existing_of Prompt w' = existing_of Prompt w @ map fst (filter has ds) \<and>
         missing_of Prompt w' = missing_of Prompt w @ map fst (filter (\<lambda>p. \<not> has p) ds) \<and>
         created API w' =
           created API w @
           (if PLAN c then []
            else map (prompt_post e c API token (prompt_models e)) (filter (\<lambda>p. \<not> has p) ds)) \<and>
         would_create_count Prompt w' =
           would_create_count Prompt w @
           (if PLAN c then [length (filter (\<lambda>p. \<not> has p) ds)] else []) \<and>
         created_count Prompt w' =
           created_count Prompt w @
           (if PLAN c then [] else [length (filter (\<lambda>p. \<not> has p) ds)])"
proof -
  let ?w0 = "printed [(LBullet, Text (''Model association: '' @
        (case penv e ''PROMPT_MODEL_ASSOCIATION'' of None \<Rightarrow> ''openai:gpt-4o-mini'' | Some a \<Rightarrow> a)))]
      (printed [(LSection, Text ''AI Prompts'')] w)"
  let ?tail = "\<lambda>(promptsCreated, promptsSkipped).
     if \<not> PLAN c then
       andThen (ok (Prompts_created promptsCreated)) (\<lambda>_. ok (Prompts_skipped promptsSkipped))
     else plan (Prompts_plan promptsCreated promptsSkipped)"
  from run have "andThen (prompts_loop e c API UI token (prompt_models e) REQUIRED_PROMPTS (0, 0))
      ?tail ?w0 = (Inr (), w')"
    by (simp add: prompts_section_def section_line_def bullet_def Let_def prompt_models_def)
  then obtain r w3 where
    lp: "prompts_loop e c API UI token (prompt_models e) REQUIRED_PROMPTS (0, 0) ?w0 = (Inr r, w3)"
    and t: "?tail r w3 = (Inr (), w')"
    by (rule andThen_Inr) auto
  obtain cr sk where r: "r = (cr, sk)" by (cases r)
  have em: "CHR ''/'' \<notin> set (prompt_models e)"
    by (simp add: prompt_models_def encodeURIComponent_no_slash)
  note loop = prompts_loop_ok [OF lp [unfolded r] em]
  note frame = no_count_frame [OF no_count_prompts_loop lp, of Prompt]
  from t r have w': "w' = (if PLAN c then printed [(LPlan, Prompts_plan cr sk)] w3
                          else printed [(LOk, Prompts_skipped sk)] (printed [(LOk, Prompts_created cr)] w3))"
    by (auto simp: console_defs say_eq split: if_splits)
  show ?thesis
    unfolding w' ds_def has_def using loop frame
    by (simp add: List.map_filter_simps existing_line_def missing_line_def
        would_create_line_def created_line_def)
qed

lemma workflows_section_ok:
  assumes run: "workflows_section e c API UI token w = (Inr (), w')"
  defines "pos \<equiv> positionalJson (argv e) \<noteq> None"
  defines "ds \<equiv> List.map_filter (\<lambda>f. descriptor e (wf_path e c pos f)) (wf_files e c)"
  defines "has \<equiv> wf_has e API token"
  shows "existing_of Workflow w' = existing_of Workflow w @ map fst (filter has ds) \<and>
         missing_of Workflow w' = missing_of Workflow w @ map fst (filter (\<lambda>d. \<not> has d) ds) \<and>
         invalid_of Workflow w' =
           invalid_of Workflow w @ filter (\<lambda>f. nameless e (wf_path e c pos f)) (wf_files e c) \<and>
         created API w' =
           created API w @
           (if PLAN c then [] else map (wf_post API token) (filter (\<lambda>d. \<not> has d) ds)) \<and>
         would_create_count Workflow w' =
           would_create_count Workflow w @
           (if PLAN c then [length (filter (\<lambda>d. \<not> has d) ds)] else []) \<and>
         created_count Workflow w' =
           created_count Workflow w @
           (if PLAN c then [] else [length (filter (\<lambda>d. \<not> has d) ds)])"
proof -
  let ?w0 = "printed [(LSection, Text ''Workflows'')] w"
  let ?tail = "\<lambda>(workflowsCreated, workflowsSkipped).
       if \<not> PLAN c then
         andThen (ok (Workflows_created workflowsCreated)) (\<lambda>_.
         ok (Workflows_skipped workflowsSkipped))
       else plan (Workflows_plan workflowsCreated workflowsSkipped)"
  have dir: "exists_sync e (WORKFLOWS_DIR c)"
    using run by (auto simp: workflows_section_def section_line_def throw_def split: if_splits)
  define R where "R = (case positionalJson (argv e) of
            Some p \<Rightarrow> Inr [p]
          | None \<Rightarrow>
              (case readdir_sync e (WORKFLOWS_DIR c) of
                 None \<Rightarrow> Inl (FsError (WORKFLOWS_DIR c))
               | Some names \<Rightarrow> Inr (filter (suffix ''.json'') names)))"
  have step: "(case positionalJson (argv e) of
            Some p \<Rightarrow> ret [p]
          | None \<Rightarrow>
              of_result (case readdir_sync e (WORKFLOWS_DIR c) of
                           None \<Rightarrow> Inl (FsError (WORKFLOWS_DIR c))
                         | Some names \<Rightarrow> Inr (filter (suffix ''.json'') names))) = of_result R"
    unfolding R_def by (auto simp: ret_def of_result_def split: option.splits intro!: ext)
  from run dir
  have all: "andThen (of_result R) (\<lambda>workflowFiles.
       andThen (workflows_loop e c API UI token pos workflowFiles (0, 0)) ?tail) ?w0 = (Inr (), w')"
    by (simp add: workflows_section_def section_line_def pos_def step)
  then have R: "R = Inr (wf_files e c)"
    unfolding R_def by (cases R) (auto simp: throw_def wf_files_def R_def split: option.splits)
  from all
  have "andThen (workflows_loop e c API UI token pos (wf_files e c) (0, 0)) ?tail ?w0 = (Inr (), w')"
    unfolding R by simp
  then obtain r w3 where
    lp: "workflows_loop e c API UI token pos (wf_files e c) (0, 0) ?w0 = (Inr r, w3)"
    and t: "?tail r w3 = (Inr (), w')"
    by (rule andThen_Inr) auto
  obtain cr sk where r: "r = (cr, sk)" by (cases r)
  note loop = workflows_loop_ok [OF lp [unfolded r]]
  note frame = no_count_frame [OF no_count_workflows_loop lp, of Workflow]
  from t r have w': "w' = (if PLAN c then printed [(LPlan, Workflows_plan cr sk)] w3
                          else printed [(LOk, Workflows_skipped sk)] (printed [(LOk, Workflows_created cr)] w3))"
    by (auto simp: console_defs say_eq split: if_splits)
  show ?thesis
    unfolding w' ds_def has_def using loop frame
    by (simp add: List.map_filter_simps existing_line_def missing_line_def invalid_line_def
        would_create_line_def created_line_def)
qed

section \<open>Passes that run to their end\<close>

lemma accepts_outcome: "accepts e oks rq \<Longrightarrow> \<exists>v. http_outcome e rq ex oks = Inr v"
  by (auto simp: accepts_def http_outcome_def split: response.splits)

lemma named_not_null: "doc \<noteq> JNull \<Longrightarrow> \<exists>v. named doc = Inr v"
  by (simp add: named_def)

lemma forms_loop_succeeds:
  assumes "\<forall>f\<in>set files. readable e (form_path e c f)"
    and "PLAN c \<or> (\<forall>d\<in>set (List.map_filter (\<lambda>f. descriptor e (form_path e c f)) files).
                     \<not> form_has ex d \<longrightarrow> accepts e [200, 204] (form_post API token d))"
  shows "\<exists>r w'. forms_loop e c API token ex files acc w = (Inr r, w')"
  using assms
proof (induction files arbitrary: acc w)
  case Nil
  then show ?case by (cases acc) (simp add: ret_def)
next
  case (Cons f files)
  obtain cr sk where acc: "acc = (cr, sk)" by (cases acc)
  from Cons.prems(1) have rest: "\<forall>f\<in>set files. readable e (form_path e c f)" by simp
  have rest2: "PLAN c \<or> (\<forall>d\<in>set (List.map_filter (\<lambda>f. descriptor e (form_path e c f)) files).
                     \<not> form_has ex d \<longrightarrow> accepts e [200, 204] (form_post API token d))"
    using Cons.prems(2) by (auto simp: List.map_filter_simps split: option.splits)
  note IH = Cons.IH [OF rest rest2]
  from Cons.prems(1) obtain doc where doc: "readJson e (form_path e c f) = Inr doc" "doc \<noteq> JNull"
    by (auto simp: readable_def split: sum.splits)
  then obtain v where v: "named doc = Inr v" using named_not_null by blast
  show ?case
  proof (cases v)
    case None
    with doc v IH show ?thesis
      unfolding acc forms_loop_Cons by (simp add: warn_def)
  next
    case (Some n)
    have d: "descriptor e (form_path e c f) = Some (js_string n, doc)"
      using doc v Some by (simp add: descriptor_def)
    have h: "form_has ex (js_string n, doc) = list_ex (same_value n) ex"
      using named_Some [OF v [unfolded Some]] by (simp add: form_has_def)
    show ?thesis
    proof (cases "list_ex (same_value n) ex")
      case True
      with doc v Some IH show ?thesis
        unfolding acc forms_loop_Cons by (simp add: console_defs)
    next
      case False
      show ?thesis
      proof (cases "PLAN c")
        case True
        with False doc v Some IH show ?thesis
          unfolding acc forms_loop_Cons by (simp add: console_defs andThen_http)
      next
        case noplan: False
        with Cons.prems(2) d h False have "accepts e [200, 204] (form_post API token (js_string n, doc))"
          by (simp add: List.map_filter_simps)
        then obtain r where "http_outcome e (form_post API token (js_string n, doc)) ExpectText [200, 204] = Inr r"
          using accepts_outcome by blast
        with noplan False doc v Some IH show ?thesis
          unfolding acc forms_loop_Cons by (simp add: console_defs andThen_http form_post_def)
      qed
    qed
  qed
qed

lemma workflows_loop_succeeds:
  assumes "\<forall>f\<in>set files. readable e (wf_path e c pos f)"
    and "PLAN c \<or> (\<forall>d\<in>set (List.map_filter (\<lambda>f. descriptor e (wf_path e c pos f)) files).
                     \<not> wf_has e API token d \<longrightarrow> accepts e [200, 204] (wf_post API token d))"
  shows "\<exists>r w'. workflows_loop e c API UI token pos files acc w = (Inr r, w')"
  using assms
proof (induction files arbitrary: acc w)
  case Nil
  then show ?case by (cases acc) (simp add: ret_def)
next
  case (Cons f files)
  obtain cr sk where acc: "acc = (cr, sk)" by (cases acc)
  from Cons.prems(1) have rest: "\<forall>f\<in>set files. readable e (wf_path e c pos f)" by simp
  have rest2: "PLAN c \<or> (\<forall>d\<in>set (List.map_filter (\<lambda>f. descriptor e (wf_path e c pos f)) files).
                     \<not> wf_has e API token d \<longrightarrow> accepts e [200, 204] (wf_post API token d))"
    using Cons.prems(2) by (auto simp: List.map_filter_simps split: option.splits)
  note IH = Cons.IH [OF rest rest2]
  from Cons.prems(1) obtain doc where doc: "readJson e (wf_path e c pos f) = Inr doc" "doc \<noteq> JNull"
    by (auto simp: readable_def split: sum.splits)
  then obtain v where v: "named doc = Inr v" using named_not_null by blast
  show ?case
  proof (cases v)
    case None
    with doc v IH show ?thesis
      unfolding acc workflows_loop_Cons by (simp add: warn_def)
  next
    case (Some n)
    have d: "descriptor e (wf_path e c pos f) = Some (js_string n, doc)"
      using doc v Some by (simp add: descriptor_def)
    show ?thesis
    proof (cases "remote_has e (wf_url API (js_string n)) token")
      case True
      with doc v Some IH show ?thesis
        unfolding acc workflows_loop_Cons by (simp add: console_defs)
    next
      case False
      show ?thesis
      proof (cases "PLAN c")
        case True
        with False doc v Some IH show ?thesis
          unfolding acc workflows_loop_Cons by (simp add: console_defs andThen_http)
      next
        case noplan: False
        with Cons.prems(2) d False have "accepts e [200, 204] (wf_post API token (js_string n, doc))"
          by (simp add: List.map_filter_simps wf_has_def)
        then obtain r where "http_outcome e (wf_post API token (js_string n, doc)) ExpectText [200, 204] = Inr r"
          using accepts_outcome by blast
        with noplan False doc v Some IH show ?thesis
          unfolding acc workflows_loop_Cons by (simp add: console_defs andThen_http wf_post_def)
      qed
    qed
  qed
qed

lemma prompts_loop_succeeds:
  assumes "\<forall>p\<in>set ps. exists_sync e (prompt_file e c p) \<longrightarrow> \<not> prompt_has e API token p \<longrightarrow>
             read_file_sync e (prompt_file e c p) \<noteq> None \<and>
             (PLAN c \<or> accepts e [200, 204] (prompt_post e c API token em p))"
    and em: "CHR ''/'' \<notin> set em"
  shows "\<exists>r w'. prompts_loop e c API UI token em ps acc w = (Inr r, w')"
  using assms(1)
proof (induction ps arbitrary: acc w)
  case Nil
  then show ?case by (cases acc) (simp add: ret_def)
next
  case (Cons p ps)
  obtain cr sk where acc: "acc = (cr, sk)" by (cases acc)
  from Cons.prems have rest: "\<forall>p\<in>set ps. exists_sync e (prompt_file e c p) \<longrightarrow> \<not> prompt_has e API token p \<longrightarrow>
             read_file_sync e (prompt_file e c p) \<noteq> None \<and>
             (PLAN c \<or> accepts e [200, 204] (prompt_post e c API token em p))" by simp
  note IH = Cons.IH [OF rest]
  show ?case
  proof (cases "exists_sync e (prompt_file e c p)")
    case False
    with IH show ?thesis unfolding acc prompts_loop_Cons by (simp add: warn_def)
  next
    case hasfile: True
    show ?thesis
    proof (cases "prompt_has e API token p")
      case True
      with hasfile IH show ?thesis
        unfolding acc prompts_loop_Cons by (simp add: console_defs prompt_has_def)
    next
      case False
      with Cons.prems hasfile obtain content where
        content: "read_file_sync e (prompt_file e c p) = Some content"
        and post: "PLAN c \<or> accepts e [200, 204] (prompt_post e c API token em p)"
        by auto
      show ?thesis
      proof (cases "PLAN c")
        case True
        with False hasfile content em IH show ?thesis
          unfolding acc prompts_loop_Cons
          by (simp add: console_defs prompt_has_def readText_def andThen_http)
      next
        case noplan: False
        with post obtain r where
          "http_outcome e (prompt_post e c API token em p) ExpectText [200, 204] = Inr r"
          using accepts_outcome by blast
        with noplan False hasfile content IH show ?thesis
          unfolding acc prompts_loop_Cons
          by (simp add: console_defs prompt_has_def readText_def andThen_http prompt_post_def)
      qed
    qed
  qed
qed

lemma models_loop_succeeds:
  assumes "\<forall>m\<in>set ms. net e (get_request (model_url API integ m) token) \<noteq> NetErr \<and>
             (\<not> model_has e API integ token m \<longrightarrow>
              accepts e [200, 201, 204] (model_post API integ token m))"
    and "\<not> PLAN c"
  shows "\<exists>r w'. models_loop e c API integ token ms acc w = (Inr r, w')"
  using assms(1)
proof (induction ms arbitrary: acc w)
  case Nil
  then show ?case by (cases acc) (simp add: ret_def)
next
  case (Cons m ms)
  obtain a s where acc: "acc = (a, s)" by (cases acc)
  from Cons.prems have rest: "\<forall>m\<in>set ms. net e (get_request (model_url API integ m) token) \<noteq> NetErr \<and>
             (\<not> model_has e API integ token m \<longrightarrow>
              accepts e [200, 201, 204] (model_post API integ token m))" by simp
  note IH = Cons.IH [OF rest]
  from Cons.prems obtain st content where
    get: "net e (get_request (model_url API integ m) token) = Resp st content"
    by (cases "net e (get_request (model_url API integ m) token)") auto
  show ?case
  proof (cases "model_has e API integ token m")
    case True
    with get assms(2) IH show ?thesis
      unfolding acc models_loop_Cons by (simp add: andThen_def existsGet_eq model_has_def)
  next
    case False
    with Cons.prems obtain r where
      "http_outcome e (model_post API integ token m) ExpectText [200, 201, 204] = Inr r"
      using accepts_outcome by fastforce
    with False get assms(2) IH show ?thesis
      unfolding acc models_loop_Cons
      by (simp add: andThen_def existsGet_eq model_has_def http_eq model_post_def)
  qed
qed

lemma andThen_InrI:
  "m w = (Inr x, w1) \<Longrightarrow> k x w1 = (Inr y, w2) \<Longrightarrow> andThen m k w = (Inr y, w2)"
  by (simp add: andThen_def)

lemma listHumanTemplates_succeeds:
  assumes "net e (get_request (API @ ''/human/template'') token) \<noteq> NetErr"
  shows "\<exists>data. listHumanTemplates e API token w =
           (Inr data, sent [get_request (API @ ''/human/template'') token] w)"
  using assms
  by (auto simp: listHumanTemplates_def fetch_def get_request_def sent_def Let_def
      split: response.splits option.splits json.splits)

lemma summary_succeeds:
  "\<exists>w'. (if \<not> PLAN c then andThen (ok a) (\<lambda>_. ok b) else plan d) w = (Inr (), w')"
  by (simp add: console_defs say_eq)

lemma forms_section_succeeds:
  assumes "forms_ready e c API token"
  shows "\<exists>w'. forms_section e c API UI token w = (Inr (), w')"
proof -
  from assms have dir: "exists_sync e (FORMS_DIR c)" and files: "form_files e c \<noteq> []"
    and tpl: "net e (get_request (API @ ''/human/template'') token) \<noteq> NetErr"
    and rd: "\<forall>f\<in>set (form_files e c). readable e (form_path e c f)"
    and posts: "PLAN c \<or>
       (\<forall>d\<in>set (List.map_filter (\<lambda>f. descriptor e (form_path e c f)) (form_files e c)).
          \<not> form_has (remote_form_names e API token) d \<longrightarrow>
          accepts e [200, 204] (form_post API token d))"
    by (auto simp: forms_ready_def list_all_iff)
  from files obtain names where names: "readdir_sync e (FORMS_DIR c) = Some names"
    and fs: "form_files e c = filter (suffix ''.json'') names"
    by (auto simp: form_files_def split: option.splits)
  let ?w0 = "printed [(LSection, Text ''Human Task Forms'')] w"
  obtain data where l: "listHumanTemplates e API token ?w0 =
      (Inr data, sent [get_request (API @ ''/human/template'') token] ?w0)"
    using listHumanTemplates_succeeds [OF tpl] by blast
  note tn = listHumanTemplates_Inr [OF l, THEN conjunct1]
  obtain r w3 where lp: "forms_loop e c API token (template_names data) (form_files e c) (0, 0)
      (sent [get_request (API @ ''/human/template'') token] ?w0) = (Inr r, w3)"
    using forms_loop_succeeds [OF rd posts [folded tn]] by blast
  obtain cr sk where r: "r = (cr, sk)" by (cases r)
  obtain w4 where t: "(if \<not> PLAN c then andThen (ok (Forms_created cr)) (\<lambda>_. ok (Forms_skipped sk))
       else plan (Forms_plan cr sk)) w3 = (Inr (), w4)"
    using summary_succeeds by blast
  let ?tail = "\<lambda>(formsCreated, formsSkipped).
            if \<not> PLAN c then
              andThen (ok (Forms_created formsCreated)) (\<lambda>_. ok (Forms_skipped formsSkipped))
            else plan (Forms_plan formsCreated formsSkipped)"
  have eq: "forms_section e c API UI token w =
        andThen (andThen (listHumanTemplates e API token) (\<lambda>existingTemplates.
            andThen (forms_loop e c API token (template_names existingTemplates) (form_files e c) (0, 0))
              ?tail))
          (\<lambda>_. bullet (Text (''UI hint: '' @ UI @ ''/humanTask''))) ?w0"
    using dir names fs files by (simp add: forms_section_def section_line_def)
  have inner: "andThen (listHumanTemplates e API token) (\<lambda>existingTemplates.
            andThen (forms_loop e c API token (template_names existingTemplates) (form_files e c) (0, 0))
              ?tail) ?w0 = (Inr (), w4)"
    using t l lp by (simp add: andThen_def r)
  show ?thesis
    unfolding eq using inner by (simp add: andThen_def bullet_def say_eq)
qed

lemma prompts_section_succeeds:
  assumes "prompts_ready e c API token"
  shows "\<exists>w'. prompts_section e c API UI token w = (Inr (), w')"
proof -
  let ?w0 = "printed [(LBullet, Text (''Model association: '' @
        (case penv e ''PROMPT_MODEL_ASSOCIATION'' of None \<Rightarrow> ''openai:gpt-4o-mini'' | Some a \<Rightarrow> a)))]
      (printed [(LSection, Text ''AI Prompts'')] w)"
  let ?tail = "\<lambda>(promptsCreated, promptsSkipped).
     if \<not> PLAN c then
       andThen (ok (Prompts_created promptsCreated)) (\<lambda>_. ok (Prompts_skipped promptsSkipped))
     else plan (Prompts_plan promptsCreated promptsSkipped)"
  have eq: "prompts_section e c API UI token w =
      andThen (prompts_loop e c API UI token (prompt_models e) REQUIRED_PROMPTS (0, 0)) ?tail ?w0"
    by (simp add: prompts_section_def section_line_def bullet_def Let_def prompt_models_def)
  have em: "CHR ''/'' \<notin> set (prompt_models e)"
    by (simp add: prompt_models_def encodeURIComponent_no_slash)
  from assms have "\<forall>p\<in>set REQUIRED_PROMPTS. exists_sync e (prompt_file e c p) \<longrightarrow> \<not> prompt_has e API token p \<longrightarrow>
             read_file_sync e (prompt_file e c p) \<noteq> None \<and>
             (PLAN c \<or> accepts e [200, 204] (prompt_post e c API token (prompt_models e) p))"
    by (auto simp: prompts_ready_def list_all_iff)
  from prompts_loop_succeeds [OF this em]
  obtain r w3 where lp: "prompts_loop e c API UI token (prompt_models e) REQUIRED_PROMPTS (0, 0) ?w0
      = (Inr r, w3)" by blast
  obtain cr sk where r: "r = (cr, sk)" by (cases r)
  obtain w4 where t: "(if \<not> PLAN c then andThen (ok (Prompts_created cr)) (\<lambda>_. ok (Prompts_skipped sk))
       else plan (Prompts_plan cr sk)) w3 = (Inr (), w4)"
    using summary_succeeds by blast
  show ?thesis
    unfolding eq using t lp by (simp add: andThen_def r)
qed

lemma workflows_section_succeeds:
  assumes "workflows_ready e c API token"
  shows "\<exists>w'. workflows_section e c API UI token w = (Inr (), w')"
proof -
  let ?pos = "positionalJson (argv e) \<noteq> None"
  let ?w0 = "printed [(LSection, Text ''Workflows'')] w"
  let ?tail = "\<lambda>(workflowsCreated, workflowsSkipped).
       if \<not> PLAN c then
         andThen (ok (Workflows_created workflowsCreated)) (\<lambda>_.
         ok (Workflows_skipped workflowsSkipped))
       else plan (Workflows_plan workflowsCreated workflowsSkipped)"
  from assms have dir: "exists_sync e (WORKFLOWS_DIR c)"
    and ls: "positionalJson (argv e) \<noteq> None \<or> readdir_sync e (WORKFLOWS_DIR c) \<noteq> None"
    and rd: "\<forall>f\<in>set (wf_files e c). readable e (wf_path e c ?pos f)"
    and posts: "PLAN c \<or>
       (\<forall>d\<in>set (List.map_filter (\<lambda>f. descriptor e (wf_path e c ?pos f)) (wf_files e c)).
          \<not> wf_has e API token d \<longrightarrow> accepts e [200, 204] (wf_post API token d))"
    by (auto simp: workflows_ready_def list_all_iff)
  have step: "(case positionalJson (argv e) of
            Some p \<Rightarrow> ret [p]
          | None \<Rightarrow>
              of_result (case readdir_sync e (WORKFLOWS_DIR c) of
                           None \<Rightarrow> Inl (FsError (WORKFLOWS_DIR c))
                         | Some names \<Rightarrow> Inr (filter (suffix ''.json'') names))) =
        of_result (Inr (wf_files e c))"
    using ls by (auto simp: ret_def of_result_def wf_files_def split: option.splits intro!: ext)
  have eq: "workflows_section e c API UI token w =
      andThen (workflows_loop e c API UI token ?pos (wf_files e c) (0, 0)) ?tail ?w0"
    using dir by (simp add: workflows_section_def section_line_def step)
  from workflows_loop_succeeds [OF rd posts]
  obtain r w3 where lp: "workflows_loop e c API UI token ?pos (wf_files e c) (0, 0) ?w0 = (Inr r, w3)"
    by blast
  obtain cr sk where r: "r = (cr, sk)" by (cases r)
  obtain w4 where t: "(if \<not> PLAN c then andThen (ok (Workflows_created cr)) (\<lambda>_. ok (Workflows_skipped sk))
       else plan (Workflows_plan cr sk)) w3 = (Inr (), w4)"
    using summary_succeeds by blast
  show ?thesis
    unfolding eq using t lp by (simp add: andThen_def r)
qed

section \<open>A failed POST ends the run\<close>

lemma ends_well_Nil [simp]: "ends_well e [] r"
  by (simp add: ends_well_def split: sum.splits)

lemma ends_well_Inr [simp]: "ends_well e rs (Inr x) = list_all (\<lambda>rq. \<not> failed_post e rq) rs"
  by (simp add: ends_well_def)

lemma ends_well_Inl:
  "ends_well e rs (Inl err) =
     (list_all (\<lambda>rq. \<not> failed_post e rq) rs \<or>
      (\<exists>rs' rq. rs = rs' @ [rq] \<and> list_all (\<lambda>rq. \<not> failed_post e rq) rs' \<and>
                err = error_of e rq))"
  by (simp add: ends_well_def)

lemma ends_well_append:
  assumes "list_all (\<lambda>rq. \<not> failed_post e rq) rs" and "ends_well e rs2 r"
  shows "ends_well e (rs @ rs2) r"
proof (cases r)
  case (Inr x)
  with assms show ?thesis by simp
next
  case (Inl err)
  with assms(2) have "list_all (\<lambda>rq. \<not> failed_post e rq) rs2 \<or>
      (\<exists>rs' rq. rs2 = rs' @ [rq] \<and> list_all (\<lambda>rq. \<not> failed_post e rq) rs' \<and> err = error_of e rq)"
    by (simp add: ends_well_def)
  then show ?thesis
  proof
    assume "list_all (\<lambda>rq. \<not> failed_post e rq) rs2"
    with assms(1) Inl show ?thesis by (simp add: ends_well_def)
  next
    assume "\<exists>rs' rq. rs2 = rs' @ [rq] \<and> list_all (\<lambda>rq. \<not> failed_post e rq) rs' \<and> err = error_of e rq"
    then obtain rs' rq where a: "rs2 = rs' @ [rq]" "list_all (\<lambda>rq. \<not> failed_post e rq) rs'"
      "err = error_of e rq" by blast
    have "rs @ rs2 = (rs @ rs') @ [rq]" using a(1) by simp
    moreover have "list_all (\<lambda>rq. \<not> failed_post e rq) (rs @ rs')" using assms(1) a(2) by simp
    ultimately have "\<exists>rs'' rq'. rs @ rs2 = rs'' @ [rq'] \<and>
        list_all (\<lambda>rq. \<not> failed_post e rq) rs'' \<and> err = error_of e rq'"
      using a(3) by blast
    then show ?thesis by (simp add: Inl ends_well_def)
  qed
qed

lemma stops_ret [intro!, simp]: "stops_at_failure e (ret x)"
  by (simp add: stops_at_failure_def ret_def)

lemma stops_throw [intro!, simp]: "stops_at_failure e (throw err)"
  by (simp add: stops_at_failure_def throw_def)

lemma stops_of_result [intro!, simp]: "stops_at_failure e (of_result r)"
  by (cases r) (simp_all add: stops_at_failure_def of_result_def)

lemma stops_say [intro!, simp]: "stops_at_failure e (say lv m)"
  by (simp add: stops_at_failure_def say_def)

lemma stops_console [intro!, simp]:
  "stops_at_failure e (header m)" "stops_at_failure e (section_line m)" "stops_at_failure e (bullet m)"
  "stops_at_failure e (ok m)" "stops_at_failure e (info m)" "stops_at_failure e (warn m)"
  "stops_at_failure e (plan m)"
  by (simp_all add: console_defs)

lemma stops_andThen [intro!]:
  assumes "stops_at_failure e m" and "\<And>x. stops_at_failure e (k x)"
  shows "stops_at_failure e (andThen m k)"
  unfolding stops_at_failure_def
proof (intro allI impI)
  fix w r w'
  assume run: "andThen m k w = (r, w')"
  obtain r1 w1 where mw: "m w = (r1, w1)" by (cases "m w")
  from assms(1) mw obtain rs where rs: "trace w1 = trace w @ rs" "ends_well e rs r1"
    unfolding stops_at_failure_def by blast
  show "\<exists>rs. trace w' = trace w @ rs \<and> ends_well e rs r"
  proof (cases r1)
    case (Inl err)
    with run mw have "r = Inl err" "w' = w1" by (simp_all add: andThen_def)
    with rs Inl show ?thesis by (intro exI [of _ rs]) (simp add: ends_well_Inl)
  next
    case (Inr x)
    with run mw have kw: "k x w1 = (r, w')" by (simp add: andThen_def)
    from assms(2) [of x] kw obtain rs2 where rs2: "trace w' = trace w1 @ rs2" "ends_well e rs2 r"
      unfolding stops_at_failure_def by blast
    from rs(2) Inr have "list_all (\<lambda>rq. \<not> failed_post e rq) rs" by simp
    from ends_well_append [OF this rs2(2)] rs(1) rs2(1) show ?thesis
      by (intro exI [of _ "rs @ rs2"]) simp
  qed
qed

lemma stops_exists [intro!, simp]: "stops_at_failure e (exists e u token)"
  by (auto simp: stops_at_failure_def exists_eq failed_post_def get_request_def)

lemma stops_existsGet [intro!, simp]: "stops_at_failure e (existsGet e c u token)"
  by (auto simp: stops_at_failure_def existsGet_eq failed_post_def get_request_def ends_well_Inl
      split: response.splits if_splits)

lemma stops_listHumanTemplates [intro!, simp]: "stops_at_failure e (listHumanTemplates e API token)"
  by (auto simp: stops_at_failure_def listHumanTemplates_def fetch_def failed_post_def Let_def
      ends_well_Inl split: response.splits option.splits json.splits if_splits)

lemma stops_http [intro!]:
  "list_all res_ok oks \<Longrightarrow> stops_at_failure e (http e c m u token b ex oks)"
  by (auto simp: stops_at_failure_def http_eq http_outcome_def failed_post_def failed_def
      error_of_def http_request_def list_all_iff ends_well_Inl split: response.splits if_splits)

lemma stops_userInfo [intro!]:
  "stops_at_failure e (\<lambda>w. case http e c ''GET'' u token b ex oks w of
        (Inl err, w') \<Rightarrow> (Inr d, w') | (Inr v, w') \<Rightarrow> (Inr v, w'))"
  by (auto simp: stops_at_failure_def http_eq failed_post_def http_request_def
      split: sum.splits if_splits)

lemma stops_if [intro!]:
  "(b \<Longrightarrow> stops_at_failure e f) \<Longrightarrow> (\<not> b \<Longrightarrow> stops_at_failure e g) \<Longrightarrow>
   stops_at_failure e (if b then f else g)"
  by simp

lemma stops_case_option [intro!]:
  "(x = None \<Longrightarrow> stops_at_failure e f) \<Longrightarrow> (\<And>y. x = Some y \<Longrightarrow> stops_at_failure e (g y)) \<Longrightarrow>
   stops_at_failure e (case x of None \<Rightarrow> f | Some y \<Rightarrow> g y)"
  by (cases x) simp_all

lemma stops_case_prod [intro!]:
  "(\<And>a b. p = (a, b) \<Longrightarrow> stops_at_failure e (f a b)) \<Longrightarrow>
   stops_at_failure e (case p of (a, b) \<Rightarrow> f a b)"
  by (cases p) simp

lemma res_ok_codes [simp]: "res_ok 200" "res_ok 201" "res_ok 204"
  by (simp_all add: res_ok_def)

lemma stops_bullets [intro!]: "stops_at_failure e (bullets ts)"
  by (induction ts) auto

lemma stops_taskdefs_loop [intro!]:
  "stops_at_failure e (taskdefs_loop e API token userInfo names acc)"
  by (induction names arbitrary: acc) auto

lemma stops_models_loop [intro!]:
  "stops_at_failure e (models_loop e c API integ token ms acc)"
  by (induction ms arbitrary: acc; cases acc) (auto simp: Let_def)

lemma stops_forms_loop [intro!]:
  "stops_at_failure e (forms_loop e c API token ex fs acc)"
  by (induction fs arbitrary: acc; cases acc) auto

lemma stops_prompts_loop [intro!]:
  "stops_at_failure e (prompts_loop e c API UI token em ps acc)"
proof (induction ps arbitrary: acc)
  case Nil
  then show ?case by (cases acc) auto
next
  case (Cons p ps)
  then show ?case by (cases acc; cases p) (auto simp: Let_def)
qed

lemma stops_workflows_loop [intro!]:
  "stops_at_failure e (workflows_loop e c API UI token pos fs acc)"
  by (induction fs arbitrary: acc; cases acc) (auto simp: Let_def)

lemma stops_auth [intro!]: "stops_at_failure e (auth_section e c API)"
  unfolding auth_section_def by (auto split: option.splits)

lemma stops_openai [intro!]: "stops_at_failure e (openai_section e c API UI token)"
  unfolding openai_section_def by (auto simp: Let_def)

lemma stops_taskdefs [intro!]: "stops_at_failure e (taskdefs_section e c API UI token ui)"
  unfolding taskdefs_section_def by auto

lemma stops_forms [intro!]: "stops_at_failure e (forms_section e c API UI token)"
  unfolding forms_section_def by auto

lemma stops_prompts [intro!]: "stops_at_failure e (prompts_section e c API UI token)"
  unfolding prompts_section_def by (auto simp: Let_def)

lemma stops_workflows [intro!]: "stops_at_failure e (workflows_section e c API UI token)"
  unfolding workflows_section_def by (auto simp: Let_def)



section \<open>Authentication, the OpenAI pass and absent directories\<close>

lemma printed_sent: "printed ls (sent rs w) = sent rs (printed ls w)"
  by (simp add: printed_def sent_def)

lemma sent_sent: "sent b (sent a w) = sent (a @ b) w"
  by (simp add: sent_def)

lemmas world_norm = printed_sent sent_sent printed_printed

lemma sent_printed_init: "sent rs (printed ls \<lparr>trace = [], out = []\<rparr>) = \<lparr>trace = rs, out = ls\<rparr>"
  by (simp add: sent_def printed_def)

lemma andThen_catch:
  "andThen (\<lambda>w. case f w of (Inl err, w') \<Rightarrow> (Inr d, w') | (Inr v, w') \<Rightarrow> (Inr v, w')) k w =
     (case f w of (Inl err, w') \<Rightarrow> k d w' | (Inr v, w') \<Rightarrow> k v w')"
  by (simp add: andThen_def split: prod.splits sum.splits)

lemma andThen_step [simp]: "andThen (\<lambda>w. (Inr x, g w)) k w = k x (g w)"
  by (simp add: andThen_def)

lemma auth_with_token:
  assumes "nonempty (penv e ''CONDUCTOR_ACCESS_TOKEN'') = Some t"
  shows "auth_section e c API w =
     (case http_outcome e (http_request ''GET'' (API @ ''/version'') None None) ExpectText [200] of
        Inl err \<Rightarrow>
          (Inl err,
           sent [http_request ''GET'' (API @ ''/version'') None None]
             (printed [(LSection, Text ''Authentication''),
                       (LOk, Text ''Using CONDUCTOR_ACCESS_TOKEN''),
                       (LInfo, Text ''Checking server connectivity'')] w))
      | Inr v \<Rightarrow>
          (Inr (Some (JStr t), user_info e API (Some (JStr t))),
           sent [http_request ''GET'' (API @ ''/version'') None None,
                 http_request ''GET'' (API @ ''/token/userInfo'') (Some (JStr t)) None]
             (printed [(LSection, Text ''Authentication''),
                       (LOk, Text ''Using CONDUCTOR_ACCESS_TOKEN''),
                       (LInfo, Text ''Checking server connectivity''),
                       (LOk, Text ''Server reachable''),
                       (LOk, Text (''Authenticated as: '' @ who (user_info e API (Some (JStr t)))))] w)))"
  using assms
  by (simp add: auth_section_def andThen_assoc console_defs andThen_http andThen_catch http_eq
      user_info_def who_def ret_def world_norm split: sum.splits)

lemma openai_section_skipped:
  "NO_OPENAI c \<Longrightarrow>
   openai_section e c API UI token w =
     (Inr (), printed [(LSection, Text ''OpenAI Integration (idempotent)''),
                       (LWarn, Text ''Skipping OpenAI integration step (--no-openai).'')] w)"
  by (simp add: openai_section_def console_defs say_eq world_norm)



lemma openai_section_plan:
  assumes "PLAN c" and "\<not> NO_OPENAI c" and "mustEnv e [''OPENAI_API_KEY''] = Inr key"
  shows "openai_section e c API UI token w =
     (Inr (),
      printed ([(LSection, Text ''OpenAI Integration (idempotent)''),
                (LBullet, Text (''Integration name: '' @ openai_name e)),
                (LBullet, Text (''Models: '' @ join '', '' (openai_models e))),
                (LPlan, Would_create_integration (openai_name e))] @
               map (\<lambda>m. (LPlan, Would_enable_model m)) (openai_models e) @
               [(LInfo, Plan_no_changes),
                (LBullet, Text (''UI: '' @ UI @ ''/integrations/'' @ openai_name e @ ''/integration''))]) w)"
  using assms
  by (simp add: openai_section_def Let_def console_defs andThen_assoc andThen_def [of "existsGet _ _ _ _"]
      andThen_def [of "models_loop _ _ _ _ _ _ _"]
      existsGet_eq models_loop_plan say_eq openai_name_def openai_models_def world_norm)

lemma obs_same_out:
  assumes "out w' = out w"
  shows "existing_of k w' = existing_of k w" "missing_of k w' = missing_of k w"
    "would_create_count k w' = would_create_count k w" "created_count k w' = created_count k w"
  using assms by (simp_all add: existing_of_def missing_of_def would_create_count_def created_count_def)

lemma integ_url_ne_token [simp]: "integ_url API name \<noteq> API @ ''/token''"
  by (simp add: integ_url_def)

lemma openai_section_apply:
  assumes ready: "openai_ready e c API token key" and noplan: "\<not> PLAN c"
  defines "name \<equiv> openai_name e"
  defines "has \<equiv> remote_has e (integ_url API name) token"
  defines "missing \<equiv> filter (\<lambda>m. \<not> model_has e API name token m) (openai_models e)"
  shows "\<exists>w'. openai_section e c API UI token w = (Inr (), w') \<and>
           existing_of Integration w' = existing_of Integration w @ (if has then [name] else []) \<and>
           missing_of Integration w' = missing_of Integration w @ (if has then [] else [name]) \<and>
           missing_of Model w' = missing_of Model w \<and>
           created_count Model w' = created_count Model w @ [length missing] \<and>
           created API w' =
             created API w @ (if has then [] else [integ_post API token name key]) @
             map (model_post API name token) missing"
proof -
  from ready have no: "\<not> NO_OPENAI c" and key: "mustEnv e [''OPENAI_API_KEY''] = Inr key"
    and get: "net e (get_request (integ_url API name) token) \<noteq> NetErr"
    and post: "has \<or> accepts e [200, 201, 204] (integ_post API token name key)"
    and models: "\<forall>m\<in>set (openai_models e).
        net e (get_request (model_url API name m) token) \<noteq> NetErr \<and>
        (\<not> model_has e API name token m \<longrightarrow>
         accepts e [200, 201, 204] (model_post API name token m))"
    by (auto simp: openai_ready_def name_def has_def list_all_iff)
  let ?w1 = "sent [get_request (integ_url API name) token]
      (printed [(LSection, Text ''OpenAI Integration (idempotent)''),
                (LBullet, Text (''Integration name: '' @ name)),
                (LBullet, Text (''Models: '' @ join '', '' (openai_models e)))] w)"
  let ?w2 = "if has then printed [(LOk, Integration_exists name)] ?w1
             else printed [(LOk, Created_integration name)] (sent [integ_post API token name key] ?w1)"
  let ?tail = "\<lambda>(modelsAdded, modelsSkipped).
        andThen
          (if \<not> PLAN c then
             andThen (ok (Models_added modelsAdded)) (\<lambda>_. ok (Models_present modelsSkipped))
           else info Plan_no_changes) (\<lambda>_.
        bullet (Text (''UI: '' @ UI @ ''/integrations/'' @ name @ ''/integration'')))"
  from get obtain st content where resp: "net e (get_request (integ_url API name) token) = Resp st content"
    by (cases "net e (get_request (integ_url API name) token)") auto
  have outcome: "\<not> has \<Longrightarrow> \<exists>v. http_outcome e (integ_post API token name key) ExpectText [200, 201, 204] = Inr v"
    using post accepts_outcome by blast
  have eq: "openai_section e c API UI token w =
      andThen (models_loop e c API name token (openai_models e) (0, 0)) ?tail ?w2"
  proof (cases has)
    case True
    with no key noplan resp show ?thesis
      by (simp add: openai_section_def Let_def console_defs andThen_assoc
          andThen_def [of "existsGet _ _ _ _"] existsGet_eq name_def has_def openai_name_def
          openai_models_def integ_url_def world_norm)
  next
    case False
    with outcome obtain v where
      "http_outcome e (integ_post API token name key) ExpectText [200, 201, 204] = Inr v" by blast
    with False no key noplan resp show ?thesis
      by (simp add: openai_section_def Let_def console_defs andThen_assoc
          andThen_def [of "existsGet _ _ _ _"] existsGet_eq name_def has_def openai_name_def
          openai_models_def integ_url_def andThen_http integ_post_def world_norm)
  qed
  from models_loop_succeeds [OF models noplan]
  obtain r w3 where lp: "models_loop e c API name token (openai_models e) (0, 0) ?w2 = (Inr r, w3)"
    by blast
  obtain a s where r: "r = (a, s)" by (cases r)
  note loop = models_loop_ok [OF lp [unfolded r] noplan]
  note same = obs_same_out [OF loop [THEN conjunct2, THEN conjunct2, THEN conjunct1]]
  let ?w' = "printed [(LBullet, Text (''UI: '' @ UI @ ''/integrations/'' @ name @ ''/integration''))]
      (printed [(LOk, Models_present s)] (printed [(LOk, Models_added a)] w3))"
  have res: "openai_section e c API UI token w = (Inr (), ?w')"
    unfolding eq using lp noplan by (simp add: andThen_def r console_defs say_eq)
  show ?thesis
    unfolding res using loop same
    by (intro exI [of _ ?w'])
      (simp add: List.map_filter_simps existing_line_def missing_line_def created_line_def
        missing_def integ_post_def)
qed

section \<open>The test environments, evaluated\<close>

lemma flags_demo [simp]: "flags [''node'', ''setup.mjs''] = apply_cfg"
  by (simp add: flags_def argHas_def argValue_def apply_cfg_def)

lemma demo_fields [simp]:
  "argv demo = [''node'', ''setup.mjs'']"
  "argv demo_down = [''node'', ''setup.mjs'']"
  "argv demo_nodir = [''node'', ''setup.mjs'']"
  "penv demo_down = penv demo" "penv demo_nodir = penv demo"
  "exists_sync demo p" "exists_sync demo_down p" "\<not> exists_sync demo_nodir p"
  by (simp_all add: demo_def demo_down_def demo_nodir_def)

lemma demo_api [simp]: "normalizeBaseApiUrl (penv demo) = demo_api"
  by (simp add: normalizeBaseApiUrl_def demo_def nonempty_def demo_api_def)

lemma demo_access [simp]: "nonempty (penv demo ''CONDUCTOR_ACCESS_TOKEN'') = Some ''t''"
  by (simp add: demo_def nonempty_def)

lemma demo_key [simp]: "mustEnv demo [''OPENAI_API_KEY''] = Inr ''k''"
  "mustEnv demo_down [''OPENAI_API_KEY''] = Inr ''k''"
  by (simp_all add: mustEnv_def demo_def demo_down_def List.map_filter_simps)

lemma cfg_fields [simp]:
  "\<not> PLAN apply_cfg" "\<not> NO_OPENAI apply_cfg" "WORKFLOWS_DIR apply_cfg = ''./workflows''"
  "FORMS_DIR apply_cfg = ''./forms''" "PROMPTS_DIR apply_cfg = ''./workflows/prompts''"
  by (simp_all add: apply_cfg_def)

lemma down_version [simp]:
  "http_outcome demo_down (http_request ''GET'' (demo_api @ ''/version'') None None) ExpectText [200]
     = Inr (JStr [])"
  by (simp add: http_outcome_def http_request_def demo_down_def demo_def reply_of_def demo_api_def
      suffix_to_prefix)

lemma down_user_info [simp]: "user_info demo_down demo_api demo_token = JObj []"
  by (simp add: user_info_def http_outcome_def http_request_def demo_down_def demo_def reply_of_def
      demo_api_def suffix_to_prefix)

lemma down_integ [simp]:
  "net demo_down (get_request (integ_url demo_api ''openai'') demo_token) = NetErr"
  by (simp add: get_request_def demo_down_def demo_def integ_url_def demo_api_def suffix_to_prefix)

lemma down_name [simp]: "openai_name demo_down = ''openai''"
  by (simp add: openai_name_def demo_def)

lemma ui_demo [simp]: "uiBaseFromApi demo_api = ''https://developer.orkescloud.com''"
  by (simp add: uiBaseFromApi_def strip_api_def demo_api_def suffix_to_prefix)

section \<open>C8: the defaults of a task definition\<close>

text \<open>
  C8. The loop over the worker tasks returns one record for each task whose existence
  check fails, in order, and every record carries \<^verbatim>\<open>retryCount = 2\<close>,
  \<^verbatim>\<open>timeoutSeconds = 300\<close>, \<^verbatim>\<open>responseTimeoutSeconds = 300\<close> and as
  \<^verbatim>\<open>ownerEmail\<close> the \<^verbatim>\<open>id\<close> of the user info, or \<^verbatim>\<open>"unknown"\<close> when that
  \<^verbatim>\<open>id\<close> is absent or \<^verbatim>\<open>null\<close>.
\<close>

theorem C8_taskdef_defaults:
  "\<exists>records.
     fst (taskdefs_loop e API token userInfo names [] w) = Inr records \<and>
     map (field ''name'') records =
       map (\<lambda>n. Some (JStr n)) (filter (\<lambda>n. \<not> taskdef_has e API token n) names) \<and>
     list_all
       (\<lambda>d. field ''retryCount'' d = Some (JNum ''2'') \<and>
            field ''timeoutSeconds'' d = Some (JNum ''300'') \<and>
            field ''responseTimeoutSeconds'' d = Some (JNum ''300'') \<and>
            field ''ownerEmail'' d =
              Some (case field ''id'' userInfo of
                      None \<Rightarrow> JStr ''unknown''
                    | Some JNull \<Rightarrow> JStr ''unknown''
                    | Some v \<Rightarrow> v))
       records"
  by (simp add: taskdefs_loop_eq list_all_iff task_record_def field_def comp_def)

section \<open>C2: failures of an existence check\<close>

text \<open>
  The check \<^verbatim>\<open>exists\<close>, used for task definitions, prompts and workflows, never throws:
  a rejected request and a status that is not 2xx both give \<open>False\<close>.
\<close>

lemma exists_never_throws:
  "\<exists>b. fst (exists e u token w) = Inr b \<and> (failed e (get_request u token) \<longrightarrow> \<not> b)"
  by (auto simp: exists_eq remote_has_def failed_def split: response.splits)

lemma openai_section_down:
  assumes "\<not> PLAN c" and "\<not> NO_OPENAI c" and "mustEnv e [''OPENAI_API_KEY''] = Inr key"
    and "net e (get_request (integ_url API (openai_name e)) token) = NetErr"
  shows "openai_section e c API UI token w =
     (Inl (NetworkError (get_request (integ_url API (openai_name e)) token)),
      sent [get_request (integ_url API (openai_name e)) token]
        (printed [(LSection, Text ''OpenAI Integration (idempotent)''),
                  (LBullet, Text (''Integration name: '' @ openai_name e)),
                  (LBullet, Text (''Models: '' @ join '', '' (openai_models e)))] w))"
  using assms
  by (simp add: openai_section_def Let_def console_defs andThen_assoc
      andThen_def [of "existsGet _ _ _ _"] existsGet_eq openai_name_def
      openai_models_def integ_url_def world_norm)

lemma main_stops_in_openai:
  assumes "auth_section e (flags (argv e)) (normalizeBaseApiUrl (penv e))
             (printed [(LHeader, Text ''Orkes Healthcare Relocation Setup''),
                       (LBullet, Text (''Mode: '' @ (if PLAN (flags (argv e)) then ''PLAN (no changes)'' else ''APPLY''))),
                       (LBullet, Text (''Orkes API: '' @ normalizeBaseApiUrl (penv e))),
                       (LBullet, Text (''Orkes UI : '' @ uiBaseFromApi (normalizeBaseApiUrl (penv e))))] w)
           = (Inr (token, ui), w2)"
    and "openai_section e (flags (argv e)) (normalizeBaseApiUrl (penv e))
           (uiBaseFromApi (normalizeBaseApiUrl (penv e))) token w2 = (Inl err, w3)"
  shows "main e w = (Inl err, w3)"
  using assms
  by (simp add: main_def Let_def console_defs andThen_assoc world_norm andThen_def [of "auth_section _ _ _"]
      andThen_def [of "openai_section _ _ _ _ _"])

text \<open>
  C2 says that no existence check of any resource kind propagates a failure. The check of
  the OpenAI integration, \<^verbatim>\<open>existsGet\<close>, has no \<^verbatim>\<open>try\<close>: in the run \<open>demo_down\<close> the
  request for the integration is rejected by the network, \<^verbatim>\<open>existsGet\<close> throws, and the
  run ends with status 1 after three requests, without treating the integration as missing.
\<close>

theorem C2_existence_check_failure_propagates:
  "existsGet demo_down (flags (argv demo_down)) (integ_url demo_api ''openai'') demo_token init =
     (Inl (NetworkError (get_request (integ_url demo_api ''openai'') demo_token)),
      sent [get_request (integ_url demo_api ''openai'') demo_token] init) \<and>
   fst (run demo_down) = 1 \<and>
   trace (snd (run demo_down)) =
     [http_request ''GET'' (demo_api @ ''/version'') None None,
      http_request ''GET'' (demo_api @ ''/token/userInfo'') demo_token None,
      get_request (integ_url demo_api ''openai'') demo_token] \<and>
   last (out (snd (run demo_down))) =
     (LError, Failure (NetworkError (get_request (integ_url demo_api ''openai'') demo_token)))"
proof -
  let ?w1 = "printed [(LHeader, Text ''Orkes Healthcare Relocation Setup''),
                       (LBullet, Text (''Mode: '' @ (if PLAN (flags (argv demo_down)) then ''PLAN (no changes)'' else ''APPLY''))),
                       (LBullet, Text (''Orkes API: '' @ normalizeBaseApiUrl (penv demo_down))),
                       (LBullet, Text (''Orkes UI : '' @ uiBaseFromApi (normalizeBaseApiUrl (penv demo_down))))]
              \<lparr>trace = [], out = []\<rparr>"
  obtain w2 where a: "auth_section demo_down (flags (argv demo_down)) (normalizeBaseApiUrl (penv demo_down)) ?w1
      = (Inr (demo_token, JObj []), w2)"
    and t2: "trace w2 = [http_request ''GET'' (demo_api @ ''/version'') None None,
      http_request ''GET'' (demo_api @ ''/token/userInfo'') demo_token None]"
    by (simp add: auth_with_token [where t = "''t''"] demo_token_def [symmetric])
  have b: "openai_section demo_down (flags (argv demo_down)) (normalizeBaseApiUrl (penv demo_down))
      (uiBaseFromApi (normalizeBaseApiUrl (penv demo_down))) demo_token w2 =
     (Inl (NetworkError (get_request (integ_url demo_api ''openai'') demo_token)),
      sent [get_request (integ_url demo_api ''openai'') demo_token]
        (printed [(LSection, Text ''OpenAI Integration (idempotent)''),
                  (LBullet, Text (''Integration name: '' @ openai_name demo_down)),
                  (LBullet, Text (''Models: '' @ join '', '' (openai_models demo_down)))] w2))"
    using openai_section_down [of apply_cfg demo_down "''k''" demo_api demo_token] by simp
  note m = main_stops_in_openai [OF a b]
  have e: "existsGet demo_down (flags (argv demo_down)) (integ_url demo_api ''openai'') demo_token init =
     (Inl (NetworkError (get_request (integ_url demo_api ''openai'') demo_token)),
      sent [get_request (integ_url demo_api ''openai'') demo_token] init)"
    by (simp add: existsGet_eq)
  show ?thesis
    using e t2 by (simp add: run_def m)
qed

section \<open>C6: an absent source directory\<close>








section \<open>C9: the API base\<close>

lemma strip_api_snoc_api: "strip_api (s @ ''/api'') = s"
  by (simp add: strip_api_def suffix_def)

lemma strip_api_snoc_api_slash: "strip_api (s @ ''/api/'') = s"
  by (simp add: strip_api_def suffix_def)

lemma strip_api_plain: "\<not> suffix ''/api'' u \<Longrightarrow> \<not> suffix ''/api/'' u \<Longrightarrow> strip_api u = u"
  by (simp add: strip_api_def)

lemma normalize_only_server_url:
  "u \<noteq> [] \<Longrightarrow> normalizeBaseApiUrl (only_server_url u) = strip_api u @ ''/api''"
  by (simp add: normalizeBaseApiUrl_def only_server_url_def nonempty_def)

text \<open>The variable \<^verbatim>\<open>CONDUCTOR_SERVER_API_URL\<close> is read first.\<close>

lemma normalize_api_url:
  "u \<noteq> [] \<Longrightarrow>
   normalizeBaseApiUrl (pe(''CONDUCTOR_SERVER_API_URL'' \<mapsto> u)) = strip_api u @ ''/api''"
  by (simp add: normalizeBaseApiUrl_def nonempty_def)

text \<open>
  The variable \<^verbatim>\<open>CONDUCTOR_SERVER_URL\<close> is read when the other one is not set or empty,
  and is without any effect when the other one is set.
\<close>

lemma normalize_server_url:
  "u \<noteq> [] \<Longrightarrow>
   normalizeBaseApiUrl (pe(''CONDUCTOR_SERVER_URL'' \<mapsto> u)) =
     (case nonempty (pe ''CONDUCTOR_SERVER_API_URL'') of
        Some api \<Rightarrow> normalizeBaseApiUrl pe
      | None \<Rightarrow> strip_api u @ ''/api'')"
  by (simp add: normalizeBaseApiUrl_def nonempty_def split: option.splits)

lemma normalize_ends_api: "\<exists>s. normalizeBaseApiUrl pe = s @ ''/api''"
proof -
  have "''https://developer.orkescloud.com/api'' = ''https://developer.orkescloud.com'' @ ''/api''"
    by simp
  then show ?thesis
    unfolding normalizeBaseApiUrl_def by (auto split: option.splits)
qed

text \<open>
  C9, as stated, fails: \<^verbatim>\<open>http://h/api/\<close> does not end in \<^verbatim>\<open>/api\<close>, its base is
  \<^verbatim>\<open>http://h/api\<close>, and the base of \<^verbatim>\<open>http://h/api//api\<close> is \<^verbatim>\<open>http://h/api//api\<close>.
\<close>

theorem C9_counterexample:
  "\<not> suffix ''/api'' ''http://h/api/'' \<and>
   normalizeBaseApiUrl (only_server_url ''http://h/api/'') = ''http://h/api'' \<and>
   normalizeBaseApiUrl (only_server_url (''http://h/api/'' @ ''/api'')) = ''http://h/api//api'' \<and>
   normalizeBaseApiUrl (only_server_url ''http://h/api/'') \<noteq>
   normalizeBaseApiUrl (only_server_url (''http://h/api/'' @ ''/api''))"
  by (simp add: normalize_only_server_url strip_api_def suffix_def)

text \<open>
  C9, amended. In every environment, and for each of the two variables
  \<^verbatim>\<open>CONDUCTOR_SERVER_API_URL\<close> and \<^verbatim>\<open>CONDUCTOR_SERVER_URL\<close>: for every non-empty URL \<open>u\<close>
  that ends neither in \<^verbatim>\<open>/api\<close> nor in \<^verbatim>\<open>/api/\<close>, the API base computed with the variable
  set to \<open>u\<close> equals the one computed with it set to \<open>u\<close> followed by \<^verbatim>\<open>/api\<close>; that base
  is \<open>u\<close> followed by \<^verbatim>\<open>/api\<close> when the variable is the one that is read
  (\<^verbatim>\<open>CONDUCTOR_SERVER_API_URL\<close> always, \<^verbatim>\<open>CONDUCTOR_SERVER_URL\<close> when the other is not set
  or empty). A URL ending in \<^verbatim>\<open>/api/\<close> has the base of the same URL without the final
  slash. Normalising an already normalised base, given through either variable, leaves it
  unchanged.
\<close>

theorem C9_normalize_base:
  assumes "u \<noteq> []" and "\<not> suffix ''/api'' u" and "\<not> suffix ''/api/'' u"
  shows "normalizeBaseApiUrl (pe(''CONDUCTOR_SERVER_API_URL'' \<mapsto> u)) = u @ ''/api'' \<and>
         normalizeBaseApiUrl (pe(''CONDUCTOR_SERVER_API_URL'' \<mapsto> u @ ''/api'')) = u @ ''/api'' \<and>
         normalizeBaseApiUrl (pe(''CONDUCTOR_SERVER_URL'' \<mapsto> u)) =
           normalizeBaseApiUrl (pe(''CONDUCTOR_SERVER_URL'' \<mapsto> u @ ''/api'')) \<and>
         normalizeBaseApiUrl (pe(''CONDUCTOR_SERVER_URL'' \<mapsto> u)) =
           (case nonempty (pe ''CONDUCTOR_SERVER_API_URL'') of
              Some api \<Rightarrow> normalizeBaseApiUrl pe
            | None \<Rightarrow> u @ ''/api'') \<and>
         normalizeBaseApiUrl (pe(''CONDUCTOR_SERVER_API_URL'' \<mapsto> s @ ''/api/'')) =
           normalizeBaseApiUrl (pe(''CONDUCTOR_SERVER_API_URL'' \<mapsto> s @ ''/api'')) \<and>
         normalizeBaseApiUrl (pe(''CONDUCTOR_SERVER_URL'' \<mapsto> s @ ''/api/'')) =
           normalizeBaseApiUrl (pe(''CONDUCTOR_SERVER_URL'' \<mapsto> s @ ''/api'')) \<and>
         normalizeBaseApiUrl (pe(''CONDUCTOR_SERVER_API_URL'' \<mapsto> normalizeBaseApiUrl pe)) =
           normalizeBaseApiUrl pe \<and>
         normalizeBaseApiUrl (pe(''CONDUCTOR_SERVER_URL'' \<mapsto> normalizeBaseApiUrl pe)) =
           normalizeBaseApiUrl pe"
proof -
  have plain: "strip_api u = u"
    using assms by (simp add: strip_api_plain)
  have a1: "normalizeBaseApiUrl (pe(''CONDUCTOR_SERVER_API_URL'' \<mapsto> u)) = u @ ''/api''"
    using assms(1) by (simp add: normalize_api_url plain)
  have a2: "normalizeBaseApiUrl (pe(''CONDUCTOR_SERVER_API_URL'' \<mapsto> u @ ''/api'')) = u @ ''/api''"
    by (simp add: normalize_api_url strip_api_snoc_api)
  have b2: "normalizeBaseApiUrl (pe(''CONDUCTOR_SERVER_URL'' \<mapsto> u)) =
           (case nonempty (pe ''CONDUCTOR_SERVER_API_URL'') of
              Some api \<Rightarrow> normalizeBaseApiUrl pe
            | None \<Rightarrow> u @ ''/api'')"
    using assms(1) by (simp add: normalize_server_url plain split: option.splits)
  have b1: "normalizeBaseApiUrl (pe(''CONDUCTOR_SERVER_URL'' \<mapsto> u)) =
           normalizeBaseApiUrl (pe(''CONDUCTOR_SERVER_URL'' \<mapsto> u @ ''/api''))"
    unfolding b2 by (simp add: normalize_server_url strip_api_snoc_api split: option.splits)
  have c1: "normalizeBaseApiUrl (pe(''CONDUCTOR_SERVER_API_URL'' \<mapsto> s @ ''/api/'')) =
           normalizeBaseApiUrl (pe(''CONDUCTOR_SERVER_API_URL'' \<mapsto> s @ ''/api''))"
    by (simp add: normalize_api_url strip_api_snoc_api strip_api_snoc_api_slash)
  have c2: "normalizeBaseApiUrl (pe(''CONDUCTOR_SERVER_URL'' \<mapsto> s @ ''/api/'')) =
           normalizeBaseApiUrl (pe(''CONDUCTOR_SERVER_URL'' \<mapsto> s @ ''/api''))"
    by (simp add: normalize_server_url strip_api_snoc_api strip_api_snoc_api_slash split: option.splits)
  obtain t where t: "normalizeBaseApiUrl pe = t @ ''/api''"
    using normalize_ends_api by blast
  have d1: "normalizeBaseApiUrl (pe(''CONDUCTOR_SERVER_API_URL'' \<mapsto> normalizeBaseApiUrl pe)) =
           normalizeBaseApiUrl pe"
    unfolding t by (simp add: normalize_api_url strip_api_snoc_api)
  have d2: "normalizeBaseApiUrl (pe(''CONDUCTOR_SERVER_URL'' \<mapsto> normalizeBaseApiUrl pe)) =
           normalizeBaseApiUrl pe"
  proof (cases "nonempty (pe ''CONDUCTOR_SERVER_API_URL'')")
    case None
    have "normalizeBaseApiUrl (pe(''CONDUCTOR_SERVER_URL'' \<mapsto> t @ ''/api'')) = t @ ''/api''"
      using None by (simp add: normalize_server_url strip_api_snoc_api)
    then show ?thesis by (simp add: t)
  next
    case (Some api)
    have "normalizeBaseApiUrl (pe(''CONDUCTOR_SERVER_URL'' \<mapsto> t @ ''/api'')) = normalizeBaseApiUrl pe"
      using Some by (simp add: normalize_server_url)
    then show ?thesis by (simp add: t)
  qed
  from a1 a2 b1 b2 c1 c2 d1 d2 show ?thesis by blast
qed

text \<open>
  C9, witness: the bare host \<^verbatim>\<open>http://h\<close>, in an environment where nothing else is set.
\<close>

theorem C9_normalize_base_witness:
  "''http://h'' \<noteq> [] \<and> \<not> suffix ''/api'' ''http://h'' \<and> \<not> suffix ''/api/'' ''http://h'' \<and>
   normalizeBaseApiUrl (Map.empty(''CONDUCTOR_SERVER_API_URL'' \<mapsto> ''http://h'')) = ''http://h/api'' \<and>
   normalizeBaseApiUrl (Map.empty(''CONDUCTOR_SERVER_API_URL'' \<mapsto> ''http://h/api'')) = ''http://h/api'' \<and>
   normalizeBaseApiUrl (Map.empty(''CONDUCTOR_SERVER_URL'' \<mapsto> ''http://h'')) = ''http://h/api'' \<and>
   normalizeBaseApiUrl (Map.empty(''CONDUCTOR_SERVER_URL'' \<mapsto> ''http://h/api'')) = ''http://h/api''"
proof -
  have h: "''http://h'' \<noteq> []" "\<not> suffix ''/api'' ''http://h''" "\<not> suffix ''/api/'' ''http://h''"
    by (simp_all add: suffix_def)
  from h C9_normalize_base [OF h, where pe = Map.empty and s = "[]"] show ?thesis
    by (auto simp: nonempty_def)
qed

section \<open>C10: a workflow file on the command line\<close>

text \<open>No pass other than the workflow pass reads the command line: each is a function of the flags.\<close>

lemma fetch_argv [simp]: "fetch (e\<lparr>argv := a\<rparr>) = fetch e"
  by (intro ext) (simp add: fetch_def)

lemma http_argv [simp]: "http (e\<lparr>argv := a\<rparr>) = http e"
  by (intro ext) (simp add: http_def Let_def split: prod.splits response.splits option.splits)

lemma exists_argv [simp]: "exists (e\<lparr>argv := a\<rparr>) = exists e"
  by (intro ext) (simp add: exists_def)

lemma existsGet_argv [simp]: "existsGet (e\<lparr>argv := a\<rparr>) = existsGet e"
  by (intro ext) (simp add: existsGet_def)

lemma listHumanTemplates_argv [simp]: "listHumanTemplates (e\<lparr>argv := a\<rparr>) = listHumanTemplates e"
  by (intro ext) (simp add: listHumanTemplates_def Let_def split: prod.splits response.splits option.splits json.splits)

lemma readJson_argv [simp]: "readJson (e\<lparr>argv := a\<rparr>) = readJson e"
  by (intro ext) (simp add: readJson_def split: option.splits)

lemma readText_argv [simp]: "readText (e\<lparr>argv := a\<rparr>) = readText e"
  by (intro ext) (simp add: readText_def)

lemma mustEnv_argv [simp]: "mustEnv (e\<lparr>argv := a\<rparr>) = mustEnv e"
  by (intro ext) (simp add: mustEnv_def)

lemma models_loop_argv [simp]:
  "models_loop (e\<lparr>argv := a\<rparr>) c API integ token ms (x, y) = models_loop e c API integ token ms (x, y)"
  by (induction ms arbitrary: x y) (simp_all cong: if_cong)

lemma taskdefs_loop_argv [simp]:
  "taskdefs_loop (e\<lparr>argv := a\<rparr>) API token ui ns acc = taskdefs_loop e API token ui ns acc"
  by (induction ns arbitrary: acc) (simp_all cong: if_cong)

lemma forms_loop_argv [simp]:
  "forms_loop (e\<lparr>argv := a\<rparr>) c API token ex fs (x, y) = forms_loop e c API token ex fs (x, y)"
  by (induction fs arbitrary: x y) (simp_all cong: option.case_cong if_cong)

lemma prompts_loop_argv [simp]:
  "prompts_loop (e\<lparr>argv := a\<rparr>) c API UI token em ps (x, y) = prompts_loop e c API UI token em ps (x, y)"
  by (induction ps arbitrary: x y) (auto simp: Let_def cong: if_cong)















lemma indexOf_None: "indexOf xs x = None \<longleftrightarrow> x \<notin> set xs"
  by (induction xs) auto







lemma andThen_stop [simp]: "andThen (\<lambda>w. (Inl err, g w)) k w = (Inl err, g w)"
  by (simp add: andThen_def)









section \<open>The run, pass by pass\<close>

lemma main_unfold:
  "main e w =
     (let c = flags (argv e);
          API = normalizeBaseApiUrl (penv e);
          UI = uiBaseFromApi API;
          w0 = printed [(LHeader, Text ''Orkes Healthcare Relocation Setup''),
                        (LBullet, Text (''Mode: '' @ (if PLAN c then ''PLAN (no changes)'' else ''APPLY''))),
                        (LBullet, Text (''Orkes API: '' @ API)),
                        (LBullet, Text (''Orkes UI : '' @ UI))] w
      in case auth_section e c API w0 of
           (Inl err, w1) \<Rightarrow> (Inl err, w1)
         | (Inr (token, userInfo), w1) \<Rightarrow>
      (case openai_section e c API UI token w1 of
           (Inl err, w2) \<Rightarrow> (Inl err, w2)
         | (Inr u2, w2) \<Rightarrow>
      (case taskdefs_section e c API UI token userInfo w2 of
           (Inl err, w3) \<Rightarrow> (Inl err, w3)
         | (Inr u3, w3) \<Rightarrow>
      (case forms_section e c API UI token w3 of
           (Inl err, w4) \<Rightarrow> (Inl err, w4)
         | (Inr u4, w4) \<Rightarrow>
      (case prompts_section e c API UI token w4 of
           (Inl err, w5) \<Rightarrow> (Inl err, w5)
         | (Inr u5, w5) \<Rightarrow>
      (case workflows_section e c API UI token w5 of
           (Inl err, w6) \<Rightarrow> (Inl err, w6)
         | (Inr u6, w6) \<Rightarrow>
             (Inr (),
              printed [(LHeader, Text (''Setup complete ('' @ (if PLAN c then ''PLAN'' else ''APPLY'') @
                                       '' mode)'')),
                       (LLog, Text ''Next steps'')] w6)))))))"
  by (simp add: main_def Let_def console_defs world_norm say_eq
      andThen_def [of "auth_section _ _ _"] andThen_def [of "openai_section _ _ _ _ _"]
      andThen_def [of "taskdefs_section _ _ _ _ _ _"] andThen_def [of "forms_section _ _ _ _ _"]
      andThen_def [of "prompts_section _ _ _ _ _"] andThen_def [of "workflows_section _ _ _ _ _"]
      split: prod.splits sum.splits)


section \<open>C5: a creation call that fails\<close>

lemma reject_fields [simp]:
  "argv demo_reject = [''node'', ''setup.mjs'', ''--no-openai'']"
  "penv demo_reject = penv demo"
  "exists_sync demo_reject p"
  by (simp_all add: demo_reject_def demo_def)

lemma reject_flags [simp]:
  "flags [''node'', ''setup.mjs'', ''--no-openai''] = apply_cfg\<lparr>NO_OPENAI := True\<rparr>"
  by (simp add: flags_def argHas_def argValue_def apply_cfg_def)

lemma reject_version [simp]:
  "http_outcome demo_reject (http_request ''GET'' (demo_api @ ''/version'') None None) ExpectText [200]
     = Inr (JStr [])"
  by (simp add: http_outcome_def http_request_def demo_reject_def demo_def reply_of_def)

lemma reject_user_info [simp]: "user_info demo_reject demo_api demo_token = JObj []"
  by (simp add: user_info_def http_outcome_def http_request_def demo_reject_def demo_def reply_of_def)

lemma reject_taskdefs [simp]: "\<not> taskdef_has demo_reject demo_api demo_token n"
  by (simp add: taskdef_has_def remote_has_def get_request_def demo_reject_def demo_def res_ok_def
      taskdef_url_def)












section \<open>C7: a document without a name\<close>

text \<open>
  A document other than \<^verbatim>\<open>null\<close> that has no name, or a name that is not truthy, is
  skipped with a warning, and the loop goes on with the files that follow.
\<close>

lemma forms_loop_nameless:
  assumes "nameless e (form_path e c f)"
  shows "forms_loop e c API token ex (f # rest) (cr, sk) w =
         forms_loop e c API token ex rest (cr, sk) (printed [(LWarn, Skipping_form f)] w)"
  using assms unfolding forms_loop_Cons
  by (cases rule: file_cases [of e "form_path e c f"])
    (simp_all add: nameless_def warn_def del: forms_loop.simps)

lemma workflows_loop_nameless:
  assumes "nameless e (wf_path e c pos f)"
  shows "workflows_loop e c API UI token pos (f # rest) (cr, sk) w =
         workflows_loop e c API UI token pos rest (cr, sk) (printed [(LWarn, Skipping_workflow f)] w)"
  using assms unfolding workflows_loop_Cons
  by (cases rule: file_cases [of e "wf_path e c pos f"])
    (simp_all add: nameless_def warn_def del: workflows_loop.simps)

text \<open>The document \<^verbatim>\<open>null\<close> is not skipped: reading its name throws.\<close>

lemma forms_loop_null:
  assumes "readJson e (form_path e c f) = Inr JNull"
  shows "forms_loop e c API token ex (f # rest) (cr, sk) w = (Inl TypeError, w)"
  using assms unfolding forms_loop_Cons by (simp add: named_def throw_def del: forms_loop.simps)

lemma workflows_loop_null:
  assumes "readJson e (wf_path e c pos f) = Inr JNull"
  shows "workflows_loop e c API UI token pos (f # rest) (cr, sk) w = (Inl TypeError, w)"
  using assms unfolding workflows_loop_Cons
  by (simp add: named_def throw_def del: workflows_loop.simps)

lemma null_fields [simp]:
  "argv demo_null = [''node'', ''setup.mjs'', ''--no-openai'']"
  "penv demo_null = penv demo"
  "exists_sync demo_null p"
  "readdir_sync demo_null d = Some [''a.json'', ''b.json'']"
  "net demo_null rq = Resp 200 []"
  by (simp_all add: demo_null_def demo_def)

lemma null_file:
  "readJson demo_null (form_path demo_null c ''a.json'') = Inr JNull"
  "readJson demo_null (form_path demo_null c ''b.json'') = Inr (JObj [(''name'', JStr ''n'')])"
  by (simp_all add: readJson_def form_path_def demo_null_def demo_def)

lemma null_list:
  "listHumanTemplates demo_null API token w =
     (Inr [], sent [get_request (API @ ''/human/template'') token] w)"
  by (simp add: listHumanTemplates_def fetch_def get_request_def sent_def res_ok_def)

lemma null_forms_section:
  "forms_section demo_null (apply_cfg\<lparr>NO_OPENAI := True\<rparr>) API UI token w =
     (Inl TypeError,
      sent [get_request (API @ ''/human/template'') token]
        (printed [(LSection, Text ''Human Task Forms'')] w))"
  by (simp add: forms_section_def console_defs andThen_assoc suffix_to_prefix
      andThen_def [of "listHumanTemplates _ _ _"] null_list
      forms_loop_null [OF null_file(1)] andThen_def [of "forms_loop _ _ _ _ _ _ _"] world_norm
      del: forms_loop.simps)


lemma null_http [simp]:
  "http_outcome demo_null (http_request ''GET'' (demo_api @ ''/version'') None None) ExpectText [200]
     = Inr (JStr [])"
  "user_info demo_null demo_api demo_token = JObj []"
  "taskdef_has demo_null demo_api demo_token n"
  by (simp_all add: http_outcome_def reply_of_def user_info_def taskdef_has_def remote_has_def
      res_ok_def)

lemma null_auth:
  "auth_section demo_null c demo_api w =
     (Inr (demo_token, JObj []),
      sent [http_request ''GET'' (demo_api @ ''/version'') None None,
            http_request ''GET'' (demo_api @ ''/token/userInfo'') demo_token None]
        (printed [(LSection, Text ''Authentication''),
                  (LOk, Text ''Using CONDUCTOR_ACCESS_TOKEN''),
                  (LInfo, Text ''Checking server connectivity''),
                  (LOk, Text ''Server reachable''),
                  (LOk, Text ''Authenticated as: unknown user'')] w))"
  by (simp add: auth_with_token [where t = "''t''"] demo_token_def [symmetric] who_def field_def)

lemma null_main:
  "main demo_null init =
     (Inl TypeError,
      sent [get_request (demo_api @ ''/human/template'') demo_token]
        (printed [(LOk, TaskDefs_all_exist),
                  (LBullet, Text ''UI: https://developer.orkescloud.com/taskDef''),
                  (LSection, Text ''Human Task Forms'')]
          (taskdefs_checked demo_null demo_api demo_token
            (printed [(LSection, Text ''OpenAI Integration (idempotent)''),
                      (LWarn, Text ''Skipping OpenAI integration step (--no-openai).'')]
              (sent [http_request ''GET'' (demo_api @ ''/version'') None None,
                     http_request ''GET'' (demo_api @ ''/token/userInfo'') demo_token None]
                (printed [(LHeader, Text ''Orkes Healthcare Relocation Setup''),
                          (LBullet, Text ''Mode: APPLY''),
                          (LBullet, Text (''Orkes API: '' @ demo_api)),
                          (LBullet, Text ''Orkes UI : https://developer.orkescloud.com''),
                          (LSection, Text ''Authentication''),
                          (LOk, Text ''Using CONDUCTOR_ACCESS_TOKEN''),
                          (LInfo, Text ''Checking server connectivity''),
                          (LOk, Text ''Server reachable''),
                          (LOk, Text ''Authenticated as: unknown user'')] init))))))"
  by (simp add: main_unfold Let_def null_auth openai_section_skipped taskdefs_section_eq
      null_forms_section world_norm)

lemma null_run:
  "fst (run demo_null) = 1"
  "trace (snd (run demo_null)) =
     [http_request ''GET'' (demo_api @ ''/version'') None None,
      http_request ''GET'' (demo_api @ ''/token/userInfo'') demo_token None] @
     map (\<lambda>n. get_request (taskdef_url demo_api n) demo_token) WORKER_TASKS @
     [get_request (demo_api @ ''/human/template'') demo_token]"
  "last (out (snd (run demo_null))) = (LError, Failure TypeError)"
  "invalid_of Form (snd (run demo_null)) = []"
  by (simp_all add: run_def init_def [symmetric] null_main taskdefs_checked_def)
    (simp_all add: init_def invalid_of_def List.map_filter_simps invalid_line_def
      List.map_filter_def)


text \<open>
  C7 says that a document without a name is skipped with a warning, not an error, and that
  the other documents are processed. In \<open>demo_null\<close> the forms directory holds
  \<^verbatim>\<open>a.json\<close>, the JSON document \<^verbatim>\<open>null\<close>, and \<^verbatim>\<open>b.json\<close>, a valid document named
  \<^verbatim>\<open>n\<close>. The test \<^verbatim>\<open>if (!form.name)\<close> reads a property of \<^verbatim>\<open>null\<close> and throws a
  \<^verbatim>\<open>TypeError\<close>: the forms pass prints no warning, never reaches \<^verbatim>\<open>b.json\<close>, and the
  run ends with status 1 after the request for the list of templates.
\<close>

theorem C7_null_document_throws:
  "form_files demo_null (flags (argv demo_null)) = [''a.json'', ''b.json''] \<and>
   readJson demo_null (form_path demo_null (flags (argv demo_null)) ''a.json'') = Inr JNull \<and>
   descriptor demo_null (form_path demo_null (flags (argv demo_null)) ''b.json'') =
     Some (''n'', JObj [(''name'', JStr ''n'')]) \<and>
   forms_section demo_null (flags (argv demo_null)) demo_api ''ui'' demo_token init =
     (Inl TypeError,
      sent [get_request (demo_api @ ''/human/template'') demo_token]
        (printed [(LSection, Text ''Human Task Forms'')] init)) \<and>
   invalid_of Form (snd (run demo_null)) = [] \<and>
   trace (snd (run demo_null)) =
     [http_request ''GET'' (demo_api @ ''/version'') None None,
      http_request ''GET'' (demo_api @ ''/token/userInfo'') demo_token None,
      get_request (taskdef_url demo_api ''healthcare_provider_finder'') demo_token,
      get_request (taskdef_url demo_api ''communication_drafter'') demo_token,
      get_request (taskdef_url demo_api ''medical_system_navigator'') demo_token,
      get_request (taskdef_url demo_api ''prescription_transition_manager'') demo_token,
      get_request (demo_api @ ''/human/template'') demo_token] \<and>
   fst (run demo_null) = 1 \<and>
   last (out (snd (run demo_null))) = (LError, Failure TypeError)"
proof -
  have f: "form_files demo_null (flags (argv demo_null)) = [''a.json'', ''b.json'']"
    by (simp add: form_files_def suffix_to_prefix)
  have d: "descriptor demo_null (form_path demo_null (flags (argv demo_null)) ''b.json'') =
     Some (''n'', JObj [(''name'', JStr ''n'')])"
    by (simp add: descriptor_def null_file named_def field_def)
  have t: "trace (snd (run demo_null)) =
     [http_request ''GET'' (demo_api @ ''/version'') None None,
      http_request ''GET'' (demo_api @ ''/token/userInfo'') demo_token None,
      get_request (taskdef_url demo_api ''healthcare_provider_finder'') demo_token,
      get_request (taskdef_url demo_api ''communication_drafter'') demo_token,
      get_request (taskdef_url demo_api ''medical_system_navigator'') demo_token,
      get_request (taskdef_url demo_api ''prescription_transition_manager'') demo_token,
      get_request (demo_api @ ''/human/template'') demo_token]"
    by (simp add: null_run(2)) (simp add: WORKER_TASKS_def)
  from f d t show ?thesis
    by (simp add: null_file null_forms_section null_run(1,3,4))
qed

end
